(* ===== verification/Prelude.thy ===== *)
theory Prelude
  imports Main "HOL-Library.Word" "HOL-Library.Signed_Division"
begin

unbundle bit_operations_syntax

text \<open>
  Shared vocabulary of the development: the C integer types as machine words, conversions
  between a 64-bit register and a C \<open>int\<close>, bit fields of a 64-bit word, the faults a C program
  can run into, and three small interfaces (a codec between a struct and its words, an
  invariant of a step function, a positional number system) whose client lemmas are proved once
  and interpreted by the components.
\<close>

section \<open>Machine integers\<close>

type_synonym u8 = "8 word"
type_synonym u16 = "16 word"
type_synonym u32 = "32 word"
type_synonym u64 = "64 word"

named_theorems bitfield_simps \<open>bits of packed fields\<close>
named_theorems layout_simps \<open>evaluated struct layouts and constants\<close>

text \<open>A C \<open>int\<close> is kept as a mathematical integer; assigning a 64-bit value to one keeps the
  low 32 bits in two's complement.\<close>

definition s32 :: "u64 \<Rightarrow> int" where
  "s32 x = sint (ucast x :: u32)"

text \<open>The reverse conversion (an \<open>int\<close> in a 64-bit unsigned expression) sign-extends.\<close>

definition u64_of_int :: "int \<Rightarrow> u64" where
  "u64_of_int i = word_of_int i"

lemma s32_0 [simp]: "s32 0 = 0"
  by (simp add: s32_def)

lemma s32_small:
  assumes "unat x < 2 ^ 31"
  shows "s32 x = int (unat x)"
proof -
  have "unat (ucast x :: u32) = unat x"
    using assms by (simp add: unsigned_ucast_eq take_bit_nat_eq_self)
  then have u: "uint (ucast x :: u32) = int (unat x)"
    by (metis uint_nat)
  moreover have "int (unat x) < int (2 ^ 31)"
    using assms by (simp only: of_nat_less_iff)
  ultimately have "uint (ucast x :: u32) < 2 ^ 31"
    by simp
  then show ?thesis
    unfolding s32_def using u
    by (simp add: sint_uint signed_take_bit_int_eq_self_iff order_trans [OF _ uint_ge_0])
qed

lemma s32_of_int: "s32 (word_of_int i) = signed_take_bit 31 i"
proof -
  have "ucast (word_of_int i :: u64) = (word_of_int i :: u32)"
    by (auto intro!: bit_word_eqI simp: bit_simps)
  then show ?thesis
    by (simp add: s32_def signed_of_int)
qed

lemma s32_minus_1 [simp]: "s32 (- 1) = - 1"
  using s32_of_int [of "- 1"] by simp

text \<open>The kernel's error pointers are the last 4095 addresses; as an \<open>int\<close> they are negative.\<close>

lemma s32_error_pointer:
  assumes "- 4095 \<le> (p :: u64)"
  shows "s32 p < 0"
proof -
  define i where "i = uint p - 2 ^ 64"
  have u: "18446744073709547521 \<le> uint p" "uint p < 2 ^ 64"
    using assms uint_lt2p [of p] by (simp_all add: word_le_def)
  then have "signed_take_bit 31 i = i"
    by (intro signed_take_bit_int_eq_self) (simp_all add: i_def)
  moreover have "p = word_of_int i"
    by (simp add: i_def)
  ultimately have "s32 p = i"
    using s32_of_int [of i] by metis
  then show ?thesis using u by (simp add: i_def)
qed

lemma u64_of_int_inverse:
  "0 \<le> i \<Longrightarrow> i < 2 ^ 64 \<Longrightarrow> unat (u64_of_int i) = nat i"
  by (simp add: u64_of_int_def unat_eq_nat_uint uint_word_of_int)

text \<open>Unsigned subtraction, addition and multiplication that do not wrap are exact.\<close>

lemma unat_add_no_wrap:
  "unat (a :: u64) + unat b < 2 ^ 64 \<Longrightarrow> unat (a + b) = unat a + unat b"
  by (simp add: unat_word_ariths)

lemma unat_mult_no_wrap:
  "unat (a :: u64) * unat b < 2 ^ 64 \<Longrightarrow> unat (a * b) = unat a * unat b"
  by (simp add: unat_word_ariths)

lemma u64_bound: "unat (x :: u64) < 2 ^ 64"
  by (rule order_less_le_trans [OF unsigned_less]) simp

lemma u64_of_nat_inverse: "n < 2 ^ 64 \<Longrightarrow> unat (of_nat n :: u64) = n"
  by (simp add: unat_of_nat)

lemma u64_of_nat_inj:
  "(of_nat m :: u64) = of_nat n \<Longrightarrow> m < 2 ^ 64 \<Longrightarrow> n < 2 ^ 64 \<Longrightarrow> m = n"
  by (drule arg_cong [where f = unat]) (simp only: u64_of_nat_inverse)

text \<open>Division rounded up, as the sources write it.\<close>

lemma div_exact: "(r :: nat) < s \<Longrightarrow> (s * q + r) div s = q"
  by simp

lemma ceil_div:
  fixes l s :: nat
  assumes "0 < s"
  shows "(l + s - 1) div s = (if s * (l div s) = l then l div s else l div s + 1)"
proof -
  define q r where "q = l div s" and "r = l mod s"
  have l: "l = s * q + r" and r: "r < s"
    using assms by (simp_all add: q_def r_def)
  have "(s * q + r + s - 1) div s = (if r = 0 then q else q + 1)"
  proof (cases "r = 0")
    case True
    then show ?thesis using div_exact [of "s - 1" s q] assms by simp
  next
    case False
    then have "s * q + r + s - 1 = s * (q + 1) + (r - 1)" using r by simp
    then show ?thesis using div_exact [of "r - 1" s "q + 1"] r False by simp
  qed
  then show ?thesis
    using l r by (auto simp: q_def [symmetric])
qed

lemma less_ceil_div:
  fixes j l s :: nat
  assumes "0 < s"
  shows "j < (l + s - 1) div s \<longleftrightarrow> j * s < l"
proof -
  have "j < (l + s - 1) div s \<longleftrightarrow> Suc j * s \<le> l + s - 1"
    using less_eq_div_iff_mult_less_eq [OF assms, of "Suc j" "l + s - 1"] by (simp add: Suc_le_eq)
  also have "\<dots> \<longleftrightarrow> j * s < l" using assms by auto
  finally show ?thesis .
qed

section \<open>Bit fields\<close>

text \<open>\<open>fld k x\<close> places the field \<open>x\<close> at bit \<open>k\<close> of a 64-bit word; \<open>get_fld k w\<close> reads the
  field of the result width that starts at bit \<open>k\<close>.\<close>

definition fld :: "nat \<Rightarrow> 'a::len word \<Rightarrow> u64" where
  "fld k x = push_bit k (ucast x)"

definition get_fld :: "nat \<Rightarrow> u64 \<Rightarrow> 'a::len word" where
  "get_fld k w = ucast (drop_bit k w)"

lemma bit_fld [bitfield_simps]:
  "bit (fld k (x :: 'a::len word)) n \<longleftrightarrow> k \<le> n \<and> n < 64 \<and> bit x (n - k)"
  by (auto simp: fld_def bit_simps)

lemma bit_get_fld [bitfield_simps]:
  "bit (get_fld k w :: 'a::len word) n \<longleftrightarrow> n < LENGTH('a) \<and> bit w (k + n)"
  by (auto simp: get_fld_def bit_simps)

section \<open>Faults\<close>

text \<open>Undefined behaviour and traps of the C code are values: an array index out of range, a
  division by zero, a NULL dereference, the read of an uninitialised variable.\<close>

datatype fault = OutOfBounds | DivideByZero | NullDeref | Uninitialised

text \<open>C unsigned division and remainder trap on zero.\<close>

definition udiv :: "u64 \<Rightarrow> u64 \<Rightarrow> fault + u64" where
  "udiv a b = (if b = 0 then Inl DivideByZero else Inr (a div b))"

definition umod :: "u64 \<Rightarrow> u64 \<Rightarrow> fault + u64" where
  "umod a b = (if b = 0 then Inl DivideByZero else Inr (a mod b))"

section \<open>Interfaces\<close>

text \<open>A codec: what a struct's words decode to.\<close>

locale codec =
  fixes enc :: "'a \<Rightarrow> u64 list"
    and dec :: "u64 list \<Rightarrow> 'a"
    and words :: nat
  assumes dec_enc: "dec (enc x) = x"
    and enc_length: "length (enc x) = words"
begin

lemma enc_inj: "enc x = enc y \<Longrightarrow> x = y"
  by (metis dec_enc)

lemma enc_injective: "inj enc"
  by (rule injI) (rule enc_inj)

lemma dec_prefix: "dec (take words (enc x @ rest)) = x"
  using dec_enc [of x] enc_length [of x] by simp

end

text \<open>A step function with an invariant: the invariant holds after any sequence of admissible
  events.\<close>

locale invariant_steps =
  fixes step :: "'e \<Rightarrow> 's \<Rightarrow> 's"
    and admissible :: "'e \<Rightarrow> bool"
    and inv :: "'s \<Rightarrow> bool"
  assumes step_inv: "admissible e \<Longrightarrow> inv s \<Longrightarrow> inv (step e s)"
begin

lemma run_inv: "list_all admissible es \<Longrightarrow> inv s \<Longrightarrow> inv (fold step es s)"
  by (induction es arbitrary: s) (auto intro: step_inv)

end

text \<open>A positional number system: the value of a string of digit characters, most significant
  first, and the representation of a number with a fixed number of digits.\<close>

definition digits_value :: "nat \<Rightarrow> (char \<Rightarrow> nat option) \<Rightarrow> string \<Rightarrow> nat" where
  "digits_value base digit cs = foldl (\<lambda>a c. a * base + the (digit c)) 0 cs"

fun fixed_digits :: "nat \<Rightarrow> (nat \<Rightarrow> char) \<Rightarrow> nat \<Rightarrow> nat \<Rightarrow> string" where
  "fixed_digits base chr 0 n = []"
| "fixed_digits base chr (Suc k) n = fixed_digits base chr k (n div base) @ [chr (n mod base)]"

definition all_digits :: "(char \<Rightarrow> nat option) \<Rightarrow> string \<Rightarrow> bool" where
  "all_digits digit cs \<longleftrightarrow> list_all (\<lambda>c. digit c \<noteq> None) cs"

lemma digits_value_simps [simp]:
  "digits_value base digit [] = 0"
  "digits_value base digit (cs @ [c]) = digits_value base digit cs * base + the (digit c)"
  by (simp_all add: digits_value_def)

lemma digits_value_append:
  "digits_value base digit (cs @ ds)
     = digits_value base digit cs * base ^ length ds + digits_value base digit ds"
proof (induction ds rule: rev_induct)
  case (snoc d ds)
  have "digits_value base digit (cs @ ds @ [d])
      = digits_value base digit (cs @ ds) * base + the (digit d)"
    using digits_value_simps(2) [of base digit "cs @ ds" d] by simp
  then show ?case
    by (simp add: snoc.IH algebra_simps)
qed simp

lemma all_digits_simps [simp]:
  "all_digits digit []" "all_digits digit (c # cs) = (digit c \<noteq> None \<and> all_digits digit cs)"
  "all_digits digit (cs @ ds) = (all_digits digit cs \<and> all_digits digit ds)"
  "all_digits digit (rev cs) = all_digits digit cs"
  by (auto simp: all_digits_def)

lemma fixed_digits_length [simp]: "length (fixed_digits base chr k n) = k"
  by (induction k arbitrary: n) simp_all

locale positional =
  fixes base :: nat
    and digit :: "char \<Rightarrow> nat option"
  assumes base_pos: "1 < base"
    and digit_less: "digit c = Some d \<Longrightarrow> d < base"
begin

lemma value_bound: "all_digits digit cs \<Longrightarrow> digits_value base digit cs < base ^ length cs"
proof (induction cs rule: rev_induct)
  case Nil
  then show ?case by simp
next
  case (snoc c cs)
  then obtain d where d: "digit c = Some d" by auto
  have "digits_value base digit cs + 1 \<le> base ^ length cs"
    using snoc by simp
  then have "(digits_value base digit cs + 1) * base \<le> base ^ length cs * base"
    by (rule mult_right_mono) simp
  moreover have "d < base"
    using d by (rule digit_less)
  ultimately have "digits_value base digit cs * base + d < base ^ length cs * base"
    by (simp add: algebra_simps)
  then show ?case
    using d by (simp add: mult.commute)
qed

end

locale positional_printer = positional +
  fixes chr :: "nat \<Rightarrow> char"
  assumes digit_chr: "d < base \<Longrightarrow> digit (chr d) = Some d"
begin

lemma fixed_digits_ok: "all_digits digit (fixed_digits base chr k n)"
  using base_pos by (induction k arbitrary: n) (simp_all add: digit_chr)

lemma fixed_digits_value: "digits_value base digit (fixed_digits base chr k n) = n mod base ^ k"
proof (induction k arbitrary: n)
  case (Suc k)
  have "n mod base ^ Suc k = base * (n div base mod base ^ k) + n mod base"
    by (simp add: mod_mult2_eq)
  then show ?case
    using Suc [of "n div base"] base_pos by (simp add: digit_chr mult.commute)
qed simp

end

end
