(* ===== verification/Kernel.thy ===== *)
theory Kernel
  imports Prelude
begin

text \<open>
  The boundary of the driver. Kernel services and the device are code outside the repository's C
  files: they are a parameter \<open>E :: kenv\<close> of every definition that uses them. Each call the
  driver makes is recorded, with the value it returned, in the history \<open>khist\<close> (messages by
  their format, without level, arguments and newline); \<open>kret E\<close> answers
  a call from the history so far and \<open>kout E\<close> gives the words it stores through its pointer
  arguments. As the answer may depend on everything that happened before, any deterministic
  environment (a device with registers, a clock, an allocator that fails) is some \<open>E\<close>.
\<close>

datatype kcall =
    Printk string
  \<comment> \<open>memory\<close>
  | Kmalloc u64 | Kfree u64
  | Vmalloc u64 | Vfree u64
  | PciAllocConsistent u64 | PciFreeConsistent u64 u64 u64
  \<comment> \<open>PCI device\<close>
  | PciEnableDevice | PciDisableDevice
  | PciFindCapability bool u8 \<comment> \<open>False: the device itself, True: its parent bridge\<close>
  | PciReadConfigWord u64 | PciWriteConfigWord u64 u16 | PciWriteConfigDword u64 u32
  | PciSetDmaMask u64 | PciSetConsistentDmaMask u64
  | PciSetDrvdata u64 | PciGetDrvdata
  | PciSetMaster | PciClearMaster
  | PciResourceFlags nat | PciResourceLen nat
  | PciRequestRegions | PciReleaseRegions
  | PciIomap nat u64 | PciIounmap u64
  | PciSetPowerState u64 | PciSaveState | PciRestoreState | PciChooseState u64
  | PciRegisterDriver | PciUnregisterDriver
  \<comment> \<open>character device\<close>
  | AllocChrdevRegion | UnregisterChrdevRegion u64
  | ClassCreate | ClassDestroy u64
  | DeviceCreate u64 u64 | DeviceDestroy u64 u64
  | CdevInit | CdevAdd u64 | CdevDel
  \<comment> \<open>synchronisation, user memory\<close>
  | SemaInit u64 | DownInterruptible | Up
  | DownRead | UpRead
  | CopyFromUser u64 nat | CopyToUser u64 "u64 list"
  | GetUserPages u64 u64 | PageAddress u64
  | PageReserved u64 | SetPageDirty u64 | PutPage u64
  | VirtToPage u64 | VirtToPhys u64 | RemapPfnRange u64 u64 u64 u64
  \<comment> \<open>device memory, DMA mappings, clock\<close>
  | IoWrite32 u64 u32 | IoRead32 u64
  | MemcpyToIo u64 nat u64 | MemcpyFromIo u64 nat
  | Store16 u64 u16 | Load8 u64
  | PciMapSingle u64 u64 | PciUnmapSingle u64 u64
  | KtimeGetUs

type_synonym khist = "(kcall \<times> u64) list"

record kenv =
  kret :: "khist \<Rightarrow> kcall \<Rightarrow> u64"
  kout :: "khist \<Rightarrow> kcall \<Rightarrow> nat \<Rightarrow> u64"

text \<open>A call with a result, a call that also fills memory, and a call without result.\<close>

definition kdo :: "kenv \<Rightarrow> kcall \<Rightarrow> khist \<Rightarrow> u64 \<times> khist" where
  "kdo E c h = (kret E h c, h @ [(c, kret E h c)])"

definition kdo_out :: "kenv \<Rightarrow> kcall \<Rightarrow> khist \<Rightarrow> u64 \<times> (nat \<Rightarrow> u64) \<times> khist" where
  "kdo_out E c h = (kret E h c, kout E h c, h @ [(c, kret E h c)])"

definition emit :: "kcall \<Rightarrow> khist \<Rightarrow> khist" where
  "emit c h = h @ [(c, 0)]"

definition emits :: "kcall list \<Rightarrow> khist \<Rightarrow> khist" where
  "emits cs h = h @ map (\<lambda>c. (c, 0)) cs"

lemmas kcall_defs = kdo_def kdo_out_def emit_def emits_def

lemma kdo_hist: "kdo E c h = (v, h') \<Longrightarrow> h' = h @ [(c, v)] \<and> v = kret E h c"
  by (auto simp: kdo_def)

lemma kdo_out_hist: "kdo_out E c h = (v, ws, h') \<Longrightarrow> h' = h @ [(c, v)] \<and> v = kret E h c"
  by (auto simp: kdo_out_def)

text \<open>The words a call stored, as the list a struct is decoded from.\<close>

definition words_of :: "nat \<Rightarrow> (nat \<Rightarrow> u64) \<Rightarrow> u64 list" where
  "words_of n f = map f [0..<n]"

lemma length_words_of [simp]: "length (words_of n f) = n"
  by (simp add: words_of_def)

lemma nth_words_of [simp]: "i < n \<Longrightarrow> words_of n f ! i = f i"
  by (simp add: words_of_def)

lemma words_of_nth: "length ws = n \<Longrightarrow> words_of n (\<lambda>i. ws ! i) = ws"
  by (simp add: words_of_def list_eq_iff_nth_eq)

text \<open>Occurrences of a call in a history.\<close>

definition calls :: "khist \<Rightarrow> kcall list" where
  "calls h = map fst h"

definition kcount :: "(kcall \<times> u64 \<Rightarrow> bool) \<Rightarrow> khist \<Rightarrow> nat" where
  "kcount P h = length (filter P h)"

lemma calls_append [simp]: "calls (h @ h') = calls h @ calls h'"
  by (simp add: calls_def)

lemma calls_simps [simp]: "calls [] = []" "calls (x # h) = fst x # calls h"
  by (simp_all add: calls_def)

lemma length_calls [simp]: "length (calls h) = length h"
  by (simp add: calls_def)

lemma calls_emit [simp]: "calls (emit c h) = calls h @ [c]"
  by (simp add: emit_def)

lemma calls_emits [simp]: "calls (emits cs h) = calls h @ cs"
  by (simp add: emits_def calls_def comp_def)

lemma kcount_append [simp]: "kcount P (h @ h') = kcount P h + kcount P h'"
  by (simp add: kcount_def)

lemma kcount_simps [simp]:
  "kcount P [] = 0" "kcount P (x # h) = (if P x then Suc (kcount P h) else kcount P h)"
  by (simp_all add: kcount_def)

text \<open>\<open>extends P h h'\<close>: the history grows from \<open>h\<close> to \<open>h'\<close> by calls that all satisfy \<open>P\<close>.\<close>

definition extends :: "(kcall \<Rightarrow> bool) \<Rightarrow> khist \<Rightarrow> khist \<Rightarrow> bool" where
  "extends P h h' \<longleftrightarrow> (\<exists>es. h' = h @ es \<and> list_all P (calls es))"

lemma extends_refl [simp]: "extends P h h"
  by (auto simp: extends_def)

lemma extends_trans: "extends P h h1 \<Longrightarrow> extends P h1 h2 \<Longrightarrow> extends P h h2"
  by (auto simp: extends_def)

lemma extends_mono: "(\<And>c. P c \<Longrightarrow> Q c) \<Longrightarrow> extends P h h' \<Longrightarrow> extends Q h h'"
  by (auto simp: extends_def list_all_iff)

lemma extends_emit: "extends P h h1 \<Longrightarrow> P c \<Longrightarrow> extends P h (emit c h1)"
  by (auto simp: extends_def emit_def)

lemma extends_snoc: "extends P h h1 \<Longrightarrow> P c \<Longrightarrow> extends P h (h1 @ [(c, r)])"
  by (auto simp: extends_def)

lemma extends_append: "list_all P (calls es) \<Longrightarrow> extends P h (h @ es)"
  by (auto simp: extends_def)

lemma extends_emits: "extends P h h1 \<Longrightarrow> list_all P cs \<Longrightarrow> extends P h (emits cs h1)"
  by (auto simp: extends_def emits_def calls_def comp_def)

lemmas extends_intros = extends_refl extends_emit extends_snoc extends_emits

end
