(* ===== verification/Ioctl_Commands.thy ===== *)
theory Ioctl_Commands
  imports Prelude
begin

unbundle bit_operations_syntax

text \<open>
  The interface shared by driver and user programs (src/HOST/include/ioctl_commands.h): its
  structs with their images as 64-bit words (little endian, natural alignment), and the ioctl
  command numbers. The codecs are proved to be round trips.
\<close>

section \<open>Structs\<close>

definition KERNEL_PAGE_SIZE :: u64 where
  "KERNEL_PAGE_SIZE = 4096"

definition MAX_PAGES :: int where
  "MAX_PAGES = 1024"

record reg32 =
  r_data :: u32
  r_bar :: u32
  r_offset :: u64

record dma_transfer =
  dt_data :: u64
  dt_length :: u64

record dma_buffer =
  db_is_hp :: u8
  db_data :: u64
  db_length :: u64
  db_hp_size :: u64
  db_n_hp :: u32

record dma_descriptor_sw =
  dd_address :: u64
  dd_buffer_size :: u64
  dd_length :: u64
  dd_enable :: "1 word"
  dd_u1 :: "1 word"
  dd_is_c2s_op :: "1 word"
  dd_is_s2c_op :: "1 word"
  dd_address_mode :: "2 word"
  dd_u0 :: "58 word"
  dd_number_of_tlps :: u64
  dd_latency :: u64
  dd_address_offset :: u64
  dd_address_inc :: u64
  dd_time_at_req :: u64
  dd_time_at_comp :: u64
  dd_bytes_at_req :: u64
  dd_bytes_at_comp :: u64
  dd_index :: u64

section \<open>Struct images\<close>

definition reg32_words :: "reg32 \<Rightarrow> u64 list" where
  "reg32_words r = [fld 0 (r_data r) OR fld 32 (r_bar r), r_offset r]"

definition words_reg32 :: "u64 list \<Rightarrow> reg32" where
  "words_reg32 ws = \<lparr>r_data = get_fld 0 (ws ! 0), r_bar = get_fld 32 (ws ! 0), r_offset = ws ! 1\<rparr>"

text \<open>The bytes between \<open>is_hp\<close> and \<open>data\<close>, and after \<open>n_hp\<close>, are padding: whatever they hold
  (\<open>pad0\<close>, \<open>pad1\<close>), the fields decode the same.\<close>

definition dma_buffer_words :: "56 word \<Rightarrow> u32 \<Rightarrow> dma_buffer \<Rightarrow> u64 list" where
  "dma_buffer_words pad0 pad1 b =
     [fld 0 (db_is_hp b) OR fld 8 pad0, db_data b, db_length b, db_hp_size b,
      fld 0 (db_n_hp b) OR fld 32 pad1]"

definition words_dma_buffer :: "u64 list \<Rightarrow> dma_buffer" where
  "words_dma_buffer ws =
     \<lparr>db_is_hp = get_fld 0 (ws ! 0), db_data = ws ! 1, db_length = ws ! 2, db_hp_size = ws ! 3,
      db_n_hp = get_fld 0 (ws ! 4)\<rparr>"

definition dd_flags_word :: "dma_descriptor_sw \<Rightarrow> u64" where
  "dd_flags_word d =
     fld 0 (dd_enable d) OR fld 1 (dd_u1 d) OR fld 2 (dd_is_c2s_op d) OR fld 3 (dd_is_s2c_op d)
     OR fld 4 (dd_address_mode d) OR fld 6 (dd_u0 d)"

definition dma_descriptor_sw_words :: "dma_descriptor_sw \<Rightarrow> u64 list" where
  "dma_descriptor_sw_words d =
     [dd_address d, dd_buffer_size d, dd_length d, dd_flags_word d, dd_number_of_tlps d,
      dd_latency d, dd_address_offset d, dd_address_inc d, dd_time_at_req d, dd_time_at_comp d,
      dd_bytes_at_req d, dd_bytes_at_comp d, dd_index d]"

definition words_dma_descriptor_sw :: "u64 list \<Rightarrow> dma_descriptor_sw" where
  "words_dma_descriptor_sw ws =
     \<lparr>dd_address = ws ! 0, dd_buffer_size = ws ! 1, dd_length = ws ! 2,
      dd_enable = get_fld 0 (ws ! 3), dd_u1 = get_fld 1 (ws ! 3),
      dd_is_c2s_op = get_fld 2 (ws ! 3), dd_is_s2c_op = get_fld 3 (ws ! 3),
      dd_address_mode = get_fld 4 (ws ! 3), dd_u0 = get_fld 6 (ws ! 3),
      dd_number_of_tlps = ws ! 4, dd_latency = ws ! 5, dd_address_offset = ws ! 6,
      dd_address_inc = ws ! 7, dd_time_at_req = ws ! 8, dd_time_at_comp = ws ! 9,
      dd_bytes_at_req = ws ! 10, dd_bytes_at_comp = ws ! 11, dd_index = ws ! 12\<rparr>"

section \<open>Command numbers\<close>

text \<open>The command encoding of \<^verbatim>\<open>linux/ioctl.h\<close>: direction in bits 30..31, argument size in
  bits 16..29, magic in bits 8..15, number in bits 0..7.\<close>

definition IOC :: "u32 \<Rightarrow> u32 \<Rightarrow> u32 \<Rightarrow> u32 \<Rightarrow> u32" where
  "IOC dir ty nr sz = push_bit 30 dir OR push_bit 8 ty OR nr OR push_bit 16 sz"

definition IOC_TYPE :: "u32 \<Rightarrow> u32" where
  "IOC_TYPE cmd = drop_bit 8 cmd AND 255"

definition IOC_NR :: "u32 \<Rightarrow> u32" where
  "IOC_NR cmd = cmd AND 255"

definition IOC_SIZE :: "u32 \<Rightarrow> u32" where
  "IOC_SIZE cmd = drop_bit 16 cmd AND 16383"

definition IOCTL_MAGIC_NUMBER :: u32 where
  "IOCTL_MAGIC_NUMBER = 57"  \<comment> \<open>the character 9\<close>

definition IOC_MAXNR :: u32 where
  "IOC_MAXNR = 7"

definition NFPIOC_WRITE_32 :: u32 where
  "NFPIOC_WRITE_32 = IOC 2 IOCTL_MAGIC_NUMBER 1 16"

definition NFPIOC_READ_32 :: u32 where
  "NFPIOC_READ_32 = IOC 3 IOCTL_MAGIC_NUMBER 2 16"

definition NFPIOC_WRITE_DMA_DESCRIPTOR :: u32 where
  "NFPIOC_WRITE_DMA_DESCRIPTOR = IOC 2 IOCTL_MAGIC_NUMBER 3 104"

definition NFPIOC_READ_DMA_DESCRIPTOR :: u32 where
  "NFPIOC_READ_DMA_DESCRIPTOR = IOC 3 IOCTL_MAGIC_NUMBER 4 104"

text \<open>The argument type named for this command is \<open>struct dma_transfer\<close> (16 bytes).\<close>

definition NFPIOC_REGISTER_BUFFER :: u32 where
  "NFPIOC_REGISTER_BUFFER = IOC 2 IOCTL_MAGIC_NUMBER 5 16"

definition NFPIOC_UNREGISTER_BUFFER :: u32 where
  "NFPIOC_UNREGISTER_BUFFER = IOC 0 IOCTL_MAGIC_NUMBER 6 0"

definition NFPIOC_WINDOW_SIZE :: u32 where
  "NFPIOC_WINDOW_SIZE = IOC 2 IOCTL_MAGIC_NUMBER 7 8"

definition nfp_commands :: "u32 list" where
  "nfp_commands = [NFPIOC_WRITE_32, NFPIOC_READ_32, NFPIOC_WRITE_DMA_DESCRIPTOR,
     NFPIOC_READ_DMA_DESCRIPTOR, NFPIOC_REGISTER_BUFFER, NFPIOC_UNREGISTER_BUFFER,
     NFPIOC_WINDOW_SIZE]"

lemma ioctl_values [layout_simps]:
  "NFPIOC_WRITE_32 = 0x80103901" "NFPIOC_READ_32 = 0xC0103902"
  "NFPIOC_WRITE_DMA_DESCRIPTOR = 0x80683903" "NFPIOC_READ_DMA_DESCRIPTOR = 0xC0683904"
  "NFPIOC_REGISTER_BUFFER = 0x80103905" "NFPIOC_UNREGISTER_BUFFER = 0x3906"
  "NFPIOC_WINDOW_SIZE = 0x80083907"
  by (simp_all add: NFPIOC_WRITE_32_def NFPIOC_READ_32_def NFPIOC_WRITE_DMA_DESCRIPTOR_def
      NFPIOC_READ_DMA_DESCRIPTOR_def NFPIOC_REGISTER_BUFFER_def NFPIOC_UNREGISTER_BUFFER_def
      NFPIOC_WINDOW_SIZE_def IOC_def IOCTL_MAGIC_NUMBER_def)

section \<open>Round trips\<close>

lemma reg32_fields:
  "get_fld 0 (fld 0 (d :: u32) OR fld 32 (b :: u32)) = d"
  "get_fld 32 (fld 0 (d :: u32) OR fld 32 (b :: u32)) = b"
  by (rule bit_word_eqI; auto simp: bitfield_simps bit_simps dest: bit_imp_le_length)+

lemma dma_buffer_fields:
  "get_fld 0 (fld 0 (a :: u8) OR fld 8 (p :: 56 word)) = a"
  by (rule bit_word_eqI; auto simp: bitfield_simps bit_simps dest: bit_imp_le_length)+

lemma dd_flags_fields:
  "get_fld 0 (dd_flags_word d) = dd_enable d"
  "get_fld 1 (dd_flags_word d) = dd_u1 d"
  "get_fld 2 (dd_flags_word d) = dd_is_c2s_op d"
  "get_fld 3 (dd_flags_word d) = dd_is_s2c_op d"
  "get_fld 4 (dd_flags_word d) = dd_address_mode d"
  "get_fld 6 (dd_flags_word d) = dd_u0 d"
  by (rule bit_word_eqI;
      auto simp: dd_flags_word_def bitfield_simps bit_simps dest: bit_imp_le_length)+

interpretation reg32_codec: codec reg32_words words_reg32 2
  by unfold_locales (simp_all add: reg32_words_def words_reg32_def reg32_fields)

interpretation dma_buffer_codec: codec "dma_buffer_words pad0 pad1" words_dma_buffer 5 for pad0 pad1
  by unfold_locales
    (simp_all add: dma_buffer_words_def words_dma_buffer_def dma_buffer_fields reg32_fields)

interpretation dd_codec: codec dma_descriptor_sw_words words_dma_descriptor_sw 13
  by unfold_locales
    (simp_all add: dma_descriptor_sw_words_def words_dma_descriptor_sw_def
      dd_flags_fields [unfolded One_nat_def])



text \<open>
  The size encoded in the number of the buffer registration command is that of
  \<open>struct dma_transfer\<close> (16 bytes), not that of the \<open>struct dma_buffer\<close> (40 bytes) which the
  driver copies for it and the middleware passes.
\<close>

theorem register_buffer_size_mismatch:
  "unat (IOC_SIZE NFPIOC_REGISTER_BUFFER) = 16 \<and>
   8 * length (dma_buffer_words pad0 pad1 b) = 40"
  by (simp add: layout_simps IOC_SIZE_def dma_buffer_words_def)

end
