(* ===== verification/Nfp_Types.thy ===== *)
theory Nfp_Types
  imports Kernel Ioctl_Commands
begin

unbundle bit_operations_syntax

text \<open>
  The driver's data (src/HOST/driver/nfp_types.h): the packed register block of the DMA core with
  the offsets the compiler computes for its members, and the records of the card.
\<close>

section \<open>Packed register layout\<close>

text \<open>A packed struct is the list of its members with their sizes in bytes; consecutive bit
  fields that share a storage unit are one member.\<close>

type_synonym layout = "(string \<times> nat) list"

fun offsetof :: "layout \<Rightarrow> string \<Rightarrow> nat option" where
  "offsetof [] f = None"
| "offsetof ((g, n) # fs) f = (if f = g then Some 0 else map_option ((+) n) (offsetof fs f))"

definition sizeof :: "layout \<Rightarrow> nat" where
  "sizeof fs = sum_list (map snd fs)"

definition MAX_NUM_DMA_ENGINES :: nat where
  "MAX_NUM_DMA_ENGINES = 2"

definition MAX_NUM_DMA_DESCRIPTORS :: nat where
  "MAX_NUM_DMA_DESCRIPTORS = 1024"

definition OFFSET_BETWEEN_ENGINES :: nat where
  "OFFSET_BETWEEN_ENGINES = 0x4000"

definition DMA_OFFSET :: nat where
  "DMA_OFFSET = 0x200"

definition dma_descriptor_layout :: layout where
  "dma_descriptor_layout =
     [(''address'', 8), (''size'', 8), (''generate_irq'', 8), (''latency'', 8),
      (''time_at_req'', 8), (''time_at_comp'', 8), (''bytes_at_req'', 8), (''bytes_at_comp'', 8)]"

definition dma_engine_layout :: layout where
  "dma_engine_layout =
     [(''control'', 8), (''complete_until_descriptor'', 2), (''u1'', 2), (''u2'', 4),
      (''total_time'', 8), (''total_bytes'', 8), (''host_buffer_size'', 8),
      (''address_offset'', 8), (''address_inc'', 8), (''number_of_tlps'', 8),
      (''dma_descriptor'', MAX_NUM_DMA_DESCRIPTORS * sizeof dma_descriptor_layout),
      (''u4'', (OFFSET_BETWEEN_ENGINES - 4
                - MAX_NUM_DMA_DESCRIPTORS * sizeof dma_descriptor_layout div 8) * 8)]"

definition dma_common_block_layout :: layout where
  "dma_common_block_layout = [(''flags'', 8)]"

definition dma_core_layout :: layout where
  "dma_core_layout =
     [(''dma_engine'', MAX_NUM_DMA_ENGINES * sizeof dma_engine_layout),
      (''dma_common_block'', sizeof dma_common_block_layout)]"

text \<open>The address of a member of \<open>dma->dma_engine[i]\<close>, and of a member of its \<open>j\<close>-th
  descriptor; \<open>dma\<close> is the address of the register block.\<close>

definition engine_reg :: "u64 \<Rightarrow> nat \<Rightarrow> string \<Rightarrow> u64" where
  "engine_reg dma i f =
     dma + of_nat (i * sizeof dma_engine_layout + the (offsetof dma_engine_layout f))"

definition descriptor_reg :: "u64 \<Rightarrow> nat \<Rightarrow> nat \<Rightarrow> string \<Rightarrow> u64" where
  "descriptor_reg dma i j f =
     engine_reg dma i ''dma_descriptor''
     + of_nat (j * sizeof dma_descriptor_layout + the (offsetof dma_descriptor_layout f))"

lemma sizeof_dma_descriptor [layout_simps]: "sizeof dma_descriptor_layout = 64"
  by (simp add: sizeof_def dma_descriptor_layout_def)

lemma sizeof_dma_engine [layout_simps]: "sizeof dma_engine_layout = 8 * 0x4004"
  unfolding dma_engine_layout_def sizeof_dma_descriptor
  by (simp add: sizeof_def MAX_NUM_DMA_DESCRIPTORS_def OFFSET_BETWEEN_ENGINES_def)

lemma engine_offsets [layout_simps]:
  "offsetof dma_engine_layout ''control'' = Some 0"
  "offsetof dma_engine_layout ''complete_until_descriptor'' = Some 8"
  "offsetof dma_engine_layout ''total_time'' = Some 16"
  "offsetof dma_engine_layout ''total_bytes'' = Some 24"
  "offsetof dma_engine_layout ''host_buffer_size'' = Some 32"
  "offsetof dma_engine_layout ''address_offset'' = Some 40"
  "offsetof dma_engine_layout ''address_inc'' = Some 48"
  "offsetof dma_engine_layout ''number_of_tlps'' = Some 56"
  "offsetof dma_engine_layout ''dma_descriptor'' = Some 64"
  by (simp_all add: dma_engine_layout_def)

lemma descriptor_offsets [layout_simps]:
  "offsetof dma_descriptor_layout ''address'' = Some 0"
  "offsetof dma_descriptor_layout ''size'' = Some 8"
  "offsetof dma_descriptor_layout ''latency'' = Some 24"
  "offsetof dma_descriptor_layout ''time_at_req'' = Some 32"
  "offsetof dma_descriptor_layout ''time_at_comp'' = Some 40"
  "offsetof dma_descriptor_layout ''bytes_at_req'' = Some 48"
  "offsetof dma_descriptor_layout ''bytes_at_comp'' = Some 56"
  by (simp_all add: dma_descriptor_layout_def)

lemma engine0_regs:
  "engine_reg dma 0 ''control'' = dma"
  "engine_reg dma 0 ''complete_until_descriptor'' = dma + 8"
  "engine_reg dma 0 ''total_bytes'' = dma + 24"
  "engine_reg dma 0 ''host_buffer_size'' = dma + 32"
  "engine_reg dma 0 ''address_offset'' = dma + 40"
  "engine_reg dma 0 ''address_inc'' = dma + 48"
  "engine_reg dma 0 ''number_of_tlps'' = dma + 56"
  by (simp_all add: engine_reg_def layout_simps)

lemma descriptor0_regs:
  "descriptor_reg dma 0 j ''address'' = dma + of_nat (64 + 64 * j)"
  "descriptor_reg dma 0 j ''size'' = dma + of_nat (72 + 64 * j)"
  "descriptor_reg dma 0 j ''latency'' = dma + of_nat (88 + 64 * j)"
  "descriptor_reg dma 0 j ''time_at_req'' = dma + of_nat (96 + 64 * j)"
  "descriptor_reg dma 0 j ''time_at_comp'' = dma + of_nat (104 + 64 * j)"
  "descriptor_reg dma 0 j ''bytes_at_req'' = dma + of_nat (112 + 64 * j)"
  "descriptor_reg dma 0 j ''bytes_at_comp'' = dma + of_nat (120 + 64 * j)"
  by (simp_all add: descriptor_reg_def engine_reg_def layout_simps algebra_simps)

section \<open>The card\<close>

record mem =
  m_virtual :: u64
  m_length :: u64
  m_page_size :: u64
  m_npages :: u64
  m_page_address :: "nat \<Rightarrow> u64" \<comment> \<open>16 entries\<close>

definition PAGE_ADDRESS_SLOTS :: nat where
  "PAGE_ADDRESS_SLOTS = 16"

text \<open>The member \<open>data\<close> of \<open>mmap_info\<close> is never used. Of the card, \<open>pdev\<close>, \<open>cdev\<close> and \<open>sem_op\<close> are
  kernel objects that the code hands to kernel services only; their state is in the history of
  calls (\<open>CdevAdd\<close>, \<open>DownInterruptible\<close> and so on).\<close>

record mmap_info =
  mi_last :: int
  mi_first :: int
  mi_active :: int
  mi_dma_handle :: u64
  mi_page_list :: u64

record nfp_card =
  c_bar0 :: u64
  c_bar1 :: u64
  c_bar2 :: u64
  c_dev :: u64
  c_dev_class :: u64
  c_dma :: u64
  c_buffer :: mem
  c_mmap_info :: mmap_info

text \<open>\<open>memset (card, 0, sizeof (struct nfp_card))\<close>.\<close>

definition zero_card :: nfp_card where
  "zero_card = \<lparr>c_bar0 = 0, c_bar1 = 0, c_bar2 = 0, c_dev = 0, c_dev_class = 0, c_dma = 0,
     c_buffer = \<lparr>m_virtual = 0, m_length = 0, m_page_size = 0, m_npages = 0,
       m_page_address = (\<lambda>_. 0)\<rparr>,
     c_mmap_info = \<lparr>mi_last = 0, mi_first = 0, mi_active = 0, mi_dma_handle = 0,
       mi_page_list = 0\<rparr>\<rparr>"

section \<open>Properties\<close>

text \<open>
  Within an engine, every register the driver uses lies at the 64-bit word the layout
  comment and the hardware give it: the eight configuration words come first, descriptor \<open>j\<close>
  follows at word \<open>8 + 8 * j\<close>, and distinct descriptors never share a register.
\<close>

theorem descriptor_regs_disjoint:
  assumes "i < 1024" and "j < 1024" and "i \<noteq> j"
    and "offsetof dma_descriptor_layout f = Some a" and "offsetof dma_descriptor_layout g = Some b"
  shows "descriptor_reg dma 0 i f \<noteq> descriptor_reg dma 0 j g"
proof
  assume eq: "descriptor_reg dma 0 i f = descriptor_reg dma 0 j g"
  have ab: "a < 64" "b < 64"
    using assms(4,5) by (auto simp: dma_descriptor_layout_def split: if_splits)
  have "(of_nat (i * 64 + a) :: u64) = of_nat (j * 64 + b)"
    using eq assms(4,5) by (simp add: descriptor_reg_def layout_simps)
  moreover have "i * 64 + a < 2 ^ 64" "j * 64 + b < 2 ^ 64"
    using assms(1,2) ab by auto
  ultimately have "i * 64 + a = j * 64 + b"
    by (rule u64_of_nat_inj)
  then show False
    using ab assms(3) by (cases i j rule: linorder_cases) linarith+
qed

theorem descriptor_regs_disjoint_witness:
  "descriptor_reg 0x1000 0 3 ''latency'' \<noteq> descriptor_reg 0x1000 0 4 ''address''"
  by (rule descriptor_regs_disjoint [of 3 4 _ 24 _ 0]) (simp_all add: layout_simps)

text \<open>
  The padding member \<open>u4\<close> does not bring an engine to the documented distance: an engine
  occupies 0x4004 words, so \<open>dma_engine[1]\<close> and the common block are placed 4 and 8 words after the
  positions (\<open>DMA_OFFSET + i * OFFSET_BETWEEN_ENGINES\<close>) the header documents. Engine 0, the only
  one the driver uses, is where the header says.
\<close>

theorem engine_stride_mismatch:
  "sizeof dma_engine_layout = 8 * (OFFSET_BETWEEN_ENGINES + 4) \<and>
   engine_reg dma 0 ''control'' = dma \<and>
   engine_reg dma 1 ''control'' = dma + of_nat (8 * OFFSET_BETWEEN_ENGINES) + 32 \<and>
   offsetof dma_core_layout ''dma_common_block''
     = Some (8 * (MAX_NUM_DMA_ENGINES * OFFSET_BETWEEN_ENGINES) + 64)"
  by (simp add: layout_simps OFFSET_BETWEEN_ENGINES_def engine_reg_def dma_core_layout_def
      MAX_NUM_DMA_ENGINES_def)

end
