(* ===== verification/Reg.thy ===== *)
theory Reg
  imports Nfp_Types
begin

text \<open>
  Single register access (src/HOST/driver/reg.c): the BAR is chosen by number, a BAR that does not
  exist or is not mapped is not accessed, and otherwise one 32-bit access is made at the offset
  the user gave.
\<close>

text \<open>The \<open>switch\<close> both functions share: \<open>None\<close> is its default branch, which returns at
  once.\<close>

definition select_bar :: "u32 \<Rightarrow> nfp_card \<Rightarrow> u64 option" where
  "select_bar n cd =
     (if n = 0 then Some (c_bar0 cd)
      else if n = 1 then Some (c_bar1 cd)
      else if n = 2 then Some (c_bar2 cd)
      else None)"

definition WriteReg32 :: "reg32 \<Rightarrow> nfp_card \<Rightarrow> khist \<Rightarrow> khist" where
  "WriteReg32 r cd h =
     (case select_bar (r_bar r) cd of
        None \<Rightarrow> h
      | Some bar \<Rightarrow>
          if bar = 0 then emit (Printk ''Trying to access to an incorrect BAR'') h
          else emit (IoWrite32 (bar + r_offset r) (r_data r)) h)"

definition ReadReg32 :: "kenv \<Rightarrow> reg32 \<Rightarrow> nfp_card \<Rightarrow> khist \<Rightarrow> reg32 \<times> khist" where
  "ReadReg32 E r cd h =
     (case select_bar (r_bar r) cd of
        None \<Rightarrow> (r, h)
      | Some bar \<Rightarrow>
          if bar = 0 then (r, emit (Printk ''Trying to access to an incorrect BAR'') h)
          else let (v, h) = kdo E (IoRead32 (bar + r_offset r)) h
               in (r\<lparr>r_data := ucast v\<rparr>, h))"

text \<open>Device accesses in a history.\<close>

fun is_bar_access :: "kcall \<Rightarrow> bool" where
  "is_bar_access (IoWrite32 a v) = True"
| "is_bar_access (IoRead32 a) = True"
| "is_bar_access _ = False"

text \<open>The mapped BARs of a card, by number.\<close>

definition bar_base :: "nfp_card \<Rightarrow> u32 \<Rightarrow> u64" where
  "bar_base cd n = (if unat n < 3 then [c_bar0 cd, c_bar1 cd, c_bar2 cd] ! unat n else 0)"

lemma select_bar_base:
  "select_bar n cd = (if unat n < 3 then Some (bar_base cd n) else None)"
proof (cases "unat n < 3")
  case True
  then have "unat n = 0 \<or> unat n = 1 \<or> unat n = 2" by linarith
  then have "n = 0 \<or> n = 1 \<or> n = 2"
    by (simp add: word_unat_eq_iff)
  then show ?thesis
    by (auto simp: select_bar_def bar_base_def)
next
  case False
  then have "n \<noteq> 0 \<and> n \<noteq> 1 \<and> n \<noteq> 2" by auto
  with False show ?thesis
    by (simp add: select_bar_def)
qed

text \<open>
  A register access touches the device exactly when the BAR number is 0, 1 or 2 and that BAR
  is mapped: it then makes one 32-bit access at the BAR's base plus the (unchecked) 64-bit
  offset, carrying the data on a write and delivering the low 32 bits of the answer on a read.
  In every other case no device access is made and the data of the request is unchanged; bar and
  offset are never changed.
\<close>

theorem reg_access:
  "let b = bar_base cd (r_bar r); a = b + r_offset r; (r', h') = ReadReg32 E r cd h
   in filter is_bar_access (calls (WriteReg32 r cd h))
        = filter is_bar_access (calls h) @ (if b = 0 then [] else [IoWrite32 a (r_data r)]) \<and>
      filter is_bar_access (calls h')
        = filter is_bar_access (calls h) @ (if b = 0 then [] else [IoRead32 a]) \<and>
      r_data r' = (if b = 0 then r_data r else ucast (kret E h (IoRead32 a))) \<and>
      r_bar r' = r_bar r \<and> r_offset r' = r_offset r"
  by (auto simp: Let_def WriteReg32_def ReadReg32_def select_bar_base kcall_defs bar_base_def)

end
