(* ===== verification/Nfp_Dma.thy ===== *)
theory Nfp_Dma
  imports Nfp_Types "HOL-Library.Multiset"
begin

unbundle bit_operations_syntax

text \<open>
  Descriptor logic of the driver (src/HOST/driver/nfpdma.c): the file's global variables, the
  window size register, the write of a descriptor (mapping, register programming, start, polling
  with a timeout, release of the mappings) and the read of its status. The polling loop is a
  partial function: \<open>None\<close> is a loop that never ends; \<open>Inl\<close> is undefined behaviour of the C code.
\<close>

section \<open>State and operations\<close>

record dma_glob =
  g_s :: u64
  g_e :: u64
  g_llength :: u64
  g_ldescriptor :: u32
  g_phy_addr :: "nat \<Rightarrow> u64"
  g_phy_size :: "nat \<Rightarrow> u64"
  g_phy_addr_valid :: "nat \<Rightarrow> u8"

definition init_dma_glob :: dma_glob where
  "init_dma_glob = \<lparr>g_s = 0, g_e = 0, g_llength = 0, g_ldescriptor = 0, g_phy_addr = (\<lambda>_. 0),
     g_phy_size = (\<lambda>_. 0), g_phy_addr_valid = (\<lambda>_. 0)\<rparr>"

definition getToD :: "kenv \<Rightarrow> khist \<Rightarrow> u64 \<times> khist" where
  "getToD E h = kdo E KtimeGetUs h"

definition dma_set_window_size :: "u64 \<Rightarrow> nfp_card \<Rightarrow> khist \<Rightarrow> khist" where
  "dma_set_window_size ws cd h = emit (MemcpyToIo (engine_reg (c_dma cd) 0 ''total_bytes'') 8 ws) h"

text \<open>The direction and address mode bits of the control register.\<close>

definition control_word :: "dma_descriptor_sw \<Rightarrow> u32" where
  "control_word dd =
     push_bit 2 (ucast (dd_is_c2s_op dd))
     + (if dd_is_s2c_op dd \<noteq> 0 then push_bit 3 1 else 0)
     + push_bit 4 (ucast (dd_address_mode dd))"

text \<open>Everything \<open>writeDMADescriptor\<close> does up to the test of \<open>enable\<close>, for an index inside the
  arrays.\<close>

definition setup_descriptor ::
  "kenv \<Rightarrow> dma_descriptor_sw \<Rightarrow> nfp_card \<Rightarrow> dma_glob \<Rightarrow> khist \<Rightarrow> dma_glob \<times> khist" where
  "setup_descriptor E dd cd g h =
     (let dma = c_dma cd;
          i = unat (dd_index dd);
          (pa, h) = kdo E (PciMapSingle (dd_address dd) (dd_buffer_size dd)) h;
          g = g\<lparr>g_phy_addr := (g_phy_addr g)(i := pa)\<rparr>;
          h = emit (MemcpyToIo (engine_reg dma 0 ''host_buffer_size'') 8 (dd_buffer_size dd)) h;
          h = emit (MemcpyToIo (engine_reg dma 0 ''number_of_tlps'') 8 (dd_number_of_tlps dd)) h;
          h = emit (MemcpyToIo (engine_reg dma 0 ''address_offset'') 8 (dd_address_offset dd)) h;
          h = emit (MemcpyToIo (engine_reg dma 0 ''address_inc'') 8 (dd_address_inc dd)) h;
          h = emit (MemcpyToIo (descriptor_reg dma 0 i ''address'') 8 (g_phy_addr g i)) h;
          h = emit (MemcpyToIo (descriptor_reg dma 0 i ''size'') 8 (dd_length dd)) h;
          g = g\<lparr>g_phy_addr_valid := (g_phy_addr_valid g)(i := 1)\<rparr>;
          g = g\<lparr>g_phy_size := (g_phy_size g)(i := dd_buffer_size dd)\<rparr>;
          h = emit (MemcpyToIo (engine_reg dma 0 ''control'') 4 (ucast (control_word dd))) h;
          g = g\<lparr>g_ldescriptor := g_ldescriptor g mod 1024\<rparr>;
          h = emit (Store16 (engine_reg dma 0 ''complete_until_descriptor'')
                      (ucast (g_ldescriptor g))) h;
          g = g\<lparr>g_ldescriptor := (g_ldescriptor g + 1) mod 1024\<rparr>
      in (g, h))"

definition POLL_TIMEOUT :: u64 where
  "POLL_TIMEOUT = 10000000"

text \<open>The \<open>do ... while\<close> loop: each iteration reads the clock into \<open>e\<close> and then the enable bit;
  it leaves when the engine has cleared the bit or the time is over. The result is the last clock
  value.\<close>

partial_function (option) poll_engine ::
  "kenv \<Rightarrow> u64 \<Rightarrow> u64 \<Rightarrow> khist \<Rightarrow> (u64 \<times> khist) option" where
  "poll_engine E dma s h =
     (let (e, h) = getToD E h;
          (c, h) = kdo E (Load8 (engine_reg dma 0 ''control'')) h
      in if \<not> bit c 0 \<or> POLL_TIMEOUT < e - s then Some (e, h) else poll_engine E dma s h)"

text \<open>The loop that releases every recorded mapping and clears its flag.\<close>

function unmap_loop :: "nat \<Rightarrow> dma_glob \<Rightarrow> khist \<Rightarrow> dma_glob \<times> khist" where
  "unmap_loop i g h =
     (if i < MAX_NUM_DMA_DESCRIPTORS then
        let h = (if g_phy_addr_valid g i \<noteq> 0
                 then emit (PciUnmapSingle (g_phy_addr g i) (g_phy_size g i)) h else h)
        in unmap_loop (i + 1) (g\<lparr>g_phy_addr_valid := (g_phy_addr_valid g)(i := 0)\<rparr>) h
      else (g, h))"
  by pat_completeness auto
termination
  by (relation "measure (\<lambda>(i, g, h). MAX_NUM_DMA_DESCRIPTORS - i)") auto

declare unmap_loop.simps [simp del]

definition writeDMADescriptor ::
  "kenv \<Rightarrow> dma_descriptor_sw \<Rightarrow> nfp_card \<Rightarrow> dma_glob \<Rightarrow> khist
   \<Rightarrow> (fault + u64 \<times> dma_glob \<times> khist) option" where
  "writeDMADescriptor E dd cd g h =
     (if MAX_NUM_DMA_DESCRIPTORS \<le> unat (dd_index dd) then Some (Inl OutOfBounds)
      else
        let (g, h) = setup_descriptor E dd cd g h
        in if dd_enable dd = 0 then Some (Inr (0, g, h))
           else
             let (s, h) = getToD E h;
                 g = g\<lparr>g_s := s\<rparr>;
                 h = emit (MemcpyToIo (engine_reg (c_dma cd) 0 ''control'') 4
                             (ucast (control_word dd OR 1))) h
             in case poll_engine E (c_dma cd) (g_s g) h of
                  None \<Rightarrow> None
                | Some (e, h) \<Rightarrow>
                    let g = g\<lparr>g_e := e\<rparr>;
                        h = (if POLL_TIMEOUT < g_e g - g_s g
                             then emit (Printk ''Exit by timeout'') h else h);
                        (g, h) = unmap_loop 0 g h
                    in Some (Inr (0, g, h)))"

definition readDMADescriptor ::
  "kenv \<Rightarrow> dma_descriptor_sw \<Rightarrow> nfp_card \<Rightarrow> khist \<Rightarrow> u64 \<times> dma_descriptor_sw \<times> khist" where
  "readDMADescriptor E dd cd h =
     (let dma = c_dma cd;
          i = unat (dd_index dd);
          (v, h) = kdo E (MemcpyFromIo (descriptor_reg dma 0 i ''latency'') 8) h;
          dd = dd\<lparr>dd_latency := v\<rparr>;
          (v, h) = kdo E (MemcpyFromIo (descriptor_reg dma 0 i ''time_at_req'') 8) h;
          dd = dd\<lparr>dd_time_at_req := v\<rparr>;
          (v, h) = kdo E (MemcpyFromIo (descriptor_reg dma 0 i ''time_at_comp'') 8) h;
          dd = dd\<lparr>dd_time_at_comp := v\<rparr>;
          (v, h) = kdo E (MemcpyFromIo (descriptor_reg dma 0 i ''bytes_at_req'') 8) h;
          dd = dd\<lparr>dd_bytes_at_req := v\<rparr>;
          (v, h) = kdo E (MemcpyFromIo (descriptor_reg dma 0 i ''bytes_at_comp'') 8) h;
          dd = dd\<lparr>dd_bytes_at_comp := v\<rparr>
      in (dd_latency dd, dd, h))"

section \<open>The steps of a descriptor write\<close>

text \<open>The register writes that program a descriptor, in order.\<close>

definition setup_writes :: "u64 \<Rightarrow> dma_descriptor_sw \<Rightarrow> u64 \<Rightarrow> u32 \<Rightarrow> kcall list" where
  "setup_writes dma dd pa ld =
     [MemcpyToIo (dma + 32) 8 (dd_buffer_size dd),
      MemcpyToIo (dma + 56) 8 (dd_number_of_tlps dd),
      MemcpyToIo (dma + 40) 8 (dd_address_offset dd),
      MemcpyToIo (dma + 48) 8 (dd_address_inc dd),
      MemcpyToIo (dma + of_nat (64 + 64 * unat (dd_index dd))) 8 pa,
      MemcpyToIo (dma + of_nat (72 + 64 * unat (dd_index dd))) 8 (dd_length dd),
      MemcpyToIo dma 4 (ucast (control_word dd)),
      Store16 (dma + 8) (ucast (ld mod 1024))]"

definition mapped_glob :: "dma_descriptor_sw \<Rightarrow> u64 \<Rightarrow> dma_glob \<Rightarrow> dma_glob" where
  "mapped_glob dd pa g =
     g\<lparr>g_phy_addr := (g_phy_addr g)(unat (dd_index dd) := pa),
       g_phy_addr_valid := (g_phy_addr_valid g)(unat (dd_index dd) := 1),
       g_phy_size := (g_phy_size g)(unat (dd_index dd) := dd_buffer_size dd),
       g_ldescriptor := (g_ldescriptor g mod 1024 + 1) mod 1024\<rparr>"

lemma setup_descriptor_eq:
  "setup_descriptor E dd cd g h =
     (let pa = kret E h (PciMapSingle (dd_address dd) (dd_buffer_size dd))
      in (mapped_glob dd pa g,
          emits (setup_writes (c_dma cd) dd pa (g_ldescriptor g))
            (h @ [(PciMapSingle (dd_address dd) (dd_buffer_size dd), pa)])))"
  by (simp add: setup_descriptor_def mapped_glob_def setup_writes_def Let_def kcall_defs
      engine0_regs descriptor0_regs)

text \<open>The flags cleared by the release loop from index \<open>i\<close> on, and the mappings it
  releases.\<close>

definition cleared_from :: "nat \<Rightarrow> dma_glob \<Rightarrow> dma_glob" where
  "cleared_from i g = g\<lparr>g_phy_addr_valid :=
     (\<lambda>j. if i \<le> j \<and> j < MAX_NUM_DMA_DESCRIPTORS then 0 else g_phy_addr_valid g j)\<rparr>"

definition mappings_from :: "nat \<Rightarrow> dma_glob \<Rightarrow> kcall list" where
  "mappings_from i g =
     map (\<lambda>j. PciUnmapSingle (g_phy_addr g j) (g_phy_size g j))
       (filter (\<lambda>j. g_phy_addr_valid g j \<noteq> 0) [i..<MAX_NUM_DMA_DESCRIPTORS])"

lemma cleared_from_step:
  "i < MAX_NUM_DMA_DESCRIPTORS \<Longrightarrow>
   cleared_from (Suc i) (g\<lparr>g_phy_addr_valid := (g_phy_addr_valid g)(i := 0)\<rparr>) = cleared_from i g"
  unfolding cleared_from_def
  by (rule dma_glob.equality) (auto simp: fun_eq_iff)

lemma mappings_from_clear:
  "mappings_from (Suc i) (g\<lparr>g_phy_addr_valid := (g_phy_addr_valid g)(i := 0)\<rparr>)
   = mappings_from (Suc i) g"
  unfolding mappings_from_def by (rule arg_cong2 [of _ _ _ _ map]) (auto intro: filter_cong)

lemma mappings_from_step:
  "i < MAX_NUM_DMA_DESCRIPTORS \<Longrightarrow>
   mappings_from i g =
     (if g_phy_addr_valid g i \<noteq> 0 then [PciUnmapSingle (g_phy_addr g i) (g_phy_size g i)] else [])
     @ mappings_from (Suc i) g"
  by (simp add: mappings_from_def upt_conv_Cons)

lemma cleared_from_end: "\<not> i < MAX_NUM_DMA_DESCRIPTORS \<Longrightarrow> cleared_from i g = g"
  unfolding cleared_from_def by (rule dma_glob.equality) (auto simp: fun_eq_iff)

lemma unmap_loop_eq: "unmap_loop i g h = (cleared_from i g, emits (mappings_from i g) h)"
proof (induction i g h rule: unmap_loop.induct)
  case (1 i g h)
  show ?case
  proof (cases "i < MAX_NUM_DMA_DESCRIPTORS")
    case True
    then show ?thesis
      using 1 by (subst unmap_loop.simps)
        (simp add: cleared_from_step mappings_from_clear mappings_from_step [of i g] Let_def
          emits_def emit_def)
  next
    case False
    then show ?thesis
      by (subst unmap_loop.simps)
        (auto simp: emits_def cleared_from_end mappings_from_def)
  qed
qed

lemma cleared_from_0 [simp]:
  "i < MAX_NUM_DMA_DESCRIPTORS \<Longrightarrow> g_phy_addr_valid (cleared_from 0 g) i = 0"
  by (simp add: cleared_from_def)

section \<open>The polling loop\<close>

text \<open>One iteration, and the history after \<open>k\<close> iterations that did not leave the loop.\<close>

definition poll_once :: "kenv \<Rightarrow> u64 \<Rightarrow> khist \<Rightarrow> u64 \<times> u64 \<times> khist" where
  "poll_once E dma h =
     (let (e, h) = kdo E KtimeGetUs h; (c, h) = kdo E (Load8 dma) h in (e, c, h))"

definition poll_exits :: "kenv \<Rightarrow> u64 \<Rightarrow> u64 \<Rightarrow> khist \<Rightarrow> bool" where
  "poll_exits E dma s h =
     (let (e, c, h') = poll_once E dma h in \<not> bit c 0 \<or> POLL_TIMEOUT < e - s)"

fun poll_hist :: "kenv \<Rightarrow> u64 \<Rightarrow> nat \<Rightarrow> khist \<Rightarrow> khist" where
  "poll_hist E dma 0 h = h"
| "poll_hist E dma (Suc k) h = poll_hist E dma k (snd (snd (poll_once E dma h)))"

lemma poll_engine_unfold:
  "poll_engine E dma s h =
     (let (e, c, h') = poll_once E dma h
      in if poll_exits E dma s h then Some (e, h') else poll_engine E dma s h')"
  by (subst poll_engine.simps)
    (simp add: poll_once_def poll_exits_def getToD_def kdo_def Let_def engine0_regs)

lemma poll_engine_exit:
  "poll_exits E dma s (poll_hist E dma k h) \<Longrightarrow>
   \<exists>j\<le>k. \<exists>e c h'. poll_exits E dma s (poll_hist E dma j h) \<and>
     poll_once E dma (poll_hist E dma j h) = (e, c, h') \<and> poll_engine E dma s h = Some (e, h')"
proof (induction k arbitrary: h)
  case 0
  then show ?case
    by (subst poll_engine_unfold) (auto split: prod.splits)
next
  case (Suc k)
  obtain e c h' where once: "poll_once E dma h = (e, c, h')"
    by (metis prod_cases3)
  show ?case
  proof (cases "poll_exits E dma s h")
    case True
    then show ?thesis
      using once by (intro exI [of _ 0]) (auto simp: poll_engine_unfold [of E dma s h])
  next
    case False
    have step: "poll_engine E dma s h = poll_engine E dma s h'"
      using False once by (subst poll_engine_unfold) simp
    have "poll_exits E dma s (poll_hist E dma k h')"
      using Suc.prems once by simp
    then obtain j e1 c1 h1 where "j \<le> k" "poll_exits E dma s (poll_hist E dma j h')"
      "poll_once E dma (poll_hist E dma j h') = (e1, c1, h1)"
      "poll_engine E dma s h' = Some (e1, h1)"
      using Suc.IH by blast
    then show ?thesis
      using once step by (intro exI [of _ "Suc j"]) auto
  qed
qed

text \<open>What a polling loop that returns has done: clock and control register reads only, the last
  iteration meeting the exit condition.\<close>

definition poll_spec :: "kenv \<Rightarrow> u64 \<Rightarrow> u64 \<Rightarrow> khist \<Rightarrow> u64 \<times> khist \<Rightarrow> bool" where
  "poll_spec E dma s h r \<longleftrightarrow>
     (\<exists>es. snd r = h @ es \<and> set (calls es) \<subseteq> {KtimeGetUs, Load8 dma}) \<and>
     (\<exists>h0 c. poll_exits E dma s h0 \<and> poll_once E dma h0 = (fst r, c, snd r))"

lemma poll_once_hist:
  "poll_once E dma h = (e, c, h') \<Longrightarrow> h' = h @ [(KtimeGetUs, e), (Load8 dma, c)]"
  by (auto simp: poll_once_def kdo_def)

lemma poll_spec_exit:
  "poll_exits E dma s h \<Longrightarrow> poll_once E dma h = (e, c, h') \<Longrightarrow> poll_spec E dma s h (e, h')"
  using poll_once_hist [of E dma h e c h'] by (auto simp: poll_spec_def)

lemma poll_spec_step:
  "poll_once E dma h = (e, c, h') \<Longrightarrow> poll_spec E dma s h' r \<Longrightarrow> poll_spec E dma s h r"
  using poll_once_hist [of E dma h e c h'] by (auto simp: poll_spec_def)

lemma poll_engine_spec:
  assumes ret: "poll_engine E dma s h = Some r"
  shows "poll_spec E dma s h r"
proof (rule poll_engine.raw_induct [where P = poll_spec, OF _ ret])
  fix f E dma s h r
  assume IH: "\<And>E dma s h r. f E dma s h = Some r \<Longrightarrow> poll_spec E dma s h r"
    and eq: "(let (e, h) = getToD E h; (c, h) = kdo E (Load8 (engine_reg dma 0 ''control'')) h
       in if \<not> bit c 0 \<or> POLL_TIMEOUT < e - s then Some (e, h) else f E dma s h) = Some r"
  obtain e c h' where once: "poll_once E dma h = (e, c, h')"
    by (metis prod_cases3)
  have "if poll_exits E dma s h then r = (e, h') else f E dma s h' = Some r"
    using eq once
    by (auto simp: poll_exits_def poll_once_def getToD_def kdo_def Let_def engine0_regs
        split: if_splits)
  then show "poll_spec E dma s h r"
    using once poll_spec_exit poll_spec_step IH by (metis (full_types))
qed

section \<open>DMA mappings\<close>

text \<open>The mappings made and released in a history, and those the driver's table records.\<close>

fun map_entry :: "kcall \<times> u64 \<Rightarrow> (u64 \<times> u64) list" where
  "map_entry (PciMapSingle a n, pa) = [(pa, n)]"
| "map_entry _ = []"

fun unmap_entry :: "kcall \<times> u64 \<Rightarrow> (u64 \<times> u64) list" where
  "unmap_entry (PciUnmapSingle pa n, _) = [(pa, n)]"
| "unmap_entry _ = []"

definition maps_of :: "khist \<Rightarrow> (u64 \<times> u64) multiset" where
  "maps_of h = mset (concat (map map_entry h))"

definition unmaps_of :: "khist \<Rightarrow> (u64 \<times> u64) multiset" where
  "unmaps_of h = mset (concat (map unmap_entry h))"

definition map_table :: "dma_glob \<Rightarrow> (u64 \<times> u64) multiset" where
  "map_table g = image_mset (\<lambda>j. (g_phy_addr g j, g_phy_size g j))
     (mset_set {j. j < MAX_NUM_DMA_DESCRIPTORS \<and> g_phy_addr_valid g j \<noteq> 0})"

text \<open>Every mapping is either released or still recorded.\<close>

definition balanced :: "dma_glob \<Rightarrow> khist \<Rightarrow> bool" where
  "balanced g h \<longleftrightarrow> maps_of h = unmaps_of h + map_table g"

lemma maps_of_simps [simp]:
  "maps_of [] = {#}" "maps_of (x # h) = mset (map_entry x) + maps_of h"
  "maps_of (h @ h') = maps_of h + maps_of h'"
  by (simp_all add: maps_of_def)

lemma unmaps_of_simps [simp]:
  "unmaps_of [] = {#}" "unmaps_of (x # h) = mset (unmap_entry x) + unmaps_of h"
  "unmaps_of (h @ h') = unmaps_of h + unmaps_of h'"
  by (simp_all add: unmaps_of_def)

lemma no_mappings:
  assumes "set (calls es) \<subseteq> {KtimeGetUs, Load8 dma, Printk msg}"
  shows "maps_of es = {#} \<and> unmaps_of es = {#}"
  using assms by (induction es) (auto simp: calls_def)

lemma setup_writes_no_mappings:
  "maps_of (emits (setup_writes dma dd pa ld) h) = maps_of h"
  "unmaps_of (emits (setup_writes dma dd pa ld) h) = unmaps_of h"
  by (simp_all add: emits_def setup_writes_def)

lemma mappings_from_table: "unmaps_of (emits (mappings_from 0 g) h) = unmaps_of h + map_table g"
proof -
  have "concat (map unmap_entry (map (\<lambda>c. (c, 0)) (mappings_from 0 g)))
      = map (\<lambda>j. (g_phy_addr g j, g_phy_size g j))
          (filter (\<lambda>j. g_phy_addr_valid g j \<noteq> 0) [0..<MAX_NUM_DMA_DESCRIPTORS])"
    by (simp add: mappings_from_def comp_def concat_map_singleton)
  moreover have "mset (filter (\<lambda>j. g_phy_addr_valid g j \<noteq> 0) [0..<MAX_NUM_DMA_DESCRIPTORS])
      = mset_set {j. j < MAX_NUM_DMA_DESCRIPTORS \<and> g_phy_addr_valid g j \<noteq> 0}"
    by (subst mset_set_set [symmetric]) (auto intro: arg_cong [where f = mset_set])
  ultimately show ?thesis
    by (simp add: emits_def map_table_def unmaps_of_def)
qed

lemma mappings_from_no_maps: "maps_of (emits (mappings_from 0 g) h) = maps_of h"
  by (simp add: emits_def mappings_from_def maps_of_def comp_def)

lemma map_table_mapped:
  assumes "unat (dd_index dd) < MAX_NUM_DMA_DESCRIPTORS"
    and "g_phy_addr_valid g (unat (dd_index dd)) = 0"
  shows "map_table (mapped_glob dd pa g) = add_mset (pa, dd_buffer_size dd) (map_table g)"
proof -
  let ?i = "unat (dd_index dd)"
  let ?S = "{j. j < MAX_NUM_DMA_DESCRIPTORS \<and> g_phy_addr_valid g j \<noteq> 0}"
  have dom: "{j. j < MAX_NUM_DMA_DESCRIPTORS \<and> g_phy_addr_valid (mapped_glob dd pa g) j \<noteq> 0}
      = insert ?i ?S"
    using assms by (auto simp: mapped_glob_def)
  have "?i \<notin> ?S"
    using assms(2) by simp
  then show ?thesis
    unfolding map_table_def dom
    by (auto simp: mapped_glob_def intro!: image_mset_cong)
qed

lemma map_table_cleared: "map_table (cleared_from 0 g) = {#}"
proof -
  have none: "{j. j < MAX_NUM_DMA_DESCRIPTORS \<and> g_phy_addr_valid (cleared_from 0 g) j \<noteq> 0} = {}"
    by (auto simp: cleared_from_def)
  show ?thesis
    unfolding map_table_def none by simp
qed

lemma map_table_frame:
  "map_table (g\<lparr>g_s := a\<rparr>) = map_table g" "map_table (g\<lparr>g_e := a\<rparr>) = map_table g"
  by (simp_all add: map_table_def)

lemma mappings_from_frame:
  "mappings_from i (g\<lparr>g_s := a\<rparr>) = mappings_from i g" "mappings_from i (g\<lparr>g_e := a\<rparr>) = mappings_from i g"
  by (simp_all add: mappings_from_def)

section \<open>Outcomes of a descriptor write\<close>

lemma write_disabled:
  "unat (dd_index dd) < MAX_NUM_DMA_DESCRIPTORS \<Longrightarrow> dd_enable dd = 0 \<Longrightarrow>
   writeDMADescriptor E dd cd g h = Some (Inr (0, setup_descriptor E dd cd g h))"
  by (simp add: writeDMADescriptor_def split: prod.splits)

lemma write_enabled:
  assumes "writeDMADescriptor E dd cd g h = Some (Inr (r, g', h'))" and "dd_enable dd \<noteq> 0"
  obtains pa s e es where "unat (dd_index dd) < MAX_NUM_DMA_DESCRIPTORS" "r = 0"
    "pa = kret E h (PciMapSingle (dd_address dd) (dd_buffer_size dd))"
    "g' = cleared_from 0 ((mapped_glob dd pa g)\<lparr>g_s := s, g_e := e\<rparr>)"
    "h' = emits (mappings_from 0 (mapped_glob dd pa g))
       (emits (setup_writes (c_dma cd) dd pa (g_ldescriptor g))
          (h @ [(PciMapSingle (dd_address dd) (dd_buffer_size dd), pa)])
        @ (KtimeGetUs, s) # (MemcpyToIo (c_dma cd) 4 (ucast (control_word dd OR 1)), 0) # es)"
    "set (calls es) \<subseteq> {KtimeGetUs, Load8 (c_dma cd), Printk ''Exit by timeout''}"
proof -
  define pa where "pa = kret E h (PciMapSingle (dd_address dd) (dd_buffer_size dd))"
  define h0 where "h0 = emits (setup_writes (c_dma cd) dd pa (g_ldescriptor g))
          (h @ [(PciMapSingle (dd_address dd) (dd_buffer_size dd), pa)])"
  define s where "s = kret E h0 KtimeGetUs"
  define h1 where
    "h1 = h0 @ [(KtimeGetUs, s), (MemcpyToIo (c_dma cd) 4 (ucast (control_word dd OR 1)), 0)]"
  have idx: "unat (dd_index dd) < MAX_NUM_DMA_DESCRIPTORS"
    using assms(1) by (auto simp: writeDMADescriptor_def split: if_splits)
  from assms idx obtain e h2 where poll: "poll_engine E (c_dma cd) s h1 = Some (e, h2)"
    and res: "r = 0" "g' = cleared_from 0 ((mapped_glob dd pa g)\<lparr>g_s := s, g_e := e\<rparr>)"
      "h' = emits (mappings_from 0 (mapped_glob dd pa g))
         (if POLL_TIMEOUT < e - s then emit (Printk ''Exit by timeout'') h2 else h2)"
    by (auto simp: writeDMADescriptor_def setup_descriptor_eq Let_def getToD_def kdo_def
        emit_def [of "MemcpyToIo _ _ _"] engine0_regs unmap_loop_eq mappings_from_frame pa_def h0_def
        s_def h1_def split: option.splits prod.splits)
  from poll_engine_spec [OF poll] obtain es where es: "h2 = h1 @ es"
    "set (calls es) \<subseteq> {KtimeGetUs, Load8 (c_dma cd)}"
    by (auto simp: poll_spec_def)
  define msg where
    "msg = (if POLL_TIMEOUT < e - s then [(Printk ''Exit by timeout'', 0 :: u64)] else [])"
  have "h' = emits (mappings_from 0 (mapped_glob dd pa g)) (h0
        @ (KtimeGetUs, s) # (MemcpyToIo (c_dma cd) 4 (ucast (control_word dd OR 1)), 0) # es @ msg)"
    using res(3) es(1) by (simp add: h1_def msg_def emit_def)
  moreover have "set (calls (es @ msg)) \<subseteq>
      {KtimeGetUs, Load8 (c_dma cd), Printk ''Exit by timeout''}"
    using es(2) by (auto simp: msg_def)
  ultimately show thesis
    using that idx res(1,2) pa_def unfolding h0_def by blast
qed

section \<open>Liveness of the polling loop\<close>

text \<open>What the code relies on of the clock: once \<open>n\<close> readings have been made, the time elapsed
  since \<open>s\<close> exceeds the timeout.\<close>

definition is_clock :: "kcall \<times> u64 \<Rightarrow> bool" where
  "is_clock x = (fst x = KtimeGetUs)"

definition clock_expires :: "kenv \<Rightarrow> u64 \<Rightarrow> nat \<Rightarrow> bool" where
  "clock_expires E s n \<longleftrightarrow>
     (\<forall>h. n \<le> kcount is_clock h \<longrightarrow> POLL_TIMEOUT < kret E h KtimeGetUs - s)"

lemma poll_hist_count: "kcount is_clock (poll_hist E dma k h) = k + kcount is_clock h"
proof (induction k arbitrary: h)
  case (Suc k)
  obtain e c h' where once: "poll_once E dma h = (e, c, h')"
    by (metis prod_cases3)
  then show ?case
    using Suc poll_once_hist [OF once] by (simp add: is_clock_def)
qed simp

lemma poll_engine_returns:
  assumes "clock_expires E s n"
  shows "\<exists>r. poll_engine E dma s h = Some r"
proof -
  have "n \<le> kcount is_clock (poll_hist E dma n h)"
    by (simp add: poll_hist_count)
  then have "POLL_TIMEOUT < kret E (poll_hist E dma n h) KtimeGetUs - s"
    using assms unfolding clock_expires_def by blast
  then have "poll_exits E dma s (poll_hist E dma n h)"
    by (simp add: poll_exits_def poll_once_def kdo_def Let_def)
  from poll_engine_exit [OF this] show ?thesis by blast
qed

lemma write_returns:
  assumes "unat (dd_index dd) < MAX_NUM_DMA_DESCRIPTORS"
    and "clock_expires E (kret E (snd (setup_descriptor E dd cd g h)) KtimeGetUs) n"
  shows "\<exists>g' h'. writeDMADescriptor E dd cd g h = Some (Inr (0, g', h'))"
proof -
  obtain g0 h0 where su: "setup_descriptor E dd cd g h = (g0, h0)"
    by fastforce
  obtain e h1 where "poll_engine E (c_dma cd) (kret E h0 KtimeGetUs)
      (h0 @ [(KtimeGetUs, kret E h0 KtimeGetUs),
        (MemcpyToIo (c_dma cd) 4 (ucast (control_word dd OR 1)), 0)]) = Some (e, h1)"
    using poll_engine_returns assms(2) su by (metis prod.exhaust snd_conv)
  then show ?thesis
    using assms(1) su
    by (simp add: writeDMADescriptor_def getToD_def kdo_def emit_def [of "MemcpyToIo _ _ _"]
        engine0_regs Let_def split: prod.splits)
qed

section \<open>Register images\<close>

text \<open>Writes to the device in a history.\<close>

fun is_dev_write :: "kcall \<Rightarrow> bool" where
  "is_dev_write (MemcpyToIo a n v) = True"
| "is_dev_write (Store16 a v) = True"
| "is_dev_write (IoWrite32 a v) = True"
| "is_dev_write _ = False"

lemma filter_dev_write_none:
  "set cs \<subseteq> {KtimeGetUs, Load8 dma, Printk msg} \<Longrightarrow> filter is_dev_write cs = []"
  by (induction cs) auto

lemma filter_dev_write_setup:
  "filter is_dev_write (setup_writes dma dd pa ld) = setup_writes dma dd pa ld"
  by (simp add: setup_writes_def)

lemma filter_dev_write_mappings: "filter is_dev_write (mappings_from i g) = []"
  by (simp add: mappings_from_def filter_empty_conv)

lemma word1_cases: "(x :: 1 word) = 0 \<or> x = 1"
proof -
  have "unat x < 2"
    using unsigned_less [of x] by simp
  then have "unat x = 0 \<or> unat x = 1" by linarith
  then show ?thesis by (simp add: word_unat_eq_iff)
qed

lemma control_word_or:
  "control_word dd = push_bit 2 (ucast (dd_is_c2s_op dd))
     OR push_bit 3 (ucast (dd_is_s2c_op dd)) OR push_bit 4 (ucast (dd_address_mode dd))"
proof -
  let ?a = "push_bit 2 (ucast (dd_is_c2s_op dd)) :: u32"
  let ?b = "push_bit 3 (ucast (dd_is_s2c_op dd)) :: u32"
  let ?m = "push_bit 4 (ucast (dd_address_mode dd)) :: u32"
  have b: "(if dd_is_s2c_op dd \<noteq> 0 then push_bit 3 1 else 0) = ?b"
    using word1_cases [of "dd_is_s2c_op dd"] by auto
  have "?a AND ?b = 0"
    by (rule bit_word_eqI) (auto simp: bit_simps dest: bit_imp_le_length)
  moreover have "(?a OR ?b) AND ?m = 0"
    by (rule bit_word_eqI) (auto simp: bit_simps dest: bit_imp_le_length)
  ultimately show ?thesis
    unfolding control_word_def b by (simp add: disjunctive_add_eq_or or.assoc)
qed

lemma bit_word1: "bit (x :: 1 word) k \<longleftrightarrow> k = 0 \<and> bit x 0"
  using bit_imp_le_length [of x k] by auto

lemma bit_word2: "bit (x :: 2 word) k \<longleftrightarrow> k = 0 \<and> bit x 0 \<or> k = 1 \<and> bit x 1"
  using bit_imp_le_length [of x k] by (auto simp: less_Suc_eq numeral_2_eq_2)

lemma bit_high: "0 < k \<Longrightarrow> \<not> bit (x :: 1 word) k" "1 < k \<Longrightarrow> \<not> bit (m :: 2 word) k"
  using bit_word1 [of x k] bit_word2 [of m k] by auto

lemma bit_control_fields:
 "bit (push_bit 2 (ucast (a::1 word)) :: u32) n \<longleftrightarrow> n = 2 \<and> bit a 0"
 "bit (push_bit 3 (ucast (a::1 word)) :: u32) n \<longleftrightarrow> n = 3 \<and> bit a 0"
 "bit (push_bit 4 (ucast (m::2 word)) :: u32) n \<longleftrightarrow> n = 4 \<and> bit m 0 \<or> n = 5 \<and> bit m 1"
  subgoal using bit_word1 [of a "n-2"] by (auto simp: bit_simps)
  subgoal using bit_word1 [of a "n-3"] by (auto simp: bit_simps)
  subgoal using bit_word2 [of m "n-4"] by (auto simp: bit_simps)
  done

lemma bit_control_word:
  "bit (control_word dd) n \<longleftrightarrow>
     n = 2 \<and> bit (dd_is_c2s_op dd) 0 \<or> n = 3 \<and> bit (dd_is_s2c_op dd) 0 \<or>
     n = 4 \<and> bit (dd_address_mode dd) 0 \<or> n = 5 \<and> bit (dd_address_mode dd) 1"
  unfolding control_word_or bit_or_iff bit_control_fields by blast

lemma bit_dd_flags:
  "bit (dd_flags_word dd) 2 = bit (dd_is_c2s_op dd) 0"
  "bit (dd_flags_word dd) 3 = bit (dd_is_s2c_op dd) 0"
  "bit (dd_flags_word dd) 4 = bit (dd_address_mode dd) 0"
  "bit (dd_flags_word dd) 5 = bit (dd_address_mode dd) 1"
  by (simp_all add: dd_flags_word_def bit_or_iff bit_fld bit_high)

section \<open>Properties\<close>

text \<open>
  A descriptor write whose index is outside the 1024 entries of the driver's mapping table
  indexes the table out of range; every other write, if it returns, returns 0.
\<close>

theorem write_descriptor_result:
  "writeDMADescriptor E dd cd g h = Some (Inl f) \<longleftrightarrow>
     f = OutOfBounds \<and> MAX_NUM_DMA_DESCRIPTORS \<le> unat (dd_index dd)"
  by (auto simp: writeDMADescriptor_def Let_def split: option.splits prod.splits)



text \<open>
  C3. The write of a descriptor returns: once the clock has moved past the timeout, the polling
  loop leaves, whatever the device answers, so with a valid index the operation ends with 0.
\<close>

theorem write_descriptor_returns:
  assumes "unat (dd_index dd) < MAX_NUM_DMA_DESCRIPTORS"
    and "clock_expires E (kret E (snd (setup_descriptor E dd cd g h)) KtimeGetUs) n"
  shows "\<exists>g' h'. writeDMADescriptor E dd cd g h = Some (Inr (0, g', h'))"
  using assms by (rule write_returns)

text \<open>
  C1. What the device sees of a descriptor write: the eight register writes that program buffer
  size, TLP count, address generator, descriptor address (the DMA address of the mapping) and
  length, direction bits and stop index, in this order, and, exactly when the descriptor is to be
  run, one further write of the control register with the enable bit; nothing is written after
  the engine has been started.
\<close>

theorem write_descriptor_programs:
  assumes "writeDMADescriptor E dd cd g h = Some (Inr (r, g', h'))"
  shows "filter is_dev_write (calls h') = filter is_dev_write (calls h)
    @ setup_writes (c_dma cd) dd
        (kret E h (PciMapSingle (dd_address dd) (dd_buffer_size dd))) (g_ldescriptor g)
    @ (if dd_enable dd = 0 then []
       else [MemcpyToIo (c_dma cd) 4 (ucast (control_word dd OR 1))])"
proof (cases "dd_enable dd = 0")
  case True
  then have "(g', h') = setup_descriptor E dd cd g h"
    using assms by (auto simp: writeDMADescriptor_def split: if_splits prod.splits)
  then show ?thesis
    using True by (simp add: setup_descriptor_eq Let_def filter_dev_write_setup)
next
  case False
  then show ?thesis
    by (auto elim!: write_enabled [OF assms] simp: filter_dev_write_setup filter_dev_write_none
        filter_dev_write_mappings)
qed

text \<open>
  C9. The control word has the bit positions of the flag word of the descriptor the user passed
  (and of the engine's control register): direction in bits 2 and 3, address mode in bits 4 and
  5, and neither the enable nor the reset bit.
\<close>

theorem control_word_image: "ucast (control_word dd) = dd_flags_word dd AND 0x3C"
proof (rule bit_word_eqI)
  fix n
  assume n: "n < LENGTH(64)"
  have "(0x3C :: u64) = push_bit 2 (mask 4)"
    by (simp add: mask_eq_exp_minus_1)
  then have mask: "bit (0x3C :: u64) n \<longleftrightarrow> n = 2 \<or> n = 3 \<or> n = 4 \<or> n = 5"
    using n by (simp only: bit_push_bit_iff bit_mask_iff) auto
  show "bit (ucast (control_word dd) :: u64) n = bit (dd_flags_word dd AND 0x3C) n"
    unfolding bit_and_iff mask bit_ucast_iff bit_control_word using n bit_dd_flags [of dd] by auto
qed

text \<open>A device that finishes at once, to evaluate descriptor writes on.\<close>

definition idle_env :: kenv where
  "idle_env = \<lparr>kret = (\<lambda>h c. case c of PciMapSingle a n \<Rightarrow> a + 0x100000 | _ \<Rightarrow> 0),
     kout = (\<lambda>h c i. 0)\<rparr>"

definition sample_dd :: dma_descriptor_sw where
  "sample_dd = \<lparr>dd_address = 0x2000, dd_buffer_size = 4096, dd_length = 256, dd_enable = 1,
     dd_u1 = 0, dd_is_c2s_op = 1, dd_is_s2c_op = 0, dd_address_mode = 3, dd_u0 = 0,
     dd_number_of_tlps = 8, dd_latency = 0, dd_address_offset = 0, dd_address_inc = 64,
     dd_time_at_req = 0, dd_time_at_comp = 0, dd_bytes_at_req = 0, dd_bytes_at_comp = 0,
     dd_index = 5\<rparr>"

lemma idle_poll: "poll_engine idle_env dma s h \<noteq> None"
  by (subst poll_engine_unfold) (simp add: poll_exits_def poll_once_def kdo_def idle_env_def Let_def)

lemma sample_write:
  "\<exists>g h. writeDMADescriptor idle_env (sample_dd\<lparr>dd_enable := en\<rparr>) cd init_dma_glob []
     = Some (Inr (0, g, h))"
proof -
  have "unat (dd_index sample_dd) < MAX_NUM_DMA_DESCRIPTORS"
    by (simp add: sample_dd_def MAX_NUM_DMA_DESCRIPTORS_def)
  then show ?thesis
    by (auto simp: writeDMADescriptor_def Let_def getToD_def kdo_def idle_poll
        split: prod.splits option.splits)
qed

lemma balanced_init: "balanced init_dma_glob []"
  by (simp add: balanced_def map_table_def init_dma_glob_def)


theorem write_descriptor_programs_witness:
  "\<exists>g h. writeDMADescriptor idle_env (sample_dd\<lparr>dd_enable := 0\<rparr>) zero_card init_dma_glob []
       = Some (Inr (0, g, h)) \<and>
     filter is_dev_write (calls h) = setup_writes 0 (sample_dd\<lparr>dd_enable := 0\<rparr>) 0x102000 0"
proof -
  obtain g h where w: "writeDMADescriptor idle_env (sample_dd\<lparr>dd_enable := 0\<rparr>) zero_card
      init_dma_glob [] = Some (Inr (0, g, h))"
    using sample_write by blast
  from write_descriptor_programs [OF w] w show ?thesis
    by (auto simp: sample_dd_def idle_env_def zero_card_def init_dma_glob_def)
qed

text \<open>A clock that is past the timeout from its second reading on, and a device that never
  finishes.\<close>

definition stuck_env :: kenv where
  "stuck_env = \<lparr>kret = (\<lambda>h c. case c of KtimeGetUs \<Rightarrow> if kcount is_clock h = 0 then 7 else 10000008
       | Load8 a \<Rightarrow> 1 | _ \<Rightarrow> 0), kout = (\<lambda>h c i. 0)\<rparr>"

theorem write_descriptor_returns_witness:
  "\<exists>g h. writeDMADescriptor stuck_env sample_dd zero_card init_dma_glob [] = Some (Inr (0, g, h))"
proof (rule write_descriptor_returns)
  show "unat (dd_index sample_dd) < MAX_NUM_DMA_DESCRIPTORS"
    by (simp add: sample_dd_def MAX_NUM_DMA_DESCRIPTORS_def)
  have "kcount is_clock (snd (setup_descriptor stuck_env sample_dd zero_card init_dma_glob [])) = 0"
    by (simp add: setup_descriptor_eq Let_def emits_def setup_writes_def is_clock_def)
  then show "clock_expires stuck_env (kret stuck_env
      (snd (setup_descriptor stuck_env sample_dd zero_card init_dma_glob [])) KtimeGetUs) 1"
    by (simp add: clock_expires_def stuck_env_def POLL_TIMEOUT_def)
qed

text \<open>
  C11. Programming the same slot twice before the engine is started loses a mapping: the second
  write overwrites the recorded address, and the first mapping is then neither recorded nor
  released.
\<close>

theorem rewrite_loses_mapping:
  assumes "writeDMADescriptor E d1 cd g h = Some (Inr (r1, g1, h1))"
    and "writeDMADescriptor E d2 cd g1 h1 = Some (Inr (r2, g2, h2))"
    and "dd_enable d1 = 0" and "dd_enable d2 = 0" and "dd_index d1 = dd_index d2"
    and "balanced g h" and "g_phy_addr_valid g (unat (dd_index d1)) = 0"
  shows "maps_of h2 = unmaps_of h2 + map_table g2
     + {#(kret E h (PciMapSingle (dd_address d1) (dd_buffer_size d1)), dd_buffer_size d1)#}"
proof -
  have idx: "unat (dd_index d2) < MAX_NUM_DMA_DESCRIPTORS"
    and s1: "(g1, h1) = setup_descriptor E d1 cd g h"
    and s2: "(g2, h2) = setup_descriptor E d2 cd g1 h1"
    using assms(1-4) by (auto simp: writeDMADescriptor_def split: if_splits prod.splits)
  have over: "map_table (mapped_glob d2 b (mapped_glob d1 a g)) = map_table (mapped_glob d2 b g)"
    for a b using assms(5) by (simp add: map_table_def mapped_glob_def)
  show ?thesis
    using s1 s2 idx assms(5-7)
    by (auto simp: setup_descriptor_eq Let_def setup_writes_no_mappings over map_table_mapped
        balanced_def)
qed

theorem rewrite_loses_mapping_witness:
  "\<exists>g1 h1 g2 h2.
     writeDMADescriptor idle_env (sample_dd\<lparr>dd_enable := 0\<rparr>) zero_card init_dma_glob []
       = Some (Inr (0, g1, h1)) \<and>
     writeDMADescriptor idle_env (sample_dd\<lparr>dd_enable := 0\<rparr>) zero_card g1 h1
       = Some (Inr (0, g2, h2)) \<and>
     maps_of h2 = unmaps_of h2 + map_table g2 + {#(0x102000, 4096)#}"
proof -
  let ?d = "sample_dd\<lparr>dd_enable := 0\<rparr>"
  have idx: "unat (dd_index ?d) < MAX_NUM_DMA_DESCRIPTORS" "dd_enable ?d = 0"
    by (simp_all add: sample_dd_def MAX_NUM_DMA_DESCRIPTORS_def)
  obtain g1 h1 where s1: "setup_descriptor idle_env ?d zero_card init_dma_glob [] = (g1, h1)"
    by fastforce
  obtain g2 h2 where s2: "setup_descriptor idle_env ?d zero_card g1 h1 = (g2, h2)"
    by fastforce
  note w1 = write_disabled [OF idx, of idle_env zero_card init_dma_glob "[]", unfolded s1]
  note w2 = write_disabled [OF idx, of idle_env zero_card g1 h1, unfolded s2]
  have "g_phy_addr_valid init_dma_glob (unat (dd_index ?d)) = 0"
    by (simp add: init_dma_glob_def)
  from rewrite_loses_mapping [OF w1 w2 idx(2) idx(2) refl balanced_init this] w1 w2
  show ?thesis
    by (auto simp: sample_dd_def idle_env_def)
qed



end
