(* ===== verification/Nfp_Mem.thy ===== *)
theory Nfp_Mem
  imports Nfp_Types
begin

unbundle bit_operations_syntax

text \<open>
  Registration of huge page buffers (src/HOST/driver/nfpmem.c): the file's globals, the pinning of
  the user's pages with the translation table of the card (16 entries), their release, and the two
  operations behind the ioctl commands. \<open>Inl\<close> is undefined behaviour of the C code.
\<close>

section \<open>State and operations\<close>

record mem_glob =
  mg_num_pages :: int
  mg_pages_ptr :: u64
  mg_pages :: "nat \<Rightarrow> u64" \<comment> \<open>the array of page pointers behind \<open>pages\<close>\<close>

definition init_mem_glob :: mem_glob where
  "init_mem_glob = \<lparr>mg_num_pages = 0, mg_pages_ptr = 0, mg_pages = (\<lambda>_. 0)\<rparr>"

definition PAGE_SIZE :: u64 where
  "PAGE_SIZE = 4096"

definition PAGE_SHIFT :: nat where
  "PAGE_SHIFT = 12"

definition PAGE_MASK :: u64 where
  "PAGE_MASK = NOT (PAGE_SIZE - 1)"

definition EFAULT :: int where
  "EFAULT = 14"

text \<open>The number of 4 KiB pages the user buffer touches.\<close>

definition user_npages :: "dma_buffer \<Rightarrow> u64" where
  "user_npages db =
     (let udata = db_data db;
          nbytes = db_length db;
          first_page = drop_bit PAGE_SHIFT (udata AND PAGE_MASK);
          last_page = drop_bit PAGE_SHIFT ((udata + nbytes - 1) AND PAGE_MASK)
      in last_page - first_page + 1)"

text \<open>The number of huge pages: a division rounded up by hand.\<close>

definition huge_page_count :: "dma_buffer \<Rightarrow> fault + u64" where
  "huge_page_count db =
     (case udiv (db_length db) (db_hp_size db) of
        Inl f \<Rightarrow> Inl f
      | Inr n \<Rightarrow> Inr (if db_hp_size db * n \<noteq> db_length db then n + 1 else n))"

text \<open>The loop that fills \<open>card->buffer.page_address\<close>: \<open>pag\<close> has \<open>npages\<close> entries, the table has
  16.\<close>

function fill_page_address ::
  "kenv \<Rightarrow> (nat \<Rightarrow> u64) \<Rightarrow> u64 \<Rightarrow> u64 \<Rightarrow> nat \<Rightarrow> nat \<Rightarrow> (nat \<Rightarrow> u64) \<Rightarrow> khist
   \<Rightarrow> fault + (nat \<Rightarrow> u64) \<times> khist" where
  "fill_page_address E pag npages hp_size n i tab h =
     (if i < n then
        let k = hp_size div PAGE_SIZE * of_nat i
        in if npages \<le> k then Inl OutOfBounds
           else let (a, h) = kdo E (PageAddress (pag (unat k))) h
                in if PAGE_ADDRESS_SLOTS \<le> i then Inl OutOfBounds
                   else fill_page_address E pag npages hp_size n (i + 1) (tab(i := a)) h
      else Inr (tab, h))"
  by pat_completeness auto
termination
  by (relation "measure (\<lambda>(E, pag, npages, hp_size, n, i, tab, h). n - i)") auto

declare fill_page_address.simps [simp del]

definition getUserHugePages ::
  "kenv \<Rightarrow> dma_buffer \<Rightarrow> nfp_card \<Rightarrow> mem_glob \<Rightarrow> khist
   \<Rightarrow> fault + int \<times> mem_glob \<times> nfp_card \<times> khist" where
  "getUserHugePages E db cd mg h =
     (let npages = user_npages db;
          (pag, h) = kdo E (Vmalloc (npages * 8)) h
      in if pag = 0 then Inr (- EFAULT, mg, cd, h)
         else
           let h = emit DownRead h;
               (r, pages, h) = kdo_out E (GetUserPages (db_data db) npages) h;
               ret = s32 r;
               mg = mg\<lparr>mg_pages_ptr := pag, mg_pages := pages\<rparr>;
               h = emit UpRead h
           in case huge_page_count db of
                Inl f \<Rightarrow> Inl f
              | Inr n \<Rightarrow>
                  (case fill_page_address E pages npages (db_hp_size db) (unat n) 0
                          (m_page_address (c_buffer cd)) h of
                     Inl f \<Rightarrow> Inl f
                   | Inr (tab, h) \<Rightarrow>
                       let cd = cd\<lparr>c_buffer := (c_buffer cd)\<lparr>m_page_address := tab,
                             m_npages := n, m_virtual := db_data db, m_length := db_length db\<rparr>\<rparr>
                       in Inr (ret, mg, cd, h)))"

text \<open>Release of the pinned pages: each is put once, dirtied unless it is reserved.\<close>

function forget_loop :: "kenv \<Rightarrow> (nat \<Rightarrow> u64) \<Rightarrow> int \<Rightarrow> int \<Rightarrow> khist \<Rightarrow> khist" where
  "forget_loop E pages num i h =
     (if i < num then
        let p = pages (nat i);
            h = emit DownRead h;
            (reserved, h) = kdo E (PageReserved p) h;
            h = (if reserved = 0 then emit (PutPage p) (emit (SetPageDirty p) h)
                 else emit (PutPage p) h);
            h = emit UpRead h
        in forget_loop E pages num (i + 1) h
      else h)"
  by pat_completeness auto
termination
  by (relation "measure (\<lambda>(E, pages, num, i, h). nat (num - i))") auto

declare forget_loop.simps [simp del]

definition forgetUserHugePages :: "kenv \<Rightarrow> mem_glob \<Rightarrow> khist \<Rightarrow> khist" where
  "forgetUserHugePages E mg h =
     emit (Vfree (mg_pages_ptr mg)) (forget_loop E (mg_pages mg) (mg_num_pages mg) 0 h)"

definition reg_hugemem ::
  "kenv \<Rightarrow> nfp_card \<Rightarrow> dma_buffer \<Rightarrow> mem_glob \<Rightarrow> khist
   \<Rightarrow> fault + int \<times> mem_glob \<times> nfp_card \<times> khist" where
  "reg_hugemem E cd db mg h =
     (case getUserHugePages E db cd mg h of
        Inl f \<Rightarrow> Inl f
      | Inr (ret, mg, cd, h) \<Rightarrow>
          let mg = mg\<lparr>mg_num_pages := ret\<rparr>
          in if mg_num_pages mg < 0 then
               let cd = cd\<lparr>c_buffer := (c_buffer cd)\<lparr>m_length := 0\<rparr>\<rparr>;
                   h = emit Up h;
                   h = emit (Printk ''nfp: user memory cant be mapped'') h
               in Inr (- EFAULT, mg, cd, h)
             else
               let cd = cd\<lparr>c_buffer := (c_buffer cd)\<lparr>m_virtual := db_data db,
                     m_length := db_length db, m_page_size := db_hp_size db\<rparr>\<rparr>
               in Inr (0, mg, cd, h))"

definition unreg_hugemem ::
  "kenv \<Rightarrow> nfp_card \<Rightarrow> mem_glob \<Rightarrow> khist \<Rightarrow> int \<times> mem_glob \<times> nfp_card \<times> khist" where
  "unreg_hugemem E cd mg h =
     (if m_length (c_buffer cd) \<noteq> 0 then
        let cd = cd\<lparr>c_buffer := (c_buffer cd)\<lparr>m_length := 0\<rparr>\<rparr>;
            h = forgetUserHugePages E mg h;
            mg = mg\<lparr>mg_num_pages := 0\<rparr>
        in (0, mg, cd, h)
      else (0, mg, cd, h))"

section \<open>Arithmetic of the registration\<close>

lemma mask_shift: "drop_bit PAGE_SHIFT (x AND PAGE_MASK) = drop_bit PAGE_SHIFT (x :: u64)"
proof -
  have m: "PAGE_MASK = NOT (mask 12)"
    by (simp add: PAGE_MASK_def PAGE_SIZE_def mask_eq_exp_minus_1)
  show ?thesis
    unfolding m
    by (rule bit_word_eqI) (auto simp: PAGE_SHIFT_def bit_simps dest: bit_imp_le_length)
qed

lemma drop_bit_12: "unat (drop_bit 12 (x :: u64)) = unat x div 4096"
  by (simp add: drop_bit_eq_div unat_div)

lemma user_npages_aligned:
  assumes "unat (db_data db) + unat (db_length db) < 2 ^ 64" and "0 < unat (db_length db)"
    and "4096 dvd unat (db_data db)"
  shows "unat (user_npages db) = (unat (db_length db) + 4095) div 4096"
proof -
  let ?u = "unat (db_data db)" and ?n = "unat (db_length db)"
  have "unat (db_data db + db_length db) = ?u + ?n"
    using assms(1) by (rule unat_add_no_wrap)
  moreover from this have "1 \<le> db_data db + db_length db"
    using assms(2) by (simp add: word_le_nat_alt)
  ultimately have last: "unat (db_data db + db_length db - 1) = ?u + ?n - 1"
    by (simp add: unat_sub)
  let ?l = "drop_bit 12 (db_data db + db_length db - 1)" and ?f = "drop_bit 12 (db_data db)"
  have l: "unat ?l = (?u + ?n - 1) div 4096" and f: "unat ?f = ?u div 4096"
    using last by (simp_all add: drop_bit_12)
  obtain q where q: "?u = 4096 * q" using assms(3) by (rule dvdE)
  have fl: "unat ?f \<le> unat ?l"
    unfolding l f using assms(2) by (intro div_le_mono) simp
  then have "unat (?l - ?f) = unat ?l - unat ?f"
    by (simp add: unat_sub word_le_nat_alt)
  moreover have "unat ?l - unat ?f + 1 = (?n + 4095) div 4096"
    unfolding l f q using assms(2) by (cases ?n) (simp_all add: div_add1_eq)
  moreover have "(?n + 4095) div 4096 < 2 ^ 64"
    using assms(1) by simp
  ultimately have "unat (?l - ?f + 1) = (?n + 4095) div 4096"
    by (simp add: unat_word_ariths)
  then show ?thesis
    unfolding user_npages_def Let_def mask_shift by (simp add: PAGE_SHIFT_def)
qed

lemma huge_page_count_ceil:
  assumes "db_hp_size db \<noteq> 0"
  shows "\<exists>n. huge_page_count db = Inr n \<and>
    unat n = (unat (db_length db) + unat (db_hp_size db) - 1) div unat (db_hp_size db)"
proof -
  let ?l = "unat (db_length db)" and ?s = "unat (db_hp_size db)"
  have s: "0 < ?s" using assms by (simp add: unat_gt_0)
  let ?q = "db_length db div db_hp_size db"
  have q: "unat ?q = ?l div ?s" by (simp add: unat_div)
  have "?s * (?l div ?s) \<le> ?l" by simp
  also have "?l < 2 ^ 64" using u64_bound [of "db_length db"] by simp
  finally have prod: "unat (db_hp_size db * ?q) = ?s * (?l div ?s)"
    by (subst unat_mult_no_wrap) (simp_all add: q)
  have small: "?l div ?s + 1 < 2 ^ 64" if "?s * (?l div ?s) \<noteq> ?l"
  proof -
    have "?s \<noteq> 1" "?l \<noteq> 0" using that by (metis div_by_1 mult_1, metis div_0 mult_0_right)
    then have "?l div ?s < ?l" using s by (intro div_less_dividend) auto
    then show ?thesis using u64_bound [of "db_length db"] by simp
  qed
  have same: "(db_hp_size db * ?q = db_length db) = (?s * (?l div ?s) = ?l)"
    using prod by (simp only: word_unat_eq_iff)
  have "unat (?q + 1) = ?l div ?s + 1" if "?s * (?l div ?s) \<noteq> ?l"
    using small [OF that] q by (simp add: unat_word_ariths)
  then show ?thesis
    unfolding huge_page_count_def udiv_def ceil_div [OF s] using assms q same by auto
qed

section \<open>The translation table\<close>

text \<open>What the code relies on of \<open>page_address\<close>: the kernel address of a page does not change.\<close>

definition page_address_is :: "kenv \<Rightarrow> (u64 \<Rightarrow> u64) \<Rightarrow> bool" where
  "page_address_is E f \<longleftrightarrow> (\<forall>h p. kret E h (PageAddress p) = f p)"

lemma fill_page_address_ok:
  assumes "page_address_is E f" and "n \<le> PAGE_ADDRESS_SLOTS"
    and "\<forall>j<n. hp_size div PAGE_SIZE * of_nat j < npages"
  shows "\<exists>h'. fill_page_address E pag npages hp_size n i tab h =
     Inr (\<lambda>j. if i \<le> j \<and> j < n then f (pag (unat (hp_size div PAGE_SIZE * of_nat j))) else tab j, h')"
  using assms
proof (induction E pag npages hp_size n i tab h rule: fill_page_address.induct)
  case (1 E pag npages hp_size n i tab h)
  show ?case
  proof (cases "i < n")
    case True
    let ?k = "hp_size div PAGE_SIZE * of_nat i :: u64"
    let ?a = "f (pag (unat ?k))"
    have a: "kdo E (PageAddress (pag (unat ?k))) h = (?a, h @ [(PageAddress (pag (unat ?k)), ?a)])"
      using "1.prems"(1) by (simp add: kdo_def page_address_is_def)
    have k: "\<not> npages \<le> ?k" "\<not> PAGE_ADDRESS_SLOTS \<le> i"
      using "1.prems"(2,3) True by (auto simp: not_le)
    have upd: "(\<lambda>j. if i + 1 \<le> j \<and> j < n then f (pag (unat (hp_size div PAGE_SIZE * of_nat j)))
          else (tab(i := ?a)) j)
        = (\<lambda>j. if i \<le> j \<and> j < n then f (pag (unat (hp_size div PAGE_SIZE * of_nat j))) else tab j)"
      using True by (auto simp: fun_eq_iff)
    show ?thesis
      using "1.IH" [OF True refl k(1) a [symmetric] refl k(2) "1.prems"] True k
      unfolding upd by (subst fill_page_address.simps) (simp add: Let_def a fun_upd_def)
  next
    case False
    then have "(\<lambda>j. if i \<le> j \<and> j < n then f (pag (unat (hp_size div PAGE_SIZE * of_nat j)))
          else tab j) = tab"
      by (auto simp: fun_eq_iff)
    with False show ?thesis
      by (subst fill_page_address.simps) simp
  qed
qed

lemma fill_page_address_overflow:
  "PAGE_ADDRESS_SLOTS < n \<Longrightarrow> i \<le> PAGE_ADDRESS_SLOTS \<Longrightarrow>
   fill_page_address E pag npages hp_size n i tab h = Inl OutOfBounds"
proof (induction E pag npages hp_size n i tab h rule: fill_page_address.induct)
  case (1 E pag npages hp_size n i tab h)
  let ?k = "hp_size div PAGE_SIZE * of_nat i :: u64"
  obtain a h' where a: "(a, h') = kdo E (PageAddress (pag (unat ?k))) h"
    by (metis prod.exhaust)
  have "i < n" using "1.prems" by simp
  show ?case
  proof (cases "npages \<le> ?k \<or> PAGE_ADDRESS_SLOTS \<le> i")
    case True
    then show ?thesis
      using \<open>i < n\<close> by (subst fill_page_address.simps) (auto simp: Let_def split: prod.splits)
  next
    case False
    then have "fill_page_address E pag npages hp_size n (i + 1) (tab(i := a)) h' = Inl OutOfBounds"
      using "1.IH" [OF \<open>i < n\<close> refl _ a refl] "1.prems" by (simp add: fun_upd_def)
    then show ?thesis
      using False \<open>i < n\<close> by (subst fill_page_address.simps) (simp add: Let_def a [symmetric])
  qed
qed

text \<open>A registration whose pages can be pinned, for any page size: what the buffer record is
  afterwards.\<close>

lemma reg_hugemem_fills:
  assumes "page_address_is E f" and "huge_page_count db = Inr n" and "unat n \<le> PAGE_ADDRESS_SLOTS"
    and "\<forall>j<unat n. db_hp_size db div PAGE_SIZE * of_nat j < user_npages db"
    and "\<forall>h. kret E h (Vmalloc (user_npages db * 8)) \<noteq> 0"
    and "\<forall>h. 0 \<le> s32 (kret E h (GetUserPages (db_data db) (user_npages db)))"
  shows "\<exists>mg' cd' h'. reg_hugemem E cd db mg h = Inr (0, mg', cd', h') \<and>
    c_buffer cd' = \<lparr>m_virtual = db_data db, m_length = db_length db, m_page_size = db_hp_size db,
      m_npages = n, m_page_address = (\<lambda>j. if j < unat n
        then f (mg_pages mg' (unat (db_hp_size db div PAGE_SIZE * of_nat j)))
        else m_page_address (c_buffer cd) j)\<rparr>"
proof -
  obtain pag h1 where va: "kdo E (Vmalloc (user_npages db * 8)) h = (pag, h1)" "pag \<noteq> 0"
    using assms(5) by (simp add: kdo_def)
  obtain r pages h2 where gup:
    "kdo_out E (GetUserPages (db_data db) (user_npages db)) (emit DownRead h1) = (r, pages, h2)"
    "0 \<le> s32 r"
    using assms(6) by (simp add: kdo_out_def)
  obtain h3 where "fill_page_address E pages (user_npages db) (db_hp_size db) (unat n) 0
      (m_page_address (c_buffer cd)) (emit UpRead h2) =
      Inr (\<lambda>j. if 0 \<le> j \<and> j < unat n then f (pages (unat (db_hp_size db div PAGE_SIZE * of_nat j)))
        else m_page_address (c_buffer cd) j, h3)"
    using fill_page_address_ok [OF assms(1,3,4)] by blast
  then show ?thesis
    using va gup assms(2)
    by (cases "c_buffer cd") (simp add: reg_hugemem_def getUserHugePages_def Let_def cong: if_cong)
qed

section \<open>Release of the pages\<close>

fun is_put_page :: "kcall \<Rightarrow> bool" where
  "is_put_page (PutPage p) = True"
| "is_put_page _ = False"

lemma forget_loop_puts:
  "0 \<le> i \<Longrightarrow> filter is_put_page (calls (forget_loop E pages num i h)) =
     filter is_put_page (calls h) @ map (\<lambda>j. PutPage (pages j)) [nat i..<nat num]"
proof (induction E pages num i h rule: forget_loop.induct)
  case (1 E pages num i h)
  show ?case
  proof (cases "i < num")
    case True
    then have "[nat i..<nat num] = nat i # [nat (i + 1)..<nat num]"
      using "1.prems" by (simp add: upt_conv_Cons nat_add_distrib)
    then show ?thesis
      using 1 True by (subst forget_loop.simps) (simp add: Let_def kdo_def)
  next
    case False
    then show ?thesis
      by (subst forget_loop.simps) simp
  qed
qed

section \<open>Properties\<close>

text \<open>
  C16. Registration of a well-formed buffer (page aligned, huge pages that are multiples of 4 KiB, at
  most 16 of them) succeeds once the kernel has pinned its pages: the card records address, length
  and huge page size, the number of huge pages is the length divided by their size rounded up, and
  entry \<open>j\<close> of the translation table is the kernel address of the first 4 KiB page of huge page
  \<open>j\<close>.
\<close>

theorem register_buffer_ok:
  assumes "page_address_is E f" and "4096 dvd unat (db_hp_size db)" and "db_hp_size db \<noteq> 0"
    and "4096 dvd unat (db_data db)" and "0 < unat (db_length db)"
    and "unat (db_length db) \<le> 16 * unat (db_hp_size db)"
    and "unat (db_data db) + unat (db_length db) < 2 ^ 64"
    and "\<forall>h. kret E h (Vmalloc (user_npages db * 8)) \<noteq> 0"
    and "\<forall>h. 0 \<le> s32 (kret E h (GetUserPages (db_data db) (user_npages db)))"
  shows "\<exists>mg' cd' h'. reg_hugemem E cd db mg h = Inr (0, mg', cd', h') \<and>
    m_virtual (c_buffer cd') = db_data db \<and> m_length (c_buffer cd') = db_length db \<and>
    m_page_size (c_buffer cd') = db_hp_size db \<and>
    unat (m_npages (c_buffer cd'))
      = (unat (db_length db) + unat (db_hp_size db) - 1) div unat (db_hp_size db) \<and>
    (\<forall>j < unat (m_npages (c_buffer cd')). m_page_address (c_buffer cd') j
       = f (mg_pages mg' (unat (db_hp_size db) div 4096 * j)))"
proof -
  let ?l = "unat (db_length db)" and ?s = "unat (db_hp_size db)"
  obtain n where n: "huge_page_count db = Inr n" "unat n = (?l + ?s - 1) div ?s"
    using huge_page_count_ceil assms(3) by blast
  have s: "0 < ?s" using assms(3) by (simp add: unat_gt_0)
  have "\<not> 16 < (?l + ?s - 1) div ?s"
    using assms(6) unfolding less_ceil_div [OF s] by simp
  then have n16: "unat n \<le> PAGE_ADDRESS_SLOTS"
    using n(2) by (simp add: PAGE_ADDRESS_SLOTS_def)
  have np: "unat (user_npages db) = (?l + 4096 - 1) div 4096"
    using user_npages_aligned assms(4,5,7) by simp
  have idx: "unat (db_hp_size db div PAGE_SIZE * of_nat j) = ?s div 4096 * j"
    "db_hp_size db div PAGE_SIZE * of_nat j < user_npages db" if "j < unat n" for j
  proof -
    have j: "j * ?s < ?l" using that n(2) less_ceil_div [OF s] by simp
    obtain q where q: "?s = 4096 * q" using assms(2) by (rule dvdE)
    have "q * j \<le> 4096 * (q * j)" by simp
    then have "?s div 4096 * j < 2 ^ 64"
      using j q u64_bound [of "db_length db"] by (simp add: ac_simps)
    moreover have "unat (of_nat j :: u64) = j"
      using that n16 by (intro u64_of_nat_inverse) (simp add: PAGE_ADDRESS_SLOTS_def)
    ultimately show eq: "unat (db_hp_size db div PAGE_SIZE * of_nat j) = ?s div 4096 * j"
      by (subst unat_mult_no_wrap) (simp_all add: unat_div PAGE_SIZE_def)
    have "?s div 4096 * j < (?l + 4096 - 1) div 4096"
      unfolding less_ceil_div [of 4096, simplified] using j q by (simp add: mult.commute)
    then show "db_hp_size db div PAGE_SIZE * of_nat j < user_npages db"
      unfolding word_less_nat_alt eq np .
  qed
  show ?thesis
    using reg_hugemem_fills [OF assms(1) n(1) n16 _ assms(8,9), of cd mg h] idx n(2) by auto
qed

text \<open>
  C17. A buffer of more than 16 huge pages overruns the card's translation table: the fill loop
  has no bound but the number of huge pages.
\<close>

theorem register_buffer_overflow:
  assumes "db_hp_size db \<noteq> 0" and "16 * unat (db_hp_size db) < unat (db_length db)"
    and "\<forall>h. kret E h (Vmalloc (user_npages db * 8)) \<noteq> 0"
  shows "reg_hugemem E cd db mg h = Inl OutOfBounds"
proof -
  have s: "0 < unat (db_hp_size db)" using assms(1) by (simp add: unat_gt_0)
  obtain n where n: "huge_page_count db = Inr n"
    "unat n = (unat (db_length db) + unat (db_hp_size db) - 1) div unat (db_hp_size db)"
    using huge_page_count_ceil assms(1) by blast
  then have "PAGE_ADDRESS_SLOTS < unat n"
    using assms(2) less_ceil_div [OF s] by (simp add: PAGE_ADDRESS_SLOTS_def)
  then show ?thesis
    using assms(3) n
    by (simp add: reg_hugemem_def getUserHugePages_def Let_def kcall_defs fill_page_address_overflow)
qed

text \<open>
  C18. Unregistering a buffer puts every pinned page exactly once and in order and frees the page
  array; done twice it does nothing the second time.
\<close>

theorem unregister_releases:
  assumes "m_length (c_buffer cd) \<noteq> 0" and "unreg_hugemem E cd mg h = (r, mg', cd', h')"
  shows "r = 0 \<and>
    filter is_put_page (calls h') = filter is_put_page (calls h)
      @ map (\<lambda>j. PutPage (mg_pages mg j)) [0..<nat (mg_num_pages mg)] \<and>
    fst (last h') = Vfree (mg_pages_ptr mg) \<and>
    unreg_hugemem E cd' mg' h' = (0, mg', cd', h')"
  using assms forget_loop_puts [of 0 E "mg_pages mg" "mg_num_pages mg" h]
  by (auto simp: unreg_hugemem_def forgetUserHugePages_def Let_def emit_def)

text \<open>
  A registration whose pages the kernel refuses to pin reports the error but leaves the buffer
  half registered: the card has the user's address in \<open>virtual\<close> (so that descriptors are
  translated through the table) with length 0 and the huge page size of before, and the ioctl
  semaphore has been released although its holder is still running.
\<close>

theorem failed_registration_stale:
  assumes "reg_hugemem E cd db mg h = Inr (r, mg', cd', h')"
    and "\<forall>h. kret E h (Vmalloc (user_npages db * 8)) \<noteq> 0"
    and "\<forall>h. s32 (kret E h (GetUserPages (db_data db) (user_npages db))) < 0"
  shows "r = - EFAULT \<and> m_virtual (c_buffer cd') = db_data db \<and> m_length (c_buffer cd') = 0 \<and>
    m_page_size (c_buffer cd') = m_page_size (c_buffer cd) \<and>
    (\<exists>h1. h' = h1 @ [(Up, 0), (Printk ''nfp: user memory cant be mapped'', 0)])"
  using assms
  by (auto simp: reg_hugemem_def getUserHugePages_def Let_def kcall_defs split: sum.splits)

section \<open>Witnesses\<close>

definition hp_env :: "u64 \<Rightarrow> kenv" where
  "hp_env gup = \<lparr>kret = (\<lambda>h c. case c of Vmalloc n \<Rightarrow> 0x7000 | GetUserPages u n \<Rightarrow> gup
       | PageAddress p \<Rightarrow> p * 4096 | _ \<Rightarrow> 0), kout = (\<lambda>h c i. 100 + of_nat i)\<rparr>"

definition sample_db :: "u64 \<Rightarrow> dma_buffer" where
  "sample_db len = \<lparr>db_is_hp = 1, db_data = 0x200000, db_length = len, db_hp_size = 8192,
     db_n_hp = 2\<rparr>"

lemma hp_env_facts:
  "page_address_is (hp_env g) (\<lambda>p. p * 4096)"
  "\<forall>h. kret (hp_env g) h (Vmalloc n) \<noteq> 0"
  "kret (hp_env g) h (GetUserPages u n) = g"
  by (simp_all add: page_address_is_def hp_env_def)

theorem register_buffer_ok_witness:
  "\<exists>mg cd h. reg_hugemem (hp_env 4) zero_card (sample_db 16384) init_mem_glob []
       = Inr (0, mg, cd, h) \<and> m_page_size (c_buffer cd) = 8192 \<and>
     unat (m_npages (c_buffer cd)) = 2"
  using register_buffer_ok [OF hp_env_facts(1), of "sample_db 16384" 4 zero_card init_mem_glob "[]"]
  by (auto simp: hp_env_facts sample_db_def s32_def)

theorem register_buffer_overflow_witness:
  "reg_hugemem (hp_env 34) zero_card (sample_db (17 * 8192)) init_mem_glob [] = Inl OutOfBounds"
  by (rule register_buffer_overflow) (simp_all add: hp_env_facts sample_db_def)

theorem unregister_releases_witness:
  "\<exists>r mg cd h. unreg_hugemem (hp_env 0)
      (zero_card\<lparr>c_buffer := (c_buffer zero_card)\<lparr>m_length := 4096\<rparr>\<rparr>)
      (init_mem_glob\<lparr>mg_num_pages := 2, mg_pages := of_nat\<rparr>) [] = (r, mg, cd, h) \<and>
    filter is_put_page (calls h) = [PutPage 0, PutPage 1]"
proof -
  let ?cd = "zero_card\<lparr>c_buffer := (c_buffer zero_card)\<lparr>m_length := 4096\<rparr>\<rparr>"
  let ?mg = "init_mem_glob\<lparr>mg_num_pages := 2, mg_pages := of_nat\<rparr>"
  obtain r mg cd h where eq: "unreg_hugemem (hp_env 0) ?cd ?mg [] = (r, mg, cd, h)"
    by (metis prod_cases4)
  have "[0..<nat (mg_num_pages ?mg)] = [0, 1]"
    by (simp add: upt_rec)
  with unregister_releases [OF _ eq] eq show ?thesis by auto
qed

theorem failed_registration_stale_witness:
  "\<exists>r mg cd h. reg_hugemem (hp_env (- 14)) zero_card (sample_db 0) init_mem_glob []
       = Inr (r, mg, cd, h) \<and> r = - EFAULT \<and> m_virtual (c_buffer cd) = 0x200000"
proof -
  let ?db = "sample_db 0"
  have ev: "\<exists>r mg cd h. reg_hugemem (hp_env (- 14)) zero_card ?db init_mem_glob []
      = Inr (r, mg, cd, h)"
    by (simp add: reg_hugemem_def getUserHugePages_def Let_def kcall_defs hp_env_def s32_def
        huge_page_count_def udiv_def sample_db_def fill_page_address.simps)
  then obtain r mg cd h where eq: "reg_hugemem (hp_env (- 14)) zero_card ?db init_mem_glob []
      = Inr (r, mg, cd, h)" by blast
  have "\<forall>h. s32 (kret (hp_env (- 14)) h (GetUserPages (db_data ?db) (user_npages ?db))) < 0"
    by (simp add: hp_env_facts s32_def)
  from failed_registration_stale [OF eq hp_env_facts(2) this] eq show ?thesis
    by (auto simp: sample_db_def)
qed

end
