(* ===== verification/Mmap_Ring.thy ===== *)
theory Mmap_Ring
  imports Nfp_Mem
begin

unbundle bit_operations_syntax

text \<open>
  Kernel page mappings (\<open>mmap_kmem\<close> and \<open>mmap_close\<close> of src/HOST/driver/nfpioctl.c): the pages
  of one consistent allocation of \<open>MAX_PAGES\<close> pages are handed out as a ring whose bounds are
  \<open>first\<close> and \<open>last\<close>. The ring is an instance of a bounded allocator that is released in
  allocation order.
\<close>

section \<open>Operations\<close>

record vma =
  vm_start :: u64
  vm_end :: u64
  vm_page_prot :: u64

definition EAGAIN :: int where
  "EAGAIN = 11"

text \<open>The number of pages of a mapping, rounded up (the same lines open both functions).\<close>

definition vma_npages :: "vma \<Rightarrow> int" where
  "vma_npages v =
     (let npages = s32 ((vm_end v - vm_start v) div PAGE_SIZE)
      in if u64_of_int npages * PAGE_SIZE \<noteq> vm_end v - vm_start v then npages + 1 else npages)"

text \<open>The loop of \<open>mmap_kmem\<close>: does one of the next \<open>npages\<close> positions run into \<open>first\<close>?\<close>

function ring_exhausted :: "int \<Rightarrow> int \<Rightarrow> int \<Rightarrow> int \<Rightarrow> bool" where
  "ring_exhausted la fi npages i =
     (if i < npages then
        if (la + i + 1) smod MAX_PAGES = fi then True
        else ring_exhausted la fi npages (i + 1)
      else False)"
  by pat_completeness auto
termination
  by (relation "measure (\<lambda>(l, f, n, i). nat (n - i))") auto

declare ring_exhausted.simps [simp del]

definition mmap_kmem :: "kenv \<Rightarrow> nfp_card \<Rightarrow> vma \<Rightarrow> khist \<Rightarrow> int \<times> nfp_card \<times> khist" where
  "mmap_kmem E cd v h =
     (let mi = c_mmap_info cd;
          npages = vma_npages v
      in if ring_exhausted (mi_last mi) (mi_first mi) npages 0 then (- EAGAIN, cd, h)
         else
           let p = mi_page_list mi + PAGE_SIZE * u64_of_int (mi_last mi);
               (_, h) = kdo E (VirtToPage p) h;
               (phys, h) = kdo E (VirtToPhys p) h;
               (r, h) = kdo E (RemapPfnRange (vm_start v) (drop_bit PAGE_SHIFT phys)
                                 (vm_end v - vm_start v) (vm_page_prot v)) h;
               ret = s32 r
           in if ret < 0 then (- EAGAIN, cd, h)
              else
                let mi = mi\<lparr>mi_last := (mi_last mi + npages) smod MAX_PAGES\<rparr>;
                    mi = mi\<lparr>mi_active := 1\<rparr>
                in (ret, cd\<lparr>c_mmap_info := mi\<rparr>, h))"

definition mmap_close :: "nfp_card \<Rightarrow> vma \<Rightarrow> nfp_card" where
  "mmap_close cd v =
     (let mi = c_mmap_info cd;
          npages = vma_npages v
      in if mi_first mi = mi_last mi then cd\<lparr>c_mmap_info := mi\<lparr>mi_active := 0\<rparr>\<rparr>
         else cd\<lparr>c_mmap_info := mi\<lparr>mi_first := (mi_first mi + npages) smod MAX_PAGES\<rparr>\<rparr>)"

definition nfp_mmap :: "kenv \<Rightarrow> nfp_card \<Rightarrow> vma \<Rightarrow> khist \<Rightarrow> int \<times> nfp_card \<times> khist" where
  "nfp_mmap E cd v h = mmap_kmem E cd v h"

text \<open>A history of mappings of the device file: each \<open>Mmap\<close> is granted or refused by \<open>nfp_mmap\<close>,
  \<open>Close\<close> closes the oldest mapping that is still open.\<close>

datatype mmap_event = Mmap vma | Close

fun mmap_step :: "kenv \<Rightarrow> mmap_event \<Rightarrow> nfp_card \<times> vma list \<times> khist \<Rightarrow> nfp_card \<times> vma list \<times> khist" where
  "mmap_step E (Mmap v) (cd, live, h) =
     (let (r, cd, h) = nfp_mmap E cd v h in (cd, if r < 0 then live else live @ [v], h))"
| "mmap_step E Close (cd, live, h) =
     (case live of [] \<Rightarrow> (cd, live, h) | v # live \<Rightarrow> (mmap_close cd v, live, h))"

fun valid_event :: "mmap_event \<Rightarrow> bool" where
  "valid_event (Mmap v) = (0 < vma_npages v)"
| "valid_event Close = True"

section \<open>The interface: a bounded allocator released in order\<close>

datatype fifo_op = MapPages int | CloseOldest

text \<open>A run over the sizes of the live mappings, oldest first; a mapping that does not fit is
  refused.\<close>

fun fifo_step :: "(int \<Rightarrow> 's \<Rightarrow> 's option) \<Rightarrow> (int \<Rightarrow> 's \<Rightarrow> 's) \<Rightarrow> fifo_op \<Rightarrow> 's \<times> int list
    \<Rightarrow> 's \<times> int list" where
  "fifo_step alloc release (MapPages n) (s, q) =
     (case alloc n s of None \<Rightarrow> (s, q) | Some s' \<Rightarrow> (s', q @ [n]))"
| "fifo_step alloc release CloseOldest (s, q) =
     (case q of [] \<Rightarrow> (s, q) | n # q' \<Rightarrow> (release n s, q'))"

fun valid_op :: "fifo_op \<Rightarrow> bool" where
  "valid_op (MapPages n) = (0 < n)"
| "valid_op CloseOldest = True"

locale fifo_allocator =
  fixes alloc :: "int \<Rightarrow> 's \<Rightarrow> 's option"
    and release :: "int \<Rightarrow> 's \<Rightarrow> 's"
    and inv :: "'s \<Rightarrow> bool"
    and occupied :: "'s \<Rightarrow> int"
    and capacity :: int
  assumes alloc_fits: "inv s \<Longrightarrow> 0 < n \<Longrightarrow> occupied s + n \<le> capacity \<Longrightarrow>
      \<exists>s'. alloc n s = Some s' \<and> inv s' \<and> occupied s' = occupied s + n"
    and alloc_full: "inv s \<Longrightarrow> 0 < n \<Longrightarrow> capacity < occupied s + n \<Longrightarrow> alloc n s = None"
    and release_inv: "inv s \<Longrightarrow> 0 < n \<Longrightarrow> n \<le> occupied s \<Longrightarrow>
      inv (release n s) \<and> occupied (release n s) = occupied s - n"
begin

lemma step_agrees:
  assumes "inv s" and "occupied s = sum_list q" and "\<forall>n\<in>set q. 0 < n" and "valid_op e"
    and "sum_list q \<le> capacity" and "fifo_step alloc release e (s, q) = (s', q')"
  shows "inv s' \<and> occupied s' = sum_list q' \<and> (\<forall>n\<in>set q'. 0 < n) \<and> sum_list q' \<le> capacity"
proof (cases e)
  case (MapPages n)
  then have n: "0 < n" using assms(4) by simp
  show ?thesis
  proof (cases "occupied s + n \<le> capacity")
    case True
    then show ?thesis
      using alloc_fits [OF assms(1) n True] assms MapPages by auto
  next
    case False
    then show ?thesis
      using alloc_full [OF assms(1) n] assms MapPages by auto
  qed
next
  case CloseOldest
  show ?thesis
  proof (cases q)
    case Nil
    then show ?thesis using assms CloseOldest by auto
  next
    case (Cons n q0)
    then have "0 \<le> sum_list q0" using assms(3) by (intro sum_list_nonneg) auto
    then show ?thesis
      using release_inv [OF assms(1), of n] assms CloseOldest Cons by auto
  qed
qed

definition consistent :: "'s \<times> int list \<Rightarrow> bool" where
  "consistent = (\<lambda>(s, q). inv s \<and> occupied s = sum_list q \<and> (\<forall>n\<in>set q. 0 < n) \<and> sum_list q \<le> capacity)"

end

sublocale fifo_allocator \<subseteq> invariant_steps "fifo_step alloc release" valid_op consistent
proof
  fix e and sq :: "'s \<times> int list"
  assume e: "valid_op e" and c: "consistent sq"
  obtain s q s' q' where sq: "sq = (s, q)" "fifo_step alloc release e (s, q) = (s', q')"
    by fastforce
  show "consistent (fifo_step alloc release e sq)"
    using step_agrees [OF _ _ _ e _ sq(2)] c sq by (simp add: consistent_def)
qed

section \<open>The ring is such an allocator\<close>

definition ring_alloc :: "int \<Rightarrow> mmap_info \<Rightarrow> mmap_info option" where
  "ring_alloc npages mi =
     (if ring_exhausted (mi_last mi) (mi_first mi) npages 0 then None
      else Some (mi\<lparr>mi_last := (mi_last mi + npages) smod MAX_PAGES, mi_active := 1\<rparr>))"

definition ring_release :: "int \<Rightarrow> mmap_info \<Rightarrow> mmap_info" where
  "ring_release npages mi =
     (if mi_first mi = mi_last mi then mi\<lparr>mi_active := 0\<rparr>
      else mi\<lparr>mi_first := (mi_first mi + npages) smod MAX_PAGES\<rparr>)"

definition ring_inv :: "mmap_info \<Rightarrow> bool" where
  "ring_inv mi \<longleftrightarrow> 0 \<le> mi_first mi \<and> mi_first mi < MAX_PAGES \<and> 0 \<le> mi_last mi \<and> mi_last mi < MAX_PAGES"

definition ring_used :: "mmap_info \<Rightarrow> int" where
  "ring_used mi = (mi_last mi - mi_first mi) mod MAX_PAGES"

lemma smod_nonneg: "0 \<le> a \<Longrightarrow> (a :: int) smod MAX_PAGES = a mod MAX_PAGES"
  by (cases "a = 0") (simp_all add: smod_int_alt_def MAX_PAGES_def)

lemma ring_exhausted_iff:
  "ring_exhausted la fi n i \<longleftrightarrow> (\<exists>k\<ge>i. k < n \<and> (la + k + 1) smod MAX_PAGES = fi)"
proof (induction la fi n i rule: ring_exhausted.induct)
  case (1 la fi n i)
  have split: "(\<exists>k\<ge>i. k < n \<and> P k) \<longleftrightarrow> i < n \<and> (P i \<or> (\<exists>k\<ge>i + 1. k < n \<and> P k))" for P
    by (smt (verit, best))
  show ?case
    using 1 by (subst ring_exhausted.simps) (simp add: split [of "\<lambda>k. (la + k + 1) smod MAX_PAGES = fi"])
qed

lemma mod_MAX_PAGES:
  fixes m :: int
  shows "0 \<le> m \<Longrightarrow> m < 2048 \<Longrightarrow> m mod 1024 = (if m < 1024 then m else m - 1024)"
  using mod_pos_pos_trivial [of m 1024] mod_pos_pos_trivial [of "m - 1024" 1024]
    minus_mod_self2 [of m 1024] by auto

lemma ring_used_cases:
  assumes "ring_inv mi"
  shows "ring_used mi = (if mi_first mi \<le> mi_last mi then mi_last mi - mi_first mi
     else mi_last mi - mi_first mi + 1024)"
  using assms mod_MAX_PAGES [of "mi_last mi - mi_first mi + 1024"]
  by (auto simp: ring_used_def ring_inv_def MAX_PAGES_def)

lemma ring_exhausted_used:
  assumes "ring_inv mi"
  shows "ring_exhausted (mi_last mi) (mi_first mi) n 0 \<longleftrightarrow> MAX_PAGES \<le> ring_used mi + n"
proof -
  let ?l = "mi_last mi" and ?f = "mi_first mi" and ?u = "ring_used mi"
  have b: "0 \<le> ?f" "?f < 1024" "0 \<le> ?l" "?l < 1024"
    using assms by (auto simp: ring_inv_def MAX_PAGES_def)
  note u = ring_used_cases [OF assms]
  have le: "1023 - ?u \<le> k" if k: "0 \<le> k" "(?l + k + 1) mod 1024 = ?f" for k
  proof (rule ccontr)
    assume "\<not> 1023 - ?u \<le> k"
    moreover from this have "(?l + k + 1) mod 1024
        = (if ?l + k + 1 < 1024 then ?l + k + 1 else ?l + k + 1 - 1024)"
      using b k(1) u by (intro mod_MAX_PAGES) (auto split: if_splits)
    ultimately show False
      using k b u by (auto split: if_splits)
  qed
  have hit: "(?l + (1023 - ?u) + 1) mod 1024 = ?f"
    using b u mod_MAX_PAGES [of "?l + (1023 - ?u) + 1"] by (auto split: if_splits)
  have "?u < 1024" using u b by (auto split: if_splits)
  then have "(\<exists>k\<ge>0. k < n \<and> (?l + k + 1) mod 1024 = ?f) \<longleftrightarrow> 1024 \<le> ?u + n"
    using le hit by (auto intro!: exI [of _ "1023 - ?u"] dest!: le)
  moreover have "(?l + k + 1) smod MAX_PAGES = (?l + k + 1) mod 1024" if "0 \<le> k" for k
    using that b smod_nonneg [of "?l + k + 1"] by (simp add: MAX_PAGES_def)
  ultimately show ?thesis
    unfolding ring_exhausted_iff by (auto simp: MAX_PAGES_def)
qed

lemma ring_alloc_spec:
  assumes "ring_inv mi" and "0 < n"
  shows "ring_alloc n mi = (if ring_used mi + n \<le> 1023
     then Some (mi\<lparr>mi_last := (mi_last mi + n) mod 1024, mi_active := 1\<rparr>) else None)"
  using assms ring_exhausted_used [OF assms(1), of n] smod_nonneg [of "mi_last mi + n"]
  by (auto simp: ring_alloc_def ring_inv_def MAX_PAGES_def)

lemma ring_step_used:
  assumes "ring_inv mi"
  shows "ring_used (mi\<lparr>mi_last := (mi_last mi + n) mod 1024, mi_active := a\<rparr>) = (ring_used mi + n) mod 1024"
    and "ring_used (mi\<lparr>mi_first := (mi_first mi + n) mod 1024\<rparr>) = (ring_used mi - n) mod 1024"
  by (simp_all add: ring_used_def MAX_PAGES_def mod_simps algebra_simps)

interpretation ring: fifo_allocator ring_alloc ring_release ring_inv ring_used 1023
proof unfold_locales
  fix mi :: mmap_info and n :: int
  assume inv: "ring_inv mi" and n: "0 < n"
  have u: "0 \<le> ring_used mi" "ring_used mi < 1024"
    by (simp_all add: ring_used_def MAX_PAGES_def)
  {
    assume fits: "ring_used mi + n \<le> 1023"
    then show "\<exists>s'. ring_alloc n mi = Some s' \<and> ring_inv s' \<and> ring_used s' = ring_used mi + n"
      using inv n u
      by (simp add: ring_alloc_spec ring_step_used)
        (simp add: ring_inv_def MAX_PAGES_def mod_pos_pos_trivial)
  next
    assume "1023 < ring_used mi + n"
    then show "ring_alloc n mi = None"
      using ring_alloc_spec [OF inv n] by simp
  next
    assume le: "n \<le> ring_used mi"
    then have "mi_first mi \<noteq> mi_last mi"
      using n by (auto simp: ring_used_def)
    then have "ring_release n mi = mi\<lparr>mi_first := (mi_first mi + n) mod 1024\<rparr>"
      using inv n smod_nonneg [of "mi_first mi + n"]
      by (simp add: ring_release_def ring_inv_def MAX_PAGES_def)
    then show "ring_inv (ring_release n mi) \<and> ring_used (ring_release n mi) = ring_used mi - n"
      using inv le u n by (simp add: ring_step_used)
        (simp add: ring_inv_def MAX_PAGES_def mod_pos_pos_trivial)
  }
qed

lemma mmap_close_ring:
  "mmap_close cd v = cd\<lparr>c_mmap_info := ring_release (vma_npages v) (c_mmap_info cd)\<rparr>"
  by (simp add: mmap_close_def ring_release_def Let_def)

lemma vma_npages_ceil:
  assumes "unat (vm_end v - vm_start v) < 2 ^ 43"
  shows "vma_npages v = int ((unat (vm_end v - vm_start v) + 4095) div 4096)"
proof -
  let ?len = "vm_end v - vm_start v"
  have q: "unat (?len div PAGE_SIZE) = unat ?len div 4096"
    by (simp add: unat_div PAGE_SIZE_def)
  have "unat ?len div 4096 < 2 ^ 31" using assms by (simp add: less_mult_imp_div_less)
  then have n: "s32 (?len div PAGE_SIZE) = int (unat ?len div 4096)"
    using s32_small [of "?len div PAGE_SIZE"] q by simp
  have "unat (u64_of_int (int (unat ?len div 4096))) = unat ?len div 4096"
    using \<open>unat ?len div 4096 < 2 ^ 31\<close> by (subst u64_of_int_inverse) simp_all
  then have "unat (u64_of_int (int (unat ?len div 4096)) * PAGE_SIZE) = unat ?len div 4096 * 4096"
    using assms by (subst unat_mult_no_wrap) (simp_all add: PAGE_SIZE_def)
  then have "(u64_of_int (int (unat ?len div 4096)) * PAGE_SIZE = ?len)
      = (4096 * (unat ?len div 4096) = unat ?len)"
    by (simp only: word_unat_eq_iff mult.commute)
  moreover have "(unat ?len + 4095) div 4096 = (if 4096 * (unat ?len div 4096) = unat ?len
      then unat ?len div 4096 else unat ?len div 4096 + 1)"
    using ceil_div [of 4096 "unat ?len"] by (simp add: add.commute)
  ultimately show ?thesis
    unfolding vma_npages_def Let_def n by simp
qed

section \<open>Properties\<close>

text \<open>
  C13. A page mapping succeeds exactly when its pages fit into the ring next to those in use (one
  position stays free, so at most 1023) and the kernel's remapping succeeds; it then moves \<open>last\<close>
  past the new pages. In every other case the answer is \<open>-EAGAIN\<close> and the card is unchanged, and
  without room the kernel is not even asked.
\<close>

theorem mmap_kmem_outcome:
  assumes "ring_inv (c_mmap_info cd)" and "0 < vma_npages v" and "mmap_kmem E cd v h = (r, cd', h')"
  shows "if 1023 < ring_used (c_mmap_info cd) + vma_npages v
    then r = - EAGAIN \<and> cd' = cd \<and> h' = h
    else (\<exists>ans. length h' = length h + 3 \<and> snd (last h') = ans \<and>
      (if s32 ans < 0 then r = - EAGAIN \<and> cd' = cd
       else r = s32 ans \<and> ring_inv (c_mmap_info cd') \<and>
         Some (c_mmap_info cd') = ring_alloc (vma_npages v) (c_mmap_info cd) \<and>
         ring_used (c_mmap_info cd') = ring_used (c_mmap_info cd) + vma_npages v))"
proof -
  have ex: "ring_exhausted (mi_last (c_mmap_info cd)) (mi_first (c_mmap_info cd)) (vma_npages v) 0
      = (1023 < ring_used (c_mmap_info cd) + vma_npages v)"
    using ring_exhausted_used [OF assms(1), of "vma_npages v"] by (simp add: MAX_PAGES_def) linarith
  show ?thesis
  proof (cases "1023 < ring_used (c_mmap_info cd) + vma_npages v")
    case True
    then have "mmap_kmem E cd v h = (- EAGAIN, cd, h)"
      unfolding mmap_kmem_def Let_def ex by (simp only: if_True)
    then show ?thesis
      using assms(3) True by simp
  next
    case False
    then obtain mi where mi: "ring_alloc (vma_npages v) (c_mmap_info cd) = Some mi" "ring_inv mi"
      "ring_used mi = ring_used (c_mmap_info cd) + vma_npages v"
      using ring.alloc_fits [OF assms(1,2)] by auto
    then show ?thesis
      using assms(3) False
      by (simp add: mmap_kmem_def ring_alloc_def ex Let_def kcall_defs split: if_splits) auto
  qed
qed

lemma mmap_kmem_ring:
  assumes "mmap_kmem E cd v h = (r, cd', h')"
  shows "r < 0 \<and> cd' = cd \<or> 0 \<le> r \<and>
    ring_alloc (vma_npages v) (c_mmap_info cd) = Some (c_mmap_info cd')"
  using assms
  by (auto simp: mmap_kmem_def ring_alloc_def EAGAIN_def kcall_defs Let_def split: if_splits)

lemma mmap_step_agrees:
  assumes "mmap_step E e (cd, live, h) = (cd', live', h')" and "valid_event e"
    and "ring_inv (c_mmap_info cd)" and "ring_used (c_mmap_info cd) = sum_list (map vma_npages live)"
    and "\<forall>v\<in>set live. 0 < vma_npages v" and "ring_used (c_mmap_info cd) \<le> 1023"
  shows "ring_inv (c_mmap_info cd') \<and> ring_used (c_mmap_info cd') = sum_list (map vma_npages live') \<and>
    (\<forall>v\<in>set live'. 0 < vma_npages v) \<and> ring_used (c_mmap_info cd') \<le> 1023"
proof (cases e)
  case (Mmap v)
  obtain r where r: "mmap_kmem E cd v h = (r, cd', h')" "live' = (if r < 0 then live else live @ [v])"
    using assms(1) Mmap by (auto simp: nfp_mmap_def split: prod.splits)
  have "fifo_step ring_alloc ring_release (MapPages (vma_npages v))
      (c_mmap_info cd, map vma_npages live) = (c_mmap_info cd', map vma_npages live')" if "0 \<le> r"
    using mmap_kmem_ring [OF r(1)] r(2) that by auto
  then show ?thesis
    using ring.step_agrees [OF assms(3,4), of "MapPages (vma_npages v)"] mmap_kmem_ring [OF r(1)]
      assms(2-) r(2) Mmap by (cases "r < 0") auto
next
  case Close
  then have "fifo_step ring_alloc ring_release CloseOldest (c_mmap_info cd, map vma_npages live)
      = (c_mmap_info cd', map vma_npages live') \<and> set live' \<subseteq> set live"
    using assms(1) by (cases live) (auto simp: mmap_close_ring)
  then show ?thesis
    using ring.step_agrees [OF assms(3,4), of CloseOldest] assms(4-) by auto
qed

text \<open>The card and the live mappings agree.\<close>

definition mmap_inv :: "nfp_card \<times> vma list \<times> khist \<Rightarrow> bool" where
  "mmap_inv = (\<lambda>(cd, live, h). ring_inv (c_mmap_info cd) \<and>
     ring_used (c_mmap_info cd) = sum_list (map vma_npages live) \<and>
     (\<forall>v\<in>set live. 0 < vma_npages v) \<and> ring_used (c_mmap_info cd) \<le> 1023)"

interpretation mmap: invariant_steps "mmap_step E" valid_event mmap_inv for E
proof
  fix e s assume e: "valid_event e" and inv: "mmap_inv s"
  obtain cd live h cd' live' h' where s: "s = (cd, live, h)" "mmap_step E e (cd, live, h) = (cd', live', h')"
    by (metis prod_cases3)
  show "mmap_inv (mmap_step E e s)"
    using mmap_step_agrees [OF s(2) e] inv s by (simp add: mmap_inv_def)
qed

text \<open>
  C12. The ring refines the queue of live mappings: for any sequence of \<open>mmap\<close> calls and of closings
  in mapping order on a fresh card, whatever the kernel answers, the number of pages in use is the
  sum of the sizes of the mappings that are still open, both bounds stay inside the ring, and no
  more than 1023 pages are ever in use.
\<close>

theorem mmap_fifo_refinement:
  assumes "list_all valid_event es"
    and "fold (mmap_step E) es (zero_card, [], h) = (cd, live, h')"
  shows "ring_inv (c_mmap_info cd) \<and> ring_used (c_mmap_info cd) = sum_list (map vma_npages live) \<and>
    ring_used (c_mmap_info cd) \<le> 1023"
proof -
  have "mmap_inv (fold (mmap_step E) es (zero_card, [], h))"
    using assms(1)
    by (rule mmap.run_inv)
      (simp add: mmap_inv_def ring_inv_def ring_used_def MAX_PAGES_def zero_card_def)
  then show ?thesis
    using assms(2) by (simp add: mmap_inv_def)
qed

lemma ring_fresh_pages:
  assumes "ring_inv mi" and "ring_alloc n mi = Some mi'" and "0 < n"
    and "mi_last mi + n \<le> MAX_PAGES" and "mi_last mi \<le> p" and "p < mi_last mi + n"
  shows "0 \<le> p \<and> p < MAX_PAGES \<and>
    (\<forall>k. 0 \<le> k \<and> k < ring_used mi \<longrightarrow> (mi_first mi + k) mod MAX_PAGES \<noteq> p)"
proof (intro conjI allI impI)
  have b: "0 \<le> mi_first mi" "mi_first mi < 1024" "0 \<le> mi_last mi" "mi_last mi < 1024"
    using assms(1) by (auto simp: ring_inv_def MAX_PAGES_def)
  show "0 \<le> p" "p < MAX_PAGES" using assms(4-6) b by auto
  fix k assume k: "0 \<le> k \<and> k < ring_used mi"
  have fits: "ring_used mi + n \<le> 1023"
    using ring_alloc_spec [OF assms(1,3)] assms(2) by (auto split: if_splits)
  note u = ring_used_cases [OF assms(1)]
  have "(mi_first mi + k) mod 1024
      = (if mi_first mi + k < 1024 then mi_first mi + k else mi_first mi + k - 1024)"
    using b k u by (intro mod_MAX_PAGES) (auto split: if_splits)
  then show "(mi_first mi + k) mod MAX_PAGES \<noteq> p"
    using b k u fits assms(3-6) by (auto simp: MAX_PAGES_def split: if_splits)
qed


text \<open>A kernel that grants every request, and areas of a given number of pages.\<close>

definition quiet_env :: kenv where
  "quiet_env = \<lparr>kret = (\<lambda>h c. 0), kout = (\<lambda>h c i. 0)\<rparr>"

definition pages_vma :: "nat \<Rightarrow> vma" where
  "pages_vma n = \<lparr>vm_start = 0x1000, vm_end = 0x1000 + of_nat (4096 * n), vm_page_prot = 0\<rparr>"

lemma pages_vma_npages: "n < 2 ^ 31 \<Longrightarrow> vma_npages (pages_vma n) = int n"
proof -
  assume n: "n < 2 ^ 31"
  then have "unat (of_nat (4096 * n) :: u64) = 4096 * n"
    by (intro u64_of_nat_inverse) simp
  then show ?thesis
    using n div_exact [of 4095 4096 n] by (subst vma_npages_ceil) (simp_all add: pages_vma_def)
qed

lemma quiet_mmap:
  assumes "ring_inv (c_mmap_info cd)" and "0 < n" and "ring_used (c_mmap_info cd) + int n \<le> 1023"
  shows "\<exists>h'. mmap_kmem quiet_env cd (pages_vma n) h = (0, cd\<lparr>c_mmap_info := (c_mmap_info cd)
     \<lparr>mi_last := (mi_last (c_mmap_info cd) + int n) mod 1024, mi_active := 1\<rparr>\<rparr>, h')"
proof -
  have "0 \<le> ring_used (c_mmap_info cd)"
    by (simp add: ring_used_def MAX_PAGES_def)
  then have n: "vma_npages (pages_vma n) = int n"
    using assms(3) by (intro pages_vma_npages) simp
  have al: "ring_alloc (int n) (c_mmap_info cd) = Some ((c_mmap_info cd)
     \<lparr>mi_last := (mi_last (c_mmap_info cd) + int n) mod 1024, mi_active := 1\<rparr>)"
    using assms by (subst ring_alloc_spec) simp_all
  then show ?thesis
    by (auto simp: mmap_kmem_def ring_alloc_def n kcall_defs Let_def quiet_env_def split: if_splits)
qed


section \<open>Witnesses\<close>

theorem mmap_fifo_refinement_witness:
  "\<exists>cd live h. fold (mmap_step quiet_env) [Mmap (pages_vma 3), Close] (zero_card, [], []) = (cd, live, h) \<and>
     ring_used (c_mmap_info cd) = sum_list (map vma_npages live)"
proof -
  obtain cd live h where eq: "fold (mmap_step quiet_env) [Mmap (pages_vma 3), Close] (zero_card, [], [])
      = (cd, live, h)" by (metis prod_cases3)
  with mmap_fifo_refinement [OF _ eq] show ?thesis by (auto simp: pages_vma_npages)
qed


theorem mmap_kmem_outcome_witness:
  "\<exists>r cd h. mmap_kmem quiet_env zero_card (pages_vma 4) [] = (r, cd, h) \<and> r = 0 \<and>
    ring_used (c_mmap_info cd) = 4"
proof -
  have u: "ring_inv (c_mmap_info zero_card)" "ring_used (c_mmap_info zero_card) = 0"
    by (simp_all add: ring_inv_def ring_used_def MAX_PAGES_def zero_card_def)
  obtain cd h where eq: "mmap_kmem quiet_env zero_card (pages_vma 4) [] = (0, cd, h)"
    using quiet_mmap [OF u(1), of 4 "[]"] u(2) by auto
  then show ?thesis
    using mmap_kmem_outcome [OF u(1) _ eq] u(2)
    by (auto simp: pages_vma_npages EAGAIN_def split: if_splits)
qed

end
