(* ===== verification/Nfp_Ioctl.thy ===== *)
theory Nfp_Ioctl
  imports Reg Nfp_Dma Nfp_Mem Mmap_Ring
begin

unbundle bit_operations_syntax

text \<open>
  The character device (src/HOST/driver/nfpioctl.c): file operations, the ioctl handler with its
  semaphore, the copies from and to user memory and the translation of descriptor addresses.
\<close>

section \<open>State and operations\<close>

record kst =
  k_card :: nfp_card
  k_dma :: dma_glob
  k_mem :: mem_glob
  k_hist :: khist

definition ENOTTY :: int where
  "ENOTTY = 25"

definition ERESTARTSYS :: int where
  "ERESTARTSYS = 512"

text \<open>The struct a command's argument points to, as copied into the kernel.\<close>

datatype uarg = NoArg | ArgReg reg32 | ArgWord u64 | ArgDesc dma_descriptor_sw | ArgBuf dma_buffer

text \<open>\<open>nfp_open\<close> stores the card in the file's private data, \<open>nfp_release\<close> clears it; read
  delivers nothing and write consumes everything.\<close>

definition nfp_open :: "nfp_card \<Rightarrow> nfp_card option \<Rightarrow> int \<times> nfp_card option" where
  "nfp_open cd private_data = (0, Some cd)"

definition nfp_release :: "nfp_card option \<Rightarrow> int \<times> nfp_card option" where
  "nfp_release private_data = (0, None)"

definition nfp_read :: "u64 \<Rightarrow> int" where
  "nfp_read len = 0"

definition nfp_write :: "u64 \<Rightarrow> u64" where
  "nfp_write len = len"

text \<open>One \<open>copy_from_user\<close> of \<open>n\<close> words: \<open>None\<close> when it reports bytes not copied.\<close>

definition copy_struct :: "kenv \<Rightarrow> u64 \<Rightarrow> nat \<Rightarrow> khist \<Rightarrow> u64 list option \<times> khist" where
  "copy_struct E arg n h =
     (let (r, ws, h) = kdo_out E (CopyFromUser arg (8 * n)) h
      in (if r \<noteq> 0 then None else Some (words_of n ws), h))"

definition copy_argument :: "kenv \<Rightarrow> u32 \<Rightarrow> u64 \<Rightarrow> khist \<Rightarrow> uarg option \<times> khist" where
  "copy_argument E cmd arg h =
     (if cmd = NFPIOC_READ_32 \<or> cmd = NFPIOC_WRITE_32 then
        map_prod (map_option (ArgReg \<circ> words_reg32)) id (copy_struct E arg 2 h)
      else if cmd = NFPIOC_WINDOW_SIZE then
        map_prod (map_option (\<lambda>ws. ArgWord (ws ! 0))) id (copy_struct E arg 1 h)
      else if cmd = NFPIOC_WRITE_DMA_DESCRIPTOR \<or> cmd = NFPIOC_READ_DMA_DESCRIPTOR then
        map_prod (map_option (ArgDesc \<circ> words_dma_descriptor_sw)) id (copy_struct E arg 13 h)
      else if cmd = NFPIOC_REGISTER_BUFFER then
        map_prod (map_option (ArgBuf \<circ> words_dma_buffer)) id (copy_struct E arg 5 h)
      else (Some NoArg, h))"

text \<open>The address handed to the descriptor logic. Without a registered buffer it is an offset into
  the mmap buffer; with one it is translated through the table of huge pages, unless the request
  leaves its huge page (\<open>Inr None\<close>: the error message).\<close>

definition translate_address :: "nfp_card \<Rightarrow> dma_descriptor_sw \<Rightarrow> fault + u64 option" where
  "translate_address cd dd =
     (let b = c_buffer cd; mi = c_mmap_info cd
      in if m_virtual b = 0 then
           Inr (Some (mi_page_list mi + (u64_of_int (mi_first mi) + dd_address dd)))
         else
           case udiv (dd_address dd + dd_length dd) (m_page_size b) of
             Inl f \<Rightarrow> Inl f
           | Inr q \<Rightarrow>
               if q = dd_address dd div m_page_size b then
                 if PAGE_ADDRESS_SLOTS \<le> unat q then Inl OutOfBounds
                 else Inr (Some (m_page_address b (unat q) + dd_address dd mod m_page_size b))
               else Inr None)"

definition translation_error :: string where
  "translation_error = ''nfp: Error while computing the physical address of the memory''"

text \<open>A \<open>copy_to_user\<close> with the message when it fails.\<close>

definition copy_back :: "kenv \<Rightarrow> u64 \<Rightarrow> u64 list \<Rightarrow> khist \<Rightarrow> khist" where
  "copy_back E arg ws h =
     (let (r, h) = kdo E (CopyToUser arg ws) h
      in if r \<noteq> 0 then emit (Printk ''nfp: It was impossible to access user variable'') h else h)"

text \<open>The \<open>switch\<close> of the handler, for the argument copied before.\<close>

definition ioctl_dispatch ::
  "kenv \<Rightarrow> u32 \<Rightarrow> u64 \<Rightarrow> uarg \<Rightarrow> kst \<Rightarrow> (fault + kst) option" where
  "ioctl_dispatch E cmd arg u st =
     (let cd = k_card st; h = k_hist st
      in case u of
           ArgWord ws \<Rightarrow> Some (Inr (st\<lparr>k_hist := dma_set_window_size ws cd h\<rparr>))
         | ArgReg r \<Rightarrow>
             if cmd = NFPIOC_WRITE_32 then Some (Inr (st\<lparr>k_hist := WriteReg32 r cd h\<rparr>))
             else
               let (r, h) = ReadReg32 E r cd h
               in Some (Inr (st\<lparr>k_hist := copy_back E arg (reg32_words r) h\<rparr>))
         | ArgDesc dd \<Rightarrow>
             (case translate_address cd dd of
                Inl f \<Rightarrow> Some (Inl f)
              | Inr None \<Rightarrow> Some (Inr (st\<lparr>k_hist := emit (Printk translation_error) h\<rparr>))
              | Inr (Some a) \<Rightarrow>
                  let dd = dd\<lparr>dd_address := a\<rparr>
                  in if cmd = NFPIOC_WRITE_DMA_DESCRIPTOR then
                       (case writeDMADescriptor E dd cd (k_dma st) h of
                          None \<Rightarrow> None
                        | Some (Inl f) \<Rightarrow> Some (Inl f)
                        | Some (Inr (_, g, h)) \<Rightarrow> Some (Inr (st\<lparr>k_dma := g, k_hist := h\<rparr>)))
                     else
                       let (_, dd, h) = readDMADescriptor E dd cd h
                       in Some (Inr (st\<lparr>k_hist := copy_back E arg (dma_descriptor_sw_words dd) h\<rparr>)))
         | ArgBuf db \<Rightarrow>
             (case reg_hugemem E cd db (k_mem st) h of
                Inl f \<Rightarrow> Some (Inl f)
              | Inr (_, mg, cd, h) \<Rightarrow>
                  Some (Inr (st\<lparr>k_card := cd, k_mem := mg, k_hist := h\<rparr>)))
         | NoArg \<Rightarrow>
             if cmd = NFPIOC_UNREGISTER_BUFFER then
               let (_, mg, cd, h) = unreg_hugemem E cd (k_mem st) h
               in Some (Inr (st\<lparr>k_card := cd, k_mem := mg, k_hist := h\<rparr>))
             else Some (Inr (st\<lparr>k_hist := emit (Printk ''nfp: IOCTL command not recognized'') h\<rparr>)))"

definition nfp_ioctl :: "kenv \<Rightarrow> u32 \<Rightarrow> u64 \<Rightarrow> kst \<Rightarrow> (fault + int \<times> kst) option" where
  "nfp_ioctl E cmd arg st =
     (if IOC_TYPE cmd \<noteq> IOCTL_MAGIC_NUMBER then Some (Inr (- ENOTTY, st))
      else if IOC_MAXNR < IOC_NR cmd then Some (Inr (- ENOTTY, st))
      else
        let (r, h) = kdo E DownInterruptible (k_hist st)
        in if r \<noteq> 0 then Some (Inr (- ERESTARTSYS, st\<lparr>k_hist := emit Up h\<rparr>))
           else
             case copy_argument E cmd arg h of
               (None, h) \<Rightarrow>
                 Some (Inr (- EFAULT, st\<lparr>k_hist :=
                   emit (Printk ''nfp: user variables cannot be accessed'') (emit Up h)\<rparr>))
             | (Some u, h) \<Rightarrow>
                 (case ioctl_dispatch E cmd arg u (st\<lparr>k_hist := h\<rparr>) of
                    None \<Rightarrow> None
                  | Some (Inl f) \<Rightarrow> Some (Inl f)
                  | Some (Inr st) \<Rightarrow> Some (Inr (0, st\<lparr>k_hist := emit Up (k_hist st)\<rparr>))))"

section \<open>The calls of the operations\<close>

text \<open>The kernel services that serve a request: user memory, pages, device memory, the clock and
  messages; and with them those that hand out something to be given back, DMA mappings and memory.
  None of them touches the semaphore or the resources of the device.\<close>

fun plain_call :: "kcall \<Rightarrow> bool" where
  "plain_call (Printk m) = True"
| "plain_call DownRead = True"
| "plain_call UpRead = True"
| "plain_call (CopyFromUser a n) = True"
| "plain_call (CopyToUser a ws) = True"
| "plain_call (GetUserPages a n) = True"
| "plain_call (PageAddress p) = True"
| "plain_call (PageReserved p) = True"
| "plain_call (SetPageDirty p) = True"
| "plain_call (PutPage p) = True"
| "plain_call (VirtToPage p) = True"
| "plain_call (VirtToPhys p) = True"
| "plain_call (RemapPfnRange a p n f) = True"
| "plain_call (IoWrite32 a v) = True"
| "plain_call (IoRead32 a) = True"
| "plain_call (MemcpyToIo a n v) = True"
| "plain_call (MemcpyFromIo a n) = True"
| "plain_call (Store16 a v) = True"
| "plain_call (Load8 a) = True"
| "plain_call KtimeGetUs = True"
| "plain_call _ = False"

fun service_call :: "kcall \<Rightarrow> bool" where
  "service_call (Vmalloc n) = True"
| "service_call (Vfree p) = True"
| "service_call (PciMapSingle a n) = True"
| "service_call (PciUnmapSingle a n) = True"
| "service_call c = plain_call c"

fun dma_call :: "kcall \<Rightarrow> bool" where
  "dma_call (PciMapSingle a n) = True"
| "dma_call (PciUnmapSingle a n) = True"
| "dma_call c = plain_call c"

lemma dma_service: "dma_call c \<Longrightarrow> service_call c"
  by (cases c) simp_all

lemma plain_service: "plain_call c \<Longrightarrow> service_call c"
  by (cases c) simp_all

lemma WriteReg32_plain: "extends plain_call h (WriteReg32 r cd h)"
  by (auto simp: WriteReg32_def intro!: extends_intros split: option.splits)

lemma ReadReg32_plain: "extends plain_call h (snd (ReadReg32 E r cd h))"
  by (auto simp: ReadReg32_def kdo_def intro!: extends_intros split: option.splits)

lemma copy_back_plain: "extends plain_call h h1 \<Longrightarrow> extends plain_call h (copy_back E arg ws h1)"
  by (auto simp: copy_back_def kdo_def Let_def intro!: extends_intros)

lemma readDMADescriptor_plain: "extends plain_call h (snd (snd (readDMADescriptor E dd cd h)))"
  by (simp add: readDMADescriptor_def kdo_def Let_def extends_def)

lemma setup_writes_dma: "list_all dma_call (setup_writes dma dd pa ld)"
  by (simp add: setup_writes_def)

lemma mappings_dma: "list_all dma_call (mappings_from i g)"
  by (simp add: mappings_from_def list_all_iff)

lemma writeDMADescriptor_dma:
  assumes "writeDMADescriptor E dd cd g h = Some (Inr (r, g', h'))"
  shows "extends dma_call h h'"
proof (cases "dd_enable dd = 0")
  case True
  then have "(g', h') = setup_descriptor E dd cd g h"
    using assms by (auto simp: writeDMADescriptor_def split: if_splits prod.splits)
  then show ?thesis
    by (auto simp: setup_descriptor_eq Let_def intro!: extends_intros setup_writes_dma)
next
  case False
  show ?thesis
  proof (rule write_enabled [OF assms False])
    fix pa s e es
    assume h': "h' = emits (mappings_from 0 (mapped_glob dd pa g))
       (emits (setup_writes (c_dma cd) dd pa (g_ldescriptor g))
          (h @ [(PciMapSingle (dd_address dd) (dd_buffer_size dd), pa)])
        @ (KtimeGetUs, s) # (MemcpyToIo (c_dma cd) 4 (ucast (control_word dd OR 1)), 0) # es)"
      and es: "set (calls es) \<subseteq> {KtimeGetUs, Load8 (c_dma cd), Printk ''Exit by timeout''}"
    have "list_all dma_call (calls es)"
      using es by (auto simp: list_all_iff)
    then show ?thesis
      unfolding h' using setup_writes_dma
      by (intro extends_emits mappings_dma)
        (auto simp: extends_def emits_def calls_def comp_def)
  qed
qed

lemma writeDMADescriptor_service:
  "writeDMADescriptor E dd cd g h = Some (Inr (r, g', h')) \<Longrightarrow> extends service_call h h'"
  by (rule extends_mono [OF dma_service writeDMADescriptor_dma])

lemma forget_loop_plain: "extends plain_call h (forget_loop E pages num i h)"
proof (induction E pages num i h rule: forget_loop.induct)
  case (1 E pages num i h)
  show ?case
    by (subst forget_loop.simps)
      (auto simp: Let_def kdo_def split: prod.splits
        intro!: extends_trans [OF _ 1] extends_intros)
qed

lemma unreg_hugemem_service: "extends service_call h (snd (snd (snd (unreg_hugemem E cd mg h))))"
  by (auto simp: unreg_hugemem_def forgetUserHugePages_def Let_def
      intro!: extends_intros extends_mono [OF plain_service forget_loop_plain])

lemma fill_page_address_plain:
  "fill_page_address E pag npages hp n i tab h = Inr (tab', h') \<Longrightarrow> extends plain_call h h'"
proof (induction E pag npages hp n i tab h rule: fill_page_address.induct)
  case (1 E pag npages hp n i tab h)
  let ?k = "hp div PAGE_SIZE * of_nat i :: u64"
  obtain a h1 where a: "(a, h1) = kdo E (PageAddress (pag (unat ?k))) h"
    by (metis prod.exhaust)
  then have h1: "extends plain_call h h1"
    by (auto simp: kdo_def intro: extends_intros)
  show ?case
  proof (cases "i < n")
    case True
    have rec: "\<not> npages \<le> ?k \<and> \<not> PAGE_ADDRESS_SLOTS \<le> i \<and>
        fill_page_address E pag npages hp n (i + 1) (tab(i := a)) h1 = Inr (tab', h')"
      using "1.prems" True
      by (subst (asm) fill_page_address.simps) (simp add: Let_def a [symmetric] split: if_splits)
    then have "extends plain_call h1 h'"
      using "1.IH" [OF True refl _ a refl] by (simp add: fun_upd_def)
    with h1 show ?thesis by (rule extends_trans)
  next
    case False
    then show ?thesis
      using "1.prems" by (subst (asm) fill_page_address.simps) simp
  qed
qed

lemma getUserHugePages_calls:
  assumes "getUserHugePages E db cd mg h = Inr (r, mg', cd', h')"
  defines "n \<equiv> user_npages db * 8"
  shows "r = - EFAULT \<and> mg' = mg \<and> cd' = cd \<and> h' = h @ [(Vmalloc n, 0)] \<or>
    mg_pages_ptr mg' \<noteq> 0 \<and> extends plain_call (h @ [(Vmalloc n, mg_pages_ptr mg')]) h' \<and>
      (\<exists>b. cd' = cd\<lparr>c_buffer := b\<rparr>)"
proof -
  define h1 where "h1 = h @ [(Vmalloc n, kret E h (Vmalloc n))]"
  define h2 where "h2 = emit UpRead (snd (snd (kdo_out E (GetUserPages (db_data db) (user_npages db))
      (emit DownRead h1))))"
  have "extends plain_call h1 h2"
    unfolding h2_def by (auto simp: kdo_out_def intro!: extends_intros)
  then show ?thesis
    using assms(1)
    by (auto simp: getUserHugePages_def n_def h1_def h2_def kdo_def kdo_out_def Let_def
        dest!: fill_page_address_plain intro: extends_trans split: sum.splits if_splits)
qed

lemma getUserHugePages_service:
  assumes "getUserHugePages E db cd mg h = Inr (r, mg', cd', h')"
  shows "extends service_call h h'"
proof -
  have v: "extends service_call h (h @ [(Vmalloc n, p)])" for n p
    by (intro extends_intros) simp
  show ?thesis
    using getUserHugePages_calls [OF assms] v extends_trans [OF v extends_mono [OF plain_service]] by auto
qed

lemma reg_hugemem_sem:
  assumes "reg_hugemem E cd db mg h = Inr (r, mg', cd', h')"
  shows "if r = 0 then extends service_call h h'
    else \<exists>h1. extends service_call h h1 \<and>
      h' = h1 @ [(Up, 0), (Printk ''nfp: user memory cant be mapped'', 0)]"
  using assms
  by (auto simp: reg_hugemem_def Let_def emit_def EFAULT_def dest!: getUserHugePages_service
      split: sum.splits if_splits)

lemma copy_argument_plain: "extends plain_call h (snd (copy_argument E cmd arg h))"
  by (auto simp: copy_argument_def copy_struct_def kdo_out_def Let_def intro!: extends_intros)

lemma copy_argument_buffer:
  "copy_argument E cmd arg h = (Some (ArgBuf db), h') \<Longrightarrow> cmd = NFPIOC_REGISTER_BUFFER"
  by (auto simp: copy_argument_def copy_struct_def kdo_out_def Let_def split: if_splits)

text \<open>What serving a command does: plain calls only, or one of the three operations that keep
  something.\<close>

lemma ioctl_dispatch_outcome:
  assumes "ioctl_dispatch E cmd arg u st = Some (Inr st')"
  obtains (plain) h where "st' = st\<lparr>k_hist := h\<rparr>" "extends plain_call (k_hist st) h"
  | (descriptor) dd r g h where "u = ArgDesc dd" "st' = st\<lparr>k_dma := g, k_hist := h\<rparr>"
      "\<exists>a. writeDMADescriptor E (dd\<lparr>dd_address := a\<rparr>) (k_card st) (k_dma st) (k_hist st) = Some (Inr (r, g, h))"
  | (register) db r mg cd h where "u = ArgBuf db" "st' = st\<lparr>k_card := cd, k_mem := mg, k_hist := h\<rparr>"
      "reg_hugemem E (k_card st) db (k_mem st) (k_hist st) = Inr (r, mg, cd, h)"
  | (unregister) r mg cd h where "u = NoArg" "st' = st\<lparr>k_card := cd, k_mem := mg, k_hist := h\<rparr>"
      "unreg_hugemem E (k_card st) (k_mem st) (k_hist st) = (r, mg, cd, h)"
proof (cases u)
  case (ArgReg r)
  obtain r' h' where rd: "ReadReg32 E r (k_card st) (k_hist st) = (r', h')" by fastforce
  then have "extends plain_call (k_hist st) h'" using ReadReg32_plain [of "k_hist st" E r "k_card st"] by simp
  then show ?thesis
    using assms ArgReg rd WriteReg32_plain [of "k_hist st" r "k_card st"] plain
    by (auto simp: ioctl_dispatch_def Let_def intro!: copy_back_plain split: if_splits)
next
  case (ArgDesc dd)
  consider (refused) "translate_address (k_card st) dd = Inr None" |
    (translated) a where "translate_address (k_card st) dd = Inr (Some a)"
    using assms ArgDesc by (auto simp: ioctl_dispatch_def Let_def split: sum.splits option.splits)
  then show ?thesis
  proof cases
    case refused
    then show ?thesis
      using assms ArgDesc by (intro plain) (auto simp: ioctl_dispatch_def Let_def intro!: extends_intros)
  next
    case (translated a)
    obtain v d' h' where rd: "readDMADescriptor E (dd\<lparr>dd_address := a\<rparr>) (k_card st) (k_hist st) = (v, d', h')"
      by (metis prod_cases3)
    then have e: "extends plain_call (k_hist st) h'"
      using readDMADescriptor_plain [of "k_hist st" E "dd\<lparr>dd_address := a\<rparr>" "k_card st"] by simp
    show ?thesis
    proof (cases "cmd = NFPIOC_WRITE_DMA_DESCRIPTOR")
      case True
      then obtain r g h where "writeDMADescriptor E (dd\<lparr>dd_address := a\<rparr>) (k_card st) (k_dma st) (k_hist st)
          = Some (Inr (r, g, h))" "st' = st\<lparr>k_dma := g, k_hist := h\<rparr>"
        using assms ArgDesc translated
        by (auto simp: ioctl_dispatch_def Let_def split: sum.splits option.splits)
      then show ?thesis using ArgDesc descriptor by blast
    next
      case False
      then have "st' = st\<lparr>k_hist := copy_back E arg (dma_descriptor_sw_words d') h'\<rparr>"
        using assms ArgDesc translated rd by (simp add: ioctl_dispatch_def Let_def)
      then show ?thesis using copy_back_plain [OF e] by (rule plain)
    qed
  qed
next
  case (ArgBuf db)
  then show ?thesis
    using assms register by (auto simp: ioctl_dispatch_def Let_def split: sum.splits)
next
  case NoArg
  show ?thesis
  proof (cases "cmd = NFPIOC_UNREGISTER_BUFFER")
    case True
    then show ?thesis
      using assms NoArg unregister by (auto simp: ioctl_dispatch_def Let_def split: prod.splits)
  next
    case False
    then show ?thesis
      using assms NoArg by (intro plain) (auto simp: ioctl_dispatch_def Let_def intro!: extends_intros)
  qed
next
  case (ArgWord w)
  then show ?thesis
    using assms
    by (intro plain) (auto simp: ioctl_dispatch_def Let_def dma_set_window_size_def intro!: extends_intros)
qed

lemma ioctl_dispatch_service:
  assumes "ioctl_dispatch E cmd arg u st = Some (Inr st')" and "\<forall>db. u \<noteq> ArgBuf db"
  shows "extends service_call (k_hist st) (k_hist st')"
  using assms(1)
proof (cases rule: ioctl_dispatch_outcome)
  case (plain h)
  then show ?thesis by (simp add: extends_mono [OF plain_service])
next
  case (descriptor dd r g h)
  then show ?thesis by (auto dest: writeDMADescriptor_service)
next
  case (register db r mg cd h)
  then show ?thesis using assms(2) by simp
next
  case (unregister r mg cd h)
  then show ?thesis using unreg_hugemem_service [of "k_hist st" E "k_card st" "k_mem st"] by simp
qed

section \<open>Properties of the handler\<close>

text \<open>
  A command with a foreign magic number or a number above the driver's range is refused with
  \<open>-ENOTTY\<close> and changes nothing: no semaphore operation, no access to user memory or device.
\<close>

theorem ioctl_rejects:
  assumes "IOC_TYPE cmd \<noteq> IOCTL_MAGIC_NUMBER \<or> IOC_MAXNR < IOC_NR cmd"
  shows "nfp_ioctl E cmd arg st = Some (Inr (- ENOTTY, st))"
  using assms by (auto simp: nfp_ioctl_def)

lemma nfp_ioctl_locks:
  assumes "nfp_ioctl E cmd arg st = Some (Inr (r, st'))"
    and "IOC_TYPE cmd = IOCTL_MAGIC_NUMBER" and "IOC_NR cmd \<le> IOC_MAXNR"
    and "kret E (k_hist st) DownInterruptible = 0" and "cmd \<noteq> NFPIOC_REGISTER_BUFFER"
  shows "\<exists>mid tail. k_hist st' = k_hist st @ (DownInterruptible, 0) # mid @ (Up, 0) # tail \<and>
    list_all service_call (calls mid) \<and> (r = 0 \<and> tail = [] \<or>
      r = - EFAULT \<and> tail = [(Printk ''nfp: user variables cannot be accessed'', 0)])"
proof -
  let ?h0 = "k_hist st @ [(DownInterruptible, 0)]"
  obtain u h1 where copy: "copy_argument E cmd arg ?h0 = (u, h1)" by fastforce
  have e1: "extends service_call ?h0 h1"
    using extends_mono [OF plain_service copy_argument_plain [of ?h0 E cmd arg]] copy by simp
  have run: "nfp_ioctl E cmd arg st = (case u of
      None \<Rightarrow> Some (Inr (- EFAULT, st\<lparr>k_hist :=
                   emit (Printk ''nfp: user variables cannot be accessed'') (emit Up h1)\<rparr>))
    | Some u \<Rightarrow> (case ioctl_dispatch E cmd arg u (st\<lparr>k_hist := h1\<rparr>) of
                    None \<Rightarrow> None
                  | Some (Inl f) \<Rightarrow> Some (Inl f)
                  | Some (Inr st) \<Rightarrow> Some (Inr (0, st\<lparr>k_hist := emit Up (k_hist st)\<rparr>))))"
    using assms(2,4) leD [OF assms(3)] copy by (simp add: nfp_ioctl_def kdo_def split: option.splits)
  show ?thesis
  proof (cases u)
    case None
    then show ?thesis
      using run assms(1) e1 by (force simp: extends_def emit_def)
  next
    case (Some v)
    have nb: "\<forall>db. v \<noteq> ArgBuf db"
      using copy Some assms(5) copy_argument_buffer by blast
    obtain st1 where st1: "ioctl_dispatch E cmd arg v (st\<lparr>k_hist := h1\<rparr>) = Some (Inr st1)"
      "r = 0" "st' = st1\<lparr>k_hist := emit Up (k_hist st1)\<rparr>"
      using run assms(1) Some by (auto split: option.splits sum.splits)
    have "extends service_call ?h0 (k_hist st1)"
      using e1 ioctl_dispatch_service [OF st1(1) nb] extends_trans by auto
    then show ?thesis
      using st1 by (force simp: extends_def emit_def)
  qed
qed

text \<open>The states and environments the closed instances below start from.\<close>

definition idle_kst :: kst where
  "idle_kst = \<lparr>k_card = zero_card, k_dma = init_dma_glob, k_mem = init_mem_glob, k_hist = []\<rparr>"

definition failing_env :: "kcall \<Rightarrow> u64 \<Rightarrow> kenv" where
  "failing_env c r = idle_env\<lparr>kret := (\<lambda>h c'. if c' = c then r else 0)\<rparr>"

lemma window_run:
  "nfp_ioctl idle_env NFPIOC_WINDOW_SIZE 0 idle_kst = Some (Inr (0, idle_kst\<lparr>k_hist :=
     dma_set_window_size 0 zero_card [(DownInterruptible, 0), (CopyFromUser 0 8, 0)] @ [(Up, 0)]\<rparr>))"
  by (simp add: nfp_ioctl_def kdo_def kdo_out_def idle_env_def idle_kst_def copy_argument_def
      copy_struct_def ioctl_dispatch_def Let_def emit_def layout_simps IOC_TYPE_def IOC_NR_def
      IOCTL_MAGIC_NUMBER_def IOC_MAXNR_def)

lemma window_command:
  "IOC_TYPE NFPIOC_WINDOW_SIZE = IOCTL_MAGIC_NUMBER" "IOC_NR NFPIOC_WINDOW_SIZE \<le> IOC_MAXNR"
  "NFPIOC_WINDOW_SIZE \<noteq> NFPIOC_REGISTER_BUFFER"
  by (simp_all add: layout_simps IOC_TYPE_def IOC_NR_def IOCTL_MAGIC_NUMBER_def IOC_MAXNR_def)

theorem ioctl_rejects_witness:
  "nfp_ioctl idle_env 0x80103908 0 idle_kst = Some (Inr (- ENOTTY, idle_kst))"
  by (rule ioctl_rejects) (simp add: IOC_NR_def IOC_MAXNR_def)



text \<open>
  An interrupted wait for the semaphore releases what was never acquired: the handler returns
  \<open>-ERESTARTSYS\<close> after an \<open>up\<close> for which there was no successful \<open>down\<close>.
\<close>

theorem ioctl_interrupted_releases:
  assumes "IOC_TYPE cmd = IOCTL_MAGIC_NUMBER" and "IOC_NR cmd \<le> IOC_MAXNR"
    and "kret E (k_hist st) DownInterruptible = e" and "e \<noteq> 0"
  shows "nfp_ioctl E cmd arg st = Some (Inr (- ERESTARTSYS,
     st\<lparr>k_hist := k_hist st @ [(DownInterruptible, e), (Up, 0)]\<rparr>))"
  using assms(1,3,4) leD [OF assms(2)] by (simp add: nfp_ioctl_def kdo_def emit_def)

theorem ioctl_interrupted_releases_witness:
  "nfp_ioctl (failing_env DownInterruptible 4) NFPIOC_WINDOW_SIZE 0 idle_kst =
     Some (Inr (- ERESTARTSYS, idle_kst\<lparr>k_hist := [(DownInterruptible, 4), (Up, 0)]\<rparr>))"
  using ioctl_interrupted_releases [OF window_command(1,2), of "failing_env DownInterruptible 4"
      idle_kst 4 0]
  by (simp add: failing_env_def idle_kst_def)

text \<open>
  C22. A buffer registration that the kernel refuses releases the semaphore twice: once in
  \<open>reg_hugemem\<close> and again at the end of the handler, which then returns 0.
\<close>

theorem ioctl_failed_registration_releases_twice:
  assumes "kret E (k_hist st) DownInterruptible = 0"
    and "copy_argument E NFPIOC_REGISTER_BUFFER arg (k_hist st @ [(DownInterruptible, 0)])
       = (Some (ArgBuf db), h1)"
    and "reg_hugemem E (k_card st) db (k_mem st) h1 = Inr (- EFAULT, mg', cd', h2)"
  shows "\<exists>mid st'. nfp_ioctl E NFPIOC_REGISTER_BUFFER arg st = Some (Inr (0, st')) \<and>
    list_all service_call (calls mid) \<and>
    k_hist st' = k_hist st @ (DownInterruptible, 0) # mid
      @ [(Up, 0), (Printk ''nfp: user memory cant be mapped'', 0), (Up, 0)]"
proof -
  let ?h0 = "k_hist st @ [(DownInterruptible, 0)]"
  have cmd: "IOC_TYPE NFPIOC_REGISTER_BUFFER = IOCTL_MAGIC_NUMBER"
    "\<not> IOC_MAXNR < IOC_NR NFPIOC_REGISTER_BUFFER"
    by (simp_all add: layout_simps IOC_TYPE_def IOC_NR_def IOCTL_MAGIC_NUMBER_def IOC_MAXNR_def)
  have "nfp_ioctl E NFPIOC_REGISTER_BUFFER arg st = Some (Inr (0,
      st\<lparr>k_card := cd', k_mem := mg', k_hist := emit Up h2\<rparr>))"
    using assms cmd by (simp add: nfp_ioctl_def kdo_def ioctl_dispatch_def Let_def)
  moreover have "extends service_call ?h0 h1"
    using extends_mono [OF plain_service copy_argument_plain [of ?h0 E NFPIOC_REGISTER_BUFFER arg]] assms(2) by simp
  moreover obtain h3 where "extends service_call h1 h3"
    "h2 = h3 @ [(Up, 0), (Printk ''nfp: user memory cant be mapped'', 0)]"
    using reg_hugemem_sem [OF assms(3)] by (auto simp: EFAULT_def)
  ultimately show ?thesis
    using extends_trans [of service_call ?h0 h1 h3] by (auto simp: extends_def emit_def)
qed

theorem ioctl_failed_registration_releases_twice_witness:
  "\<exists>mid st'. nfp_ioctl idle_env NFPIOC_REGISTER_BUFFER 0 idle_kst = Some (Inr (0, st')) \<and>
    list_all service_call (calls mid) \<and>
    k_hist st' = (DownInterruptible, 0) # mid
      @ [(Up, 0), (Printk ''nfp: user memory cant be mapped'', 0), (Up, 0)]"
proof -
  let ?h1 = "[(DownInterruptible, 0), (CopyFromUser 0 40, 0)]"
  let ?db = "words_dma_buffer (words_of 5 (\<lambda>_. 0))"
  have copy: "copy_argument idle_env NFPIOC_REGISTER_BUFFER 0
      (k_hist idle_kst @ [(DownInterruptible, 0)]) = (Some (ArgBuf ?db), ?h1)"
    by (simp add: copy_argument_def copy_struct_def kdo_out_def idle_env_def idle_kst_def Let_def
        layout_simps)
  have "\<exists>mg cd h. reg_hugemem idle_env (k_card idle_kst) ?db (k_mem idle_kst) ?h1
      = Inr (- EFAULT, mg, cd, h)"
    by (simp add: reg_hugemem_def getUserHugePages_def kdo_def idle_env_def Let_def EFAULT_def)
  then obtain mg cd h where reg: "reg_hugemem idle_env (k_card idle_kst) ?db (k_mem idle_kst) ?h1
      = Inr (- EFAULT, mg, cd, h)" by blast
  show ?thesis
    using ioctl_failed_registration_releases_twice [OF _ copy reg]
    by (simp add: idle_env_def idle_kst_def)
qed

section \<open>Concurrent callers\<close>

text \<open>What other callers of the handler see of one call: its successful \<open>down\<close>s and its \<open>up\<close>s,
  in order. Calls of several tasks interleave at these operations; \<open>Acquire\<close> waits for a
  positive count.\<close>

datatype sem_event = Acquire | Release

fun sem_events :: "khist \<Rightarrow> sem_event list" where
  "sem_events [] = []"
| "sem_events ((c, r) # h) =
     (if c = Up then Release # sem_events h
      else if c = DownInterruptible \<and> r = 0 then Acquire # sem_events h
      else sem_events h)"

record ioctl_call =
  ic_env :: kenv
  ic_cmd :: u32
  ic_arg :: u64
  ic_st :: kst

definition ioctl_events :: "ioctl_call \<Rightarrow> sem_event list" where
  "ioctl_events c =
     (case nfp_ioctl (ic_env c) (ic_cmd c) (ic_arg c) (ic_st c) of
        Some (Inr (_, st)) \<Rightarrow> sem_events (drop (length (k_hist (ic_st c))) (k_hist st))
      | _ \<Rightarrow> [])"

inductive sem_step :: "nat \<times> sem_event list list \<Rightarrow> nat \<times> sem_event list list \<Rightarrow> bool" where
  acquire: "i < length ps \<Longrightarrow> ps ! i = Acquire # p \<Longrightarrow> sem_step (Suc n, ps) (n, ps[i := p])"
| release: "i < length ps \<Longrightarrow> ps ! i = Release # p \<Longrightarrow> sem_step (n, ps) (Suc n, ps[i := p])"

inductive_cases sem_stepE: "sem_step s t"

text \<open>\<open>inside ps\<close>: the callers that still have a \<open>Release\<close> to do and nothing before it.\<close>

definition inside :: "sem_event list list \<Rightarrow> nat" where
  "inside ps = length (filter (\<lambda>p. p = [Release]) ps)"

lemma sem_events_append [simp]: "sem_events (h @ h') = sem_events h @ sem_events h'"
  by (induction h rule: sem_events.induct) auto

lemma sem_events_service: "list_all service_call (calls h) \<Longrightarrow> sem_events h = []"
  by (induction h rule: sem_events.induct) auto

definition orderly :: "ioctl_call \<Rightarrow> bool" where
  "orderly c \<longleftrightarrow> IOC_TYPE (ic_cmd c) = IOCTL_MAGIC_NUMBER \<and> IOC_NR (ic_cmd c) \<le> IOC_MAXNR \<and>
     ic_cmd c \<noteq> NFPIOC_REGISTER_BUFFER \<and>
     kret (ic_env c) (k_hist (ic_st c)) DownInterruptible = 0 \<and>
     (case nfp_ioctl (ic_env c) (ic_cmd c) (ic_arg c) (ic_st c) of
        Some (Inr _) \<Rightarrow> True | _ \<Rightarrow> False)"

definition sem_inv :: "nat \<times> sem_event list list \<Rightarrow> bool" where
  "sem_inv s \<longleftrightarrow> fst s + inside (snd s) = 1 \<and>
     (\<forall>p\<in>set (snd s). p = [Acquire, Release] \<or> p = [Release] \<or> p = [])"

lemma inside_Acquire:
  "i < length ps \<Longrightarrow> ps ! i = [Acquire, Release] \<Longrightarrow> inside (ps[i := [Release]]) = Suc (inside ps)"
proof (induction ps arbitrary: i)
  case (Cons p ps)
  then show ?case by (cases i) (auto simp: inside_def)
qed simp

lemma inside_Release:
  "i < length ps \<Longrightarrow> ps ! i = [Release] \<Longrightarrow> inside ps = Suc (inside (ps[i := []]))"
proof (induction ps arbitrary: i)
  case (Cons p ps)
  then show ?case by (cases i) (auto simp: inside_def)
qed simp

lemma sem_step_inv:
  assumes "sem_step s t" and "sem_inv s"
  shows "sem_inv t"
  using assms(1)
proof (cases rule: sem_step.cases)
  case (acquire i ps p n)
  then have "p = [Release]"
    using assms(2) nth_mem [of i ps] by (auto simp: sem_inv_def)
  then show ?thesis
    using assms(2) acquire inside_Acquire [of i ps] set_update_subset_insert [of ps i "[Release]"]
    by (auto simp: sem_inv_def)
next
  case (release i ps p n)
  then have "p = []"
    using assms(2) nth_mem [of i ps] by (auto simp: sem_inv_def)
  then show ?thesis
    using assms(2) release inside_Release [of i ps] set_update_subset_insert [of ps i "[]"]
    by (auto simp: sem_inv_def)
qed

lemma orderly_events: "orderly c \<Longrightarrow> ioctl_events c = [Acquire, Release]"
proof -
  assume c: "orderly c"
  then obtain r st' where st': "nfp_ioctl (ic_env c) (ic_cmd c) (ic_arg c) (ic_st c)
      = Some (Inr (r, st'))"
    by (auto simp: orderly_def split: option.splits sum.splits)
  obtain mid tl' where "k_hist st' = k_hist (ic_st c) @ (DownInterruptible, 0) # mid @ (Up, 0) # tl'"
    "list_all service_call (calls mid)" "list_all service_call (calls tl')"
    using c nfp_ioctl_locks [OF st'] by (fastforce simp: orderly_def)
  then show ?thesis
    using st' by (simp add: ioctl_events_def sem_events_service)
qed

lemma sem_run_inv: "sem_step\<^sup>*\<^sup>* s t \<Longrightarrow> sem_inv s \<Longrightarrow> sem_inv t"
  by (induction rule: rtranclp_induct) (auto intro: sem_step_inv)


definition window_call :: ioctl_call where
  "window_call = \<lparr>ic_env = idle_env, ic_cmd = NFPIOC_WINDOW_SIZE, ic_arg = 0, ic_st = idle_kst\<rparr>"


text \<open>
  C21. One interrupted wait is enough to lose mutual exclusion: let one of three calls be
  interrupted while it waits; then the other two can both be inside the critical section.
\<close>

theorem ioctl_interrupt_breaks_exclusion:
  assumes "list_all orderly [c1, c2]"
    and "IOC_TYPE (ic_cmd c3) = IOCTL_MAGIC_NUMBER" and "IOC_NR (ic_cmd c3) \<le> IOC_MAXNR"
    and "kret (ic_env c3) (k_hist (ic_st c3)) DownInterruptible \<noteq> 0"
  shows "\<exists>n. sem_step\<^sup>*\<^sup>* (1, map ioctl_events [c1, c2, c3]) (n, [[Release], [Release], []])"
proof -
  have "\<not> IOC_MAXNR < IOC_NR (ic_cmd c3)" using assms(3) by simp
  then have 3: "ioctl_events c3 = [Release]"
    using assms(2,4) by (simp add: ioctl_events_def nfp_ioctl_def kdo_def emit_def)
  have 12: "ioctl_events c1 = [Acquire, Release]" "ioctl_events c2 = [Acquire, Release]"
    using assms(1) by (simp_all add: orderly_events)
  let ?ar = "[Acquire, Release]"
  have "sem_step (1, [?ar, ?ar, [Release]]) (2, [?ar, ?ar, []])"
    using sem_step.release [of 2 "[?ar, ?ar, [Release]]" "[]" 1] by (simp add: numeral_2_eq_2)
  moreover have "sem_step (2, [?ar, ?ar, []]) (1, [[Release], ?ar, []])"
    using sem_step.acquire [of 0 "[?ar, ?ar, []]" "[Release]" 1] by (simp add: numeral_2_eq_2)
  moreover have "sem_step (1, [[Release], ?ar, []]) (0, [[Release], [Release], []])"
    using sem_step.acquire [of 1 "[[Release], ?ar, []]" "[Release]" 0] by simp
  ultimately have "sem_step\<^sup>*\<^sup>* (1, [?ar, ?ar, [Release]]) (0, [[Release], [Release], []])"
    by (meson converse_rtranclp_into_rtranclp rtranclp.rtrancl_refl)
  then show ?thesis
    using 12 3 by auto
qed

theorem ioctl_interrupt_breaks_exclusion_witness:
  "\<exists>n. sem_step\<^sup>*\<^sup>* (1, map ioctl_events [window_call, window_call,
     window_call\<lparr>ic_env := failing_env DownInterruptible 4\<rparr>]) (n, [[Release], [Release], []])"
proof (rule ioctl_interrupt_breaks_exclusion)
  show "list_all orderly [window_call, window_call]"
    using window_command
    by (simp add: orderly_def window_call_def window_run) (simp add: idle_env_def)
qed (use window_command in \<open>simp_all add: window_call_def failing_env_def\<close>)

section \<open>Address translation\<close>


definition two_page_card :: nfp_card where
  "two_page_card = zero_card\<lparr>c_buffer := \<lparr>m_virtual = 0x200000, m_length = 16384,
     m_page_size = 8192, m_npages = 2, m_page_address = (\<lambda>i. 0x100000 * of_nat i)\<rparr>\<rparr>"


text \<open>
  C24. Without a registered buffer the address is an offset into the mmap buffer, but the ring
  position \<open>first\<close>, which counts pages, is added as a number of bytes: for every ring whose
  oldest page is not page 0, an access at offset 0 of the mapping is translated to an address
  \<open>first\<close> bytes into the buffer, and not to the start of page \<open>first\<close>.
\<close>

theorem translate_mmap_not_page_start:
  assumes "m_virtual (c_buffer cd) = 0" and "dd_address dd = 0"
    and "0 < mi_first (c_mmap_info cd)" and "mi_first (c_mmap_info cd) < MAX_PAGES"
  shows "translate_address cd dd = Inr (Some (mi_page_list (c_mmap_info cd)
      + u64_of_int (mi_first (c_mmap_info cd)))) \<and>
    translate_address cd dd \<noteq> Inr (Some (mi_page_list (c_mmap_info cd)
      + PAGE_SIZE * u64_of_int (mi_first (c_mmap_info cd))))"
proof -
  let ?f = "mi_first (c_mmap_info cd)"
  have f: "unat (u64_of_int ?f) = nat ?f" "nat ?f < 1024" "0 < nat ?f"
    using assms(3,4) by (auto simp: u64_of_int_inverse MAX_PAGES_def)
  then have "unat (PAGE_SIZE * u64_of_int ?f) = 4096 * nat ?f"
    by (subst unat_mult_no_wrap) (simp_all add: PAGE_SIZE_def)
  then have "u64_of_int ?f \<noteq> PAGE_SIZE * u64_of_int ?f"
    using f by (auto dest: arg_cong [where f = unat])
  then show ?thesis
    using assms(1,2) by (simp add: translate_address_def Let_def)
qed

theorem translate_mmap_not_page_start_witness:
  "translate_address (zero_card\<lparr>c_mmap_info := (c_mmap_info zero_card)\<lparr>mi_first := 3\<rparr>\<rparr>)
     (sample_dd\<lparr>dd_address := 0\<rparr>) \<noteq> Inr (Some (0 + PAGE_SIZE * u64_of_int 3))"
  using translate_mmap_not_page_start [of
      "zero_card\<lparr>c_mmap_info := (c_mmap_info zero_card)\<lparr>mi_first := 3\<rparr>\<rparr>" "sample_dd\<lparr>dd_address := 0\<rparr>"]
  by (auto simp: zero_card_def MAX_PAGES_def)

end
