(* ===== verification/Nfp_Driver.thy ===== *)
theory Nfp_Driver
  imports Nfp_Types Nfp_Mem
begin

unbundle bit_operations_syntax

text \<open>
  The PCI driver (src/HOST/driver/nfp.c) and the life cycle of its character device
  (nfpioctl_probe and nfpioctl_remove of src/HOST/driver/nfpioctl.c): configuration of the PCIe
  payload and read request sizes, probe with its error exits, remove, power management, and the
  module entry points. The kernel resources a history holds are computed from it, so that leaks and
  double releases are statements about the calls that were made.
\<close>

section \<open>PCIe configuration\<close>

definition PCI_CAP_ID_EXP :: u8 where
  "PCI_CAP_ID_EXP = 0x10"

definition PCI_EXP_DEVCAP :: u64 where
  "PCI_EXP_DEVCAP = 4"

definition PCI_EXP_DEVCTL :: u64 where
  "PCI_EXP_DEVCTL = 8"

definition PCI_EXP_DEVCAP_PAYLOAD :: u16 where
  "PCI_EXP_DEVCAP_PAYLOAD = 0x07"

definition PCI_EXP_DEVCTL_PAYLOAD :: u16 where
  "PCI_EXP_DEVCTL_PAYLOAD = 0xE0"

definition PCI_EXP_DEVCTL_READRQ :: u16 where
  "PCI_EXP_DEVCTL_READRQ = 0x7000"

text \<open>The read of a 16-bit configuration register: error code and value.\<close>

definition read_config :: "kenv \<Rightarrow> u64 \<Rightarrow> khist \<Rightarrow> int \<times> u16 \<times> khist" where
  "read_config E a h =
     (let (err, ws, h) = kdo_out E (PciReadConfigWord a) h in (s32 err, ucast (ws 0), h))"

definition pci_set_payload :: "kenv \<Rightarrow> u16 \<Rightarrow> khist \<Rightarrow> int \<times> khist" where
  "pci_set_payload E payload h =
     (if \<not> (128 \<le> payload \<and> payload \<le> 512 \<or> payload = 0) then (- 1, h)
      else
        let (pos, h) = kdo E (PciFindCapability False PCI_CAP_ID_EXP) h
        in if pos = 0 then (0, h)
           else
             let (_, dctl, h) = read_config E (pos + PCI_EXP_DEVCTL) h;
                 (_, dcap, h) = read_config E (pos + PCI_EXP_DEVCAP) h;
                 dsz = drop_bit 5 (dctl AND PCI_EXP_DEVCTL_PAYLOAD);
                 dmax = dcap AND PCI_EXP_DEVCAP_PAYLOAD;
                 (ppos, h) = kdo E (PciFindCapability True PCI_CAP_ID_EXP) h
             in if ppos = 0 then (0, h)
                else
                  let psz = (if payload = 0 then dmax else drop_bit 8 payload)
                  in if dmax < psz then (- 1, h)
                     else if dsz < psz then
                       let h = emit (Printk ''Setting MaxPayload to %d'') h;
                           h = emit (PciWriteConfigWord (pos + PCI_EXP_DEVCTL)
                                 ((dctl AND NOT PCI_EXP_DEVCTL_PAYLOAD) + push_bit 5 psz)) h
                       in (0, h)
                     else (0, h))"

text \<open>The kernel's \<open>ffs\<close>: the position of the lowest set bit, counted from 1; 0 for 0.\<close>

fun ffs :: "nat \<Rightarrow> nat" where
  "ffs n = (if n = 0 then 0 else if odd n then 1 else Suc (ffs (n div 2)))"

declare ffs.simps [simp del]

definition pcie_set_readrq :: "kenv \<Rightarrow> int \<Rightarrow> khist \<Rightarrow> int \<times> khist" where
  "pcie_set_readrq E count h =
     (if count < 128 \<or> 4096 < count then (- 1, h)
      else
        let v = word_of_int ((int (ffs (nat count)) - 8) * 2 ^ 12) :: u16;
            (cap, h) = kdo E (PciFindCapability False PCI_CAP_ID_EXP) h
        in if cap = 0 then (- 1, h)
           else
             let (err, ctl, h) = read_config E (cap + PCI_EXP_DEVCTL) h
             in if err \<noteq> 0 then (- 1, h)
                else if ctl AND PCI_EXP_DEVCTL_READRQ \<noteq> v then
                  let ctl = (ctl AND NOT PCI_EXP_DEVCTL_READRQ) OR v;
                      h = emit (PciWriteConfigDword (cap + PCI_EXP_DEVCTL) (ucast ctl)) h
                  in (0, h)
                else (0, h))"

section \<open>The character device\<close>

definition IS_ERR :: "u64 \<Rightarrow> bool" where
  "IS_ERR p \<longleftrightarrow> - 4095 \<le> p"

definition nfpioctl_probe :: "kenv \<Rightarrow> nfp_card \<Rightarrow> khist \<Rightarrow> int \<times> nfp_card \<times> khist" where
  "nfpioctl_probe E cd h =
     (let (r, ws, h) = kdo_out E AllocChrdevRegion h;
          ret = s32 r
      in if ret \<noteq> 0 then
           (ret, cd, emit (Printk ''nfp: Failed to register device %s with error %d'') h)
         else
           let cd = cd\<lparr>c_dev := ws 0\<rparr>;
               (cls, h) = kdo E ClassCreate h;
               cd = cd\<lparr>c_dev_class := cls\<rparr>
           in if IS_ERR (c_dev_class cd) then
                let h = emit (Printk ''nfp: Failed to create class %s with error %lld'') h;
                    h = emit (UnregisterChrdevRegion (c_dev cd)) h
                in (s32 (c_dev_class cd), cd, h)
              else
                let (d, h) = kdo E (DeviceCreate (c_dev_class cd) (c_dev cd)) h
                in if d = 0 then
                     let h = emit (Printk ''nfp: Failed when creating device %s with error %d'') h;
                         h = emit (ClassDestroy (c_dev_class cd)) h;
                         h = emit (UnregisterChrdevRegion (c_dev cd)) h
                     in (- 1, cd, h)
                   else
                     let h = emit CdevInit h;
                         (r, h) = kdo E (CdevAdd (c_dev cd)) h;
                         ret = s32 r
                     in if ret \<noteq> 0 then
                          let h = emit (Printk ''nfp: Failed to register device %s with error %d'') h;
                              h = emit (DeviceDestroy (c_dev_class cd) (c_dev cd)) h;
                              h = emit (ClassDestroy (c_dev_class cd)) h;
                              h = emit (UnregisterChrdevRegion (c_dev cd)) h
                          in (ret, cd, h)
                        else (0, cd, h))"

definition nfpioctl_remove :: "nfp_card \<Rightarrow> khist \<Rightarrow> int \<times> khist" where
  "nfpioctl_remove cd h =
     (let h = emit CdevDel h;
          h = emit (DeviceDestroy (c_dev_class cd) (c_dev cd)) h;
          h = emit (ClassDestroy (c_dev_class cd)) h;
          h = emit (UnregisterChrdevRegion (c_dev cd)) h
      in (0, h))"

section \<open>Probe and remove\<close>

definition ENODEV :: int where
  "ENODEV = 19"

definition IORESOURCE_MEM :: u64 where
  "IORESOURCE_MEM = 0x200"

definition DMA_BIT_MASK_64 :: u64 where
  "DMA_BIT_MASK_64 = - 1"

definition BUFFER_BYTES :: u64 where
  "BUFFER_BYTES = u64_of_int MAX_PAGES * PAGE_SIZE"

text \<open>The three error labels of \<open>nfp_probe\<close>, each falling through to the next.\<close>

definition err_out_disable_device :: "int \<Rightarrow> nfp_card \<Rightarrow> khist \<Rightarrow> int \<times> nfp_card \<times> khist" where
  "err_out_disable_device ret cd h = (ret, cd, emit (PciSetDrvdata 0) (emit PciDisableDevice h))"

definition err_out_ioctl :: "u64 \<Rightarrow> int \<Rightarrow> nfp_card \<Rightarrow> khist \<Rightarrow> int \<times> nfp_card \<times> khist" where
  "err_out_ioctl card_ptr ret cd h = err_out_disable_device ret cd (emit (Kfree card_ptr) h)"

text \<open>The unmapping of the BARs, which the error path and \<open>nfp_remove\<close> share.\<close>

definition unmap_bars :: "nfp_card \<Rightarrow> khist \<Rightarrow> khist" where
  "unmap_bars cd h =
     (let h = emit (PciIounmap (c_bar0 cd)) h;
          h = (if c_bar1 cd \<noteq> 0 then emit (PciIounmap (c_bar1 cd)) h else h)
      in if c_bar2 cd \<noteq> 0 then emit (PciIounmap (c_bar2 cd)) h else h)"

definition err_iface :: "u64 \<Rightarrow> int \<Rightarrow> nfp_card \<Rightarrow> khist \<Rightarrow> int \<times> nfp_card \<times> khist" where
  "err_iface card_ptr ret cd h =
     (let h = unmap_bars cd h;
          h = emit PciReleaseRegions h;
          h = emit (PciSetDrvdata 0) h;
          h = emit PciClearMaster h;
          h = emit PciDisableDevice h;
          (_, h) = nfpioctl_remove cd h
      in err_out_ioctl card_ptr ret cd h)"

text \<open>One BAR: its length is always that of BAR 0.\<close>

definition map_bar :: "kenv \<Rightarrow> nat \<Rightarrow> khist \<Rightarrow> u64 \<times> khist" where
  "map_bar E n h = (let (len, h) = kdo E (PciResourceLen 0) h in kdo E (PciIomap n len) h)"

definition map_bars :: "kenv \<Rightarrow> nfp_card \<Rightarrow> khist \<Rightarrow> nfp_card \<times> khist" where
  "map_bars E cd h =
     (let (b, h) = map_bar E 0 h;
          cd = cd\<lparr>c_bar0 := b\<rparr>;
          h = emit (Printk ''nfp: register BAR0'') h;
          (b, h) = map_bar E 1 h;
          cd = cd\<lparr>c_bar1 := b\<rparr>;
          h = (if c_bar1 cd \<noteq> 0 then emit (Printk ''nfp: register BAR1'') h else h);
          (b, h) = map_bar E 2 h;
          cd = cd\<lparr>c_bar2 := b\<rparr>;
          h = (if c_bar2 cd \<noteq> 0 then emit (Printk ''nfp: register BAR2'') h else h)
      in (cd, h))"

text \<open>The part of \<open>nfp_probe\<close> after the character device has been registered.\<close>

definition probe_bars ::
  "kenv \<Rightarrow> u64 \<Rightarrow> int \<Rightarrow> nfp_card \<Rightarrow> khist \<Rightarrow> int \<times> nfp_card \<times> khist" where
  "probe_bars E card_ptr ret cd h =
     (let (flags, h) = kdo E (PciResourceFlags 0) h
      in if flags AND IORESOURCE_MEM = 0 then
           err_out_ioctl card_ptr ret cd (emit (Printk ''nfp: Impossible to access BAR0'') h)
         else
           let (r, h) = kdo E PciRequestRegions h;
               ret = s32 r
           in if ret \<noteq> 0 then
                err_out_ioctl card_ptr ret cd (emit (Printk ''nfp: failed to register BAR0'') h)
              else
                let (cd, h) = map_bars E cd h;
                    cd = cd\<lparr>c_dma := c_bar0 cd + of_nat (DMA_OFFSET * 8)\<rparr>;
                    (p, ws, h) = kdo_out E (PciAllocConsistent BUFFER_BYTES) h;
                    cd = cd\<lparr>c_mmap_info := (c_mmap_info cd)\<lparr>mi_page_list := p, mi_dma_handle := ws 0\<rparr>\<rparr>
                in if p = 0 then
                     err_iface card_ptr ret cd (emit (Printk ''nfp: Can not alloc a buffer'') h)
                   else (ret, cd, emit (Printk ''nfp: device ready'') h))"

text \<open>\<open>card_size\<close> is the size of \<open>struct nfp_card\<close>, which contains kernel structs.\<close>

definition nfp_probe :: "kenv \<Rightarrow> u64 \<Rightarrow> khist \<Rightarrow> int \<times> nfp_card \<times> khist" where
  "nfp_probe E card_size h =
     (let (card_ptr, h) = kdo E (Kmalloc card_size) h;
          cd = zero_card
      in if card_ptr = 0 then
           (- ENODEV, cd, emit (Printk ''nfp: Could not obtain enough memory'') h)
         else
           let h = emit (SemaInit 1) h;
               (r, h) = kdo E PciEnableDevice h;
               ret = s32 r
           in if ret \<noteq> 0 then
                (- ENODEV, cd, emit (Printk ''nfp: Unable to enable the PCI device!'') h)
              else
                let (r, h) = pci_set_payload E 128 h
                in if r \<noteq> 0 then
                     err_out_disable_device ret cd
                       (emit (Printk ''nfp: Unable to adjust the PCIe payload!'') h)
                   else
                     let (r, h) = pcie_set_readrq E 4096 h
                     in if r \<noteq> 0 then
                          err_out_disable_device ret cd
                            (emit (Printk ''nfp: Unable to adjust the PCIe read request!'') h)
                        else
                          let (r, h) = kdo E (PciSetDmaMask DMA_BIT_MASK_64) h;
                              (r, h) = (if s32 r = 0
                                        then kdo E (PciSetConsistentDmaMask DMA_BIT_MASK_64) h
                                        else (r, h))
                          in if s32 r \<noteq> 0 then
                               err_out_disable_device ret cd
                                 (emit (Printk ''nfp: unable to set adapter  PCI DMA mask to 64Bit'') h)
                             else
                               let h = emit (PciSetDrvdata card_ptr) h;
                                   h = emit PciSetMaster h;
                                   (ret, cd, h) = nfpioctl_probe E cd h
                               in if ret < 0 then
                                    err_out_ioctl card_ptr ret cd
                                      (emit (Printk ''nfp: failed to register cdev'') h)
                                  else probe_bars E card_ptr ret cd h)"

definition nfp_remove :: "kenv \<Rightarrow> nfp_card \<Rightarrow> khist \<Rightarrow> khist" where
  "nfp_remove E cd h =
     (let (card_ptr, h) = kdo E PciGetDrvdata h;
          h = emit (Printk ''nfp: releasing private memory'') h
      in if card_ptr \<noteq> 0 then
           let h = emit (PciFreeConsistent BUFFER_BYTES (mi_page_list (c_mmap_info cd))
                           (mi_dma_handle (c_mmap_info cd))) h;
               h = emit (Printk ''nfp: disabling device'') h;
               (_, h) = nfpioctl_remove cd h;
               h = unmap_bars cd h;
               h = emit PciReleaseRegions h;
               h = emit (PciSetDrvdata 0) h;
               h = emit PciClearMaster h;
               h = emit PciDisableDevice h
           in emit (Kfree card_ptr) h
         else h)"

section \<open>Power management, errors, module entry points\<close>

definition PCI_D0 :: u64 where
  "PCI_D0 = 0"

definition nfp_resume :: "khist \<Rightarrow> int \<times> khist" where
  "nfp_resume h = (0, emit PciRestoreState (emit (PciSetPowerState PCI_D0) h))"

definition nfp_suspend :: "kenv \<Rightarrow> u64 \<Rightarrow> khist \<Rightarrow> int \<times> khist" where
  "nfp_suspend E mstate h =
     (let h = emit PciSaveState h;
          (s, h) = kdo E (PciChooseState mstate) h
      in (0, emit (PciSetPowerState s) h))"

datatype pci_ers_result = PCI_ERS_RESULT_NONE | PCI_ERS_RESULT_CAN_RECOVER
  | PCI_ERS_RESULT_NEED_RESET | PCI_ERS_RESULT_DISCONNECT | PCI_ERS_RESULT_RECOVERED

definition nfp_pcie_error :: "int \<Rightarrow> khist \<Rightarrow> pci_ers_result \<times> khist" where
  "nfp_pcie_error state h = (PCI_ERS_RESULT_RECOVERED, emit (Printk ''nfp: PCIe error: %d'') h)"

definition pci_id :: "(u32 \<times> u32) list" where
  "pci_id = [(0x10EE, 0x7038)]"

definition nfp_init :: "kenv \<Rightarrow> khist \<Rightarrow> int \<times> khist" where
  "nfp_init E h =
     (let h = emit (Printk ''nfp: module loaded'') h;
          (r, h) = kdo E PciRegisterDriver h
      in (s32 r, h))"

definition nfp_exit :: "khist \<Rightarrow> khist" where
  "nfp_exit h = emit (Printk ''nfp: module unloaded'') (emit PciUnregisterDriver h)"

section \<open>Resources held by a history\<close>

datatype resource = RCard u64 | REnabled | RChrdev | RClass u64 | RDevice | RCdev | RRegions
  | RMap u64 | RBuffer u64

text \<open>What a call that returned \<open>r\<close> acquires, and what a call releases.\<close>

fun gains :: "kcall \<Rightarrow> u64 \<Rightarrow> resource option" where
  "gains (Kmalloc n) r = (if r \<noteq> 0 then Some (RCard r) else None)"
| "gains PciEnableDevice r = (if s32 r = 0 then Some REnabled else None)"
| "gains AllocChrdevRegion r = (if s32 r = 0 then Some RChrdev else None)"
| "gains ClassCreate r = (if IS_ERR r then None else Some (RClass r))"
| "gains (DeviceCreate c d) r = (if r = 0 \<or> IS_ERR r then None else Some RDevice)"
| "gains (CdevAdd d) r = (if s32 r = 0 then Some RCdev else None)"
| "gains PciRequestRegions r = (if s32 r = 0 then Some RRegions else None)"
| "gains (PciIomap n len) r = (if r \<noteq> 0 then Some (RMap r) else None)"
| "gains (PciAllocConsistent n) r = (if r \<noteq> 0 then Some (RBuffer r) else None)"
| "gains _ r = None"

fun drops :: "kcall \<Rightarrow> resource option" where
  "drops (Kfree p) = Some (RCard p)"
| "drops PciDisableDevice = Some REnabled"
| "drops (UnregisterChrdevRegion d) = Some RChrdev"
| "drops (ClassDestroy c) = Some (RClass c)"
| "drops (DeviceDestroy c d) = Some RDevice"
| "drops CdevDel = Some RCdev"
| "drops PciReleaseRegions = Some RRegions"
| "drops (PciIounmap a) = Some (RMap a)"
| "drops (PciFreeConsistent n a dh) = Some (RBuffer a)"
| "drops _ = None"

text \<open>The resources held after the calls of a history, from those held before, most recent first;
  \<open>None\<close> when something is released that is not held.\<close>

fun held :: "resource list \<Rightarrow> khist \<Rightarrow> resource list option" where
  "held rs [] = Some rs"
| "held rs ((c, r) # h) =
     (case drops c of
        Some d \<Rightarrow> if d \<in> set rs then held (remove1 d rs) h else None
      | None \<Rightarrow> held (case gains c r of None \<Rightarrow> rs | Some g \<Rightarrow> g # rs) h)"

definition neutral :: "kcall \<Rightarrow> bool" where
  "neutral c \<longleftrightarrow> drops c = None \<and> (\<forall>r. gains c r = None)"

definition acquires :: "resource list \<Rightarrow> khist \<Rightarrow> khist \<Rightarrow> resource list \<Rightarrow> bool" where
  "acquires rs h h' rs' \<longleftrightarrow> (\<exists>es. h' = h @ es \<and> held rs es = Some rs')"

lemma held_append:
  "held rs (h @ h') = (case held rs h of None \<Rightarrow> None | Some rs' \<Rightarrow> held rs' h')"
  by (induction rs h rule: held.induct) (auto split: option.splits)

lemma held_neutral: "list_all neutral (calls h) \<Longrightarrow> held rs h = Some rs"
  by (induction rs h rule: held.induct) (auto simp: neutral_def)

lemma acquires_refl [simp]: "acquires rs h h rs"
  by (auto simp: acquires_def)

lemma acquires_trans: "acquires rs h h1 rs1 \<Longrightarrow> acquires rs1 h1 h2 rs2 \<Longrightarrow> acquires rs h h2 rs2"
  by (auto simp: acquires_def held_append)

lemma acquires_neutral: "extends neutral h h' \<Longrightarrow> acquires rs h h' rs"
  by (auto simp: acquires_def extends_def held_neutral)

lemma acquires_snoc:
  "acquires rs h h1 rs1 \<Longrightarrow> held rs1 [(c, r)] = Some rs2 \<Longrightarrow> acquires rs h (h1 @ [(c, r)]) rs2"
  by (auto simp: acquires_def held_append)

lemma acquires_emit:
  "acquires rs h h1 rs1 \<Longrightarrow> held rs1 [(c, 0)] = Some rs2 \<Longrightarrow> acquires rs h (emit c h1) rs2"
  by (simp add: emit_def acquires_snoc)

lemma pci_set_payload_neutral: "extends neutral h (snd (pci_set_payload E payload h))"
  by (auto simp: pci_set_payload_def read_config_def kcall_defs Let_def neutral_def extends_def)

lemma pcie_set_readrq_neutral: "extends neutral h (snd (pcie_set_readrq E count h))"
  by (auto simp: pcie_set_readrq_def read_config_def kcall_defs Let_def neutral_def extends_def)

lemma payload_128: "fst (pci_set_payload E 128 h) = 0"
  by (simp add: pci_set_payload_def read_config_def Let_def split: prod.splits)

section \<open>Properties of the configuration\<close>

lemma ucast_u16_u64 [simp]: "ucast (ucast (w :: u16) :: u64) = w"
  by (auto intro!: bit_word_eqI simp: bit_simps)

lemma word_field_replace:
  fixes w :: u16
  assumes "x AND m = x"
  shows "(w AND NOT m) OR x = (w AND NOT m) + x" and "((w AND NOT m) OR x) AND m = x"
    and "((w AND NOT m) OR x) AND NOT m = w AND NOT m"
proof -
  have b: "bit x n \<Longrightarrow> bit m n" for n
    using assms by (metis bit_and_iff)
  have "(w AND NOT m) AND x = 0"
    using b by (intro bit_word_eqI) (auto simp: bit_simps)
  then show "(w AND NOT m) OR x = (w AND NOT m) + x"
    by (simp add: disjunctive_add_eq_or)
  show "((w AND NOT m) OR x) AND m = x" "((w AND NOT m) OR x) AND NOT m = w AND NOT m"
    using b by (auto intro!: bit_word_eqI simp: bit_simps)
qed

lemma payload_field:
  fixes psz :: u16
  assumes "psz \<le> dcap AND PCI_EXP_DEVCAP_PAYLOAD"
  shows "push_bit 5 psz AND PCI_EXP_DEVCTL_PAYLOAD = push_bit 5 psz"
proof -
  have "dcap AND PCI_EXP_DEVCAP_PAYLOAD \<le> PCI_EXP_DEVCAP_PAYLOAD"
    by (rule word_and_le1)
  then have "unat psz \<le> 7"
    using assms by (simp add: word_le_nat_alt PCI_EXP_DEVCAP_PAYLOAD_def)
  then have "unat psz \<in> {0, 1, 2, 3, 4, 5, 6, 7}" by auto
  then have "psz \<in> {0, 1, 2, 3, 4, 5, 6, 7}"
    by (auto simp: word_unat_eq_iff)
  then show ?thesis
    by (auto simp: PCI_EXP_DEVCTL_PAYLOAD_def)
qed

fun config_write :: "kcall \<Rightarrow> bool" where
  "config_write (PciWriteConfigWord a w) = True"
| "config_write (PciWriteConfigDword a w) = True"
| "config_write _ = False"

text \<open>
  C30. The payload configuration on a device with capability and control registers \<open>dcap\<close> and
  \<open>dctl\<close>: a size the device cannot do is refused without a write; a larger size than the current
  one is programmed by one write that puts exactly the size code into the payload field and keeps
  every other bit of the control register; otherwise nothing is written. The code of a size is
  its number of bytes divided by 256, the maximum being requested by 0.
\<close>

theorem payload_programmed:
  assumes "128 \<le> payload \<and> payload \<le> 512 \<or> payload = 0"
    and "\<forall>h. kret E h (PciFindCapability False PCI_CAP_ID_EXP) = pos" and "pos \<noteq> 0"
    and "\<forall>h. kret E h (PciFindCapability True PCI_CAP_ID_EXP) \<noteq> 0"
    and "\<forall>h. kout E h (PciReadConfigWord (pos + PCI_EXP_DEVCTL)) 0 = ucast dctl"
    and "\<forall>h. kout E h (PciReadConfigWord (pos + PCI_EXP_DEVCAP)) 0 = ucast dcap"
    and "pci_set_payload E payload h = (r, h')"
  defines "psz \<equiv> if payload = 0 then dcap AND PCI_EXP_DEVCAP_PAYLOAD else drop_bit 8 payload"
  shows "if dcap AND PCI_EXP_DEVCAP_PAYLOAD < psz
    then r = - 1 \<and> filter config_write (calls h') = filter config_write (calls h)
    else r = 0 \<and> (if drop_bit 5 (dctl AND PCI_EXP_DEVCTL_PAYLOAD) < psz
      then \<exists>w. filter config_write (calls h') = filter config_write (calls h)
               @ [PciWriteConfigWord (pos + PCI_EXP_DEVCTL) w] \<and>
             w AND PCI_EXP_DEVCTL_PAYLOAD = push_bit 5 psz \<and>
             w AND NOT PCI_EXP_DEVCTL_PAYLOAD = dctl AND NOT PCI_EXP_DEVCTL_PAYLOAD
      else filter config_write (calls h') = filter config_write (calls h))"
proof (cases "dcap AND PCI_EXP_DEVCAP_PAYLOAD < psz")
  case True
  then show ?thesis
    using assms(1-7) unfolding psz_def
    by (auto simp: pci_set_payload_def read_config_def kdo_def kdo_out_def Let_def split: if_splits)
next
  case False
  then have "psz \<le> dcap AND PCI_EXP_DEVCAP_PAYLOAD" by simp
  note f = word_field_replace [OF payload_field [OF this], of dctl]
  show ?thesis
    using assms(1-7) False f unfolding psz_def
    by (auto simp: pci_set_payload_def read_config_def kcall_defs Let_def split: if_splits)
qed

lemma ffs_power: "ffs (2 ^ k) = k + 1"
  by (induction k) (simp_all add: ffs.simps [of "Suc 0"] ffs.simps [of "2 * n" for n])

text \<open>
  The read request size: for the documented sizes of 128, 256, ..., 4096 bytes the control
  register afterwards holds the code of the size (0 to 5) in its read request field and is
  otherwise unchanged; it is written only when the field changes.
\<close>

theorem readrq_programmed:
  assumes "k \<le> 5" and "\<forall>h. kret E h (PciFindCapability False PCI_CAP_ID_EXP) = cap" and "cap \<noteq> 0"
    and "\<forall>h. kret E h (PciReadConfigWord (cap + PCI_EXP_DEVCTL)) = 0"
    and "\<forall>h. kout E h (PciReadConfigWord (cap + PCI_EXP_DEVCTL)) 0 = ucast ctl"
    and "pcie_set_readrq E (128 * 2 ^ k) h = (r, h')"
  shows "r = 0 \<and> (\<exists>w. w AND PCI_EXP_DEVCTL_READRQ = push_bit 12 (of_nat k) \<and>
    w AND NOT PCI_EXP_DEVCTL_READRQ = ctl AND NOT PCI_EXP_DEVCTL_READRQ \<and>
    filter config_write (calls h') = filter config_write (calls h)
      @ (if w = ctl then [] else [PciWriteConfigDword (cap + PCI_EXP_DEVCTL) (ucast w)]))"
proof -
  let ?v = "push_bit 12 (of_nat k) :: u16"
  have ks: "k \<in> {0, 1, 2, 3, 4, 5}" using assms(1) by auto
  have n: "nat (128 * 2 ^ k) = 2 ^ (k + 7)" by (simp add: nat_mult_distrib nat_power_eq power_add)
  have v: "word_of_int ((int (ffs (nat (128 * 2 ^ k))) - 8) * 2 ^ 12) = ?v"
    using ks unfolding n ffs_power by auto
  have vm: "?v AND PCI_EXP_DEVCTL_READRQ = ?v"
    using ks by (auto simp: PCI_EXP_DEVCTL_READRQ_def)
  have range: "\<not> (128 * 2 ^ k < (128 :: int) \<or> 4096 < (128 * 2 ^ k :: int))"
    using ks by auto
  define w where "w = (ctl AND NOT PCI_EXP_DEVCTL_READRQ) OR ?v"
  note f = word_field_replace(2,3) [OF vm, of ctl, folded w_def]
  have eq: "w = ctl \<longleftrightarrow> ctl AND PCI_EXP_DEVCTL_READRQ = ?v"
  proof
    assume "ctl AND PCI_EXP_DEVCTL_READRQ = ?v"
    moreover have "(ctl AND NOT PCI_EXP_DEVCTL_READRQ) OR (ctl AND PCI_EXP_DEVCTL_READRQ) = ctl"
      by (auto intro!: bit_word_eqI simp: bit_simps)
    ultimately show "w = ctl"
      unfolding w_def by metis
  qed (use f(1) in auto)
  have "pcie_set_readrq E (128 * 2 ^ k) h = (0, if w = ctl
      then h @ [(PciFindCapability False PCI_CAP_ID_EXP, cap), (PciReadConfigWord (cap + PCI_EXP_DEVCTL), 0)]
      else h @ [(PciFindCapability False PCI_CAP_ID_EXP, cap), (PciReadConfigWord (cap + PCI_EXP_DEVCTL), 0),
        (PciWriteConfigDword (cap + PCI_EXP_DEVCTL) (ucast w), 0)])"
    using range assms(2-5) unfolding pcie_set_readrq_def v eq
    by (simp add: read_config_def kcall_defs Let_def w_def)
  then show ?thesis
    using assms(6) f by auto
qed

section \<open>Properties of the life cycle\<close>

text \<open>The kernel's documented error codes: zero or negative; and an environment in which the device
  node is either created or reported as \<open>NULL\<close>, the only failure the code tests for.\<close>

definition error_codes :: "kenv \<Rightarrow> bool" where
  "error_codes E \<longleftrightarrow> (\<forall>h. s32 (kret E h AllocChrdevRegion) \<le> 0) \<and>
     (\<forall>h d. s32 (kret E h (CdevAdd d)) \<le> 0)"

definition device_node_or_null :: "kenv \<Rightarrow> bool" where
  "device_node_or_null E \<longleftrightarrow> (\<forall>h c d. \<not> IS_ERR (kret E h (DeviceCreate c d)))"

definition cdev_resources :: "nfp_card \<Rightarrow> resource list" where
  "cdev_resources cd = [RCdev, RDevice, RClass (c_dev_class cd), RChrdev]"

definition bar_resources :: "nfp_card \<Rightarrow> resource list" where
  "bar_resources cd =
     (if c_bar2 cd = 0 then [] else [RMap (c_bar2 cd)]) @
     (if c_bar1 cd = 0 then [] else [RMap (c_bar1 cd)]) @ [RMap (c_bar0 cd), RRegions]"

lemma nfpioctl_probe_resources:
  assumes "nfpioctl_probe E cd h = (ret, cd', h')" and "device_node_or_null E"
  shows "acquires rs h h' (if ret = 0 then cdev_resources cd' @ rs else rs)"
    and "\<exists>d c. cd' = cd\<lparr>c_dev := d, c_dev_class := c\<rparr>"
proof -
  have "ret \<noteq> 0" if "IS_ERR p" "ret = s32 p" for p
    using s32_error_pointer [of p] that by (simp add: IS_ERR_def)
  then show "acquires rs h h' (if ret = 0 then cdev_resources cd' @ rs else rs)"
    using assms
    by (auto simp: nfpioctl_probe_def kcall_defs Let_def acquires_def cdev_resources_def
        device_node_or_null_def split: if_splits)
  show "\<exists>d c. cd' = cd\<lparr>c_dev := d, c_dev_class := c\<rparr>"
    using assms(1) by (auto simp: nfpioctl_probe_def Let_def split: if_splits prod.splits)
      (metis nfp_card.surjective nfp_card.update_convs(4,5))+
qed


text \<open>The driver data of the device: the pointer stored last.\<close>

definition drvdata :: "khist \<Rightarrow> u64" where
  "drvdata h = foldl (\<lambda>p (c, r). case c of PciSetDrvdata q \<Rightarrow> q | _ \<Rightarrow> p) 0 h"

fun keeps_drvdata :: "kcall \<Rightarrow> bool" where
  "keeps_drvdata (PciSetDrvdata p) = False"
| "keeps_drvdata _ = True"

lemma drvdata_set: "drvdata (emit (PciSetDrvdata p) h) = p"
  by (simp add: drvdata_def emit_def)

lemma drvdata_keeps: "extends keeps_drvdata h h' \<Longrightarrow> drvdata h' = drvdata h"
proof -
  have "list_all keeps_drvdata (calls es) \<Longrightarrow>
      foldl (\<lambda>p (c, r). case c of PciSetDrvdata q \<Rightarrow> q | _ \<Rightarrow> p) p es = p" for es p
    by (induction es arbitrary: p) (auto split: kcall.splits)
  then show "extends keeps_drvdata h h' \<Longrightarrow> drvdata h' = drvdata h"
    by (auto simp: extends_def drvdata_def)
qed

lemma error_exit_last:
  "err_out_disable_device r c h = (ret, cd, h') \<Longrightarrow> last (calls h') = PciSetDrvdata 0"
  "err_out_ioctl q r c h = (ret, cd, h') \<Longrightarrow> last (calls h') = PciSetDrvdata 0"
  "err_iface q r c h = (ret, cd, h') \<Longrightarrow> last (calls h') = PciSetDrvdata 0"
  by (auto simp: err_out_disable_device_def err_out_ioctl_def err_iface_def Let_def split: prod.splits)

lemma error_exit_not_ready:
  assumes "last (calls h') = Printk m"
  shows "err_out_disable_device r c h \<noteq> (ret, cd, h')" "err_out_ioctl q r c h \<noteq> (ret, cd, h')"
    "err_iface q r c h \<noteq> (ret, cd, h')"
  using assms error_exit_last by fastforce+

lemma map_bar_run: "\<exists>l. map_bar E n h = (b, h') \<longrightarrow>
    h' = h @ [(PciResourceLen 0, l), (PciIomap n l, b)] \<and> (\<exists>h. b = kret E h (PciIomap n l))"
  by (auto simp: map_bar_def kdo_def)

lemma map_bars_run:
  assumes "map_bars E cd h = (cd', h')"
  shows "\<exists>l0 l1 l2. cd' = cd\<lparr>c_bar0 := c_bar0 cd', c_bar1 := c_bar1 cd', c_bar2 := c_bar2 cd'\<rparr> \<and>
    (\<exists>h. c_bar0 cd' = kret E h (PciIomap 0 l0)) \<and>
    h' = h @ [(PciResourceLen 0, l0), (PciIomap 0 l0, c_bar0 cd'), (Printk ''nfp: register BAR0'', 0),
      (PciResourceLen 0, l1), (PciIomap 1 l1, c_bar1 cd')]
      @ (if c_bar1 cd' \<noteq> 0 then [(Printk ''nfp: register BAR1'', 0)] else [])
      @ [(PciResourceLen 0, l2), (PciIomap 2 l2, c_bar2 cd')]
      @ (if c_bar2 cd' \<noteq> 0 then [(Printk ''nfp: register BAR2'', 0)] else [])"
proof -
  obtain b0 h0 where 0: "map_bar E 0 h = (b0, h0)" by fastforce
  obtain b1 h1 where 1: "map_bar E 1 (emit (Printk ''nfp: register BAR0'') h0) = (b1, h1)" by fastforce
  obtain b2 h2 where 2: "map_bar E 2 (if b1 \<noteq> 0 then emit (Printk ''nfp: register BAR1'') h1 else h1)
      = (b2, h2)" by fastforce
  obtain l0 l1 l2 where l:
    "h0 = h @ [(PciResourceLen 0, l0), (PciIomap 0 l0, b0)]" "\<exists>h. b0 = kret E h (PciIomap 0 l0)"
    "h1 = emit (Printk ''nfp: register BAR0'') h0 @ [(PciResourceLen 0, l1), (PciIomap 1 l1, b1)]"
    "h2 = (if b1 \<noteq> 0 then emit (Printk ''nfp: register BAR1'') h1 else h1)
       @ [(PciResourceLen 0, l2), (PciIomap 2 l2, b2)]"
    using map_bar_run [of E 0 h b0 h0] map_bar_run [of E 1 _ b1 h1] map_bar_run [of E 2 _ b2 h2] 0 1 2
    by metis
  have "cd' = cd\<lparr>c_bar0 := b0, c_bar1 := b1, c_bar2 := b2\<rparr> \<and>
      h' = (if b2 \<noteq> 0 then emit (Printk ''nfp: register BAR2'') h2 else h2)"
    using assms 1 by (auto simp: map_bars_def 0 2)
  then show ?thesis
    using l by (intro exI [of _ l0] exI [of _ l1] exI [of _ l2]) (simp add: emit_def)
qed

lemma map_bars_resources:
  assumes "map_bars E cd h = (cd', h')" and "\<forall>h l. kret E h (PciIomap 0 l) \<noteq> 0"
  shows "acquires (RRegions # rs) h h' (bar_resources cd' @ rs)" and "extends keeps_drvdata h h'"
    and "c_dev_class cd' = c_dev_class cd" and "c_dev cd' = c_dev cd"
proof -
  obtain l0 l1 l2 h0 where run: "cd' = cd\<lparr>c_bar0 := c_bar0 cd', c_bar1 := c_bar1 cd', c_bar2 := c_bar2 cd'\<rparr>"
    "c_bar0 cd' = kret E h0 (PciIomap 0 l0)"
    "h' = h @ [(PciResourceLen 0, l0), (PciIomap 0 l0, c_bar0 cd'), (Printk ''nfp: register BAR0'', 0),
      (PciResourceLen 0, l1), (PciIomap 1 l1, c_bar1 cd')]
      @ (if c_bar1 cd' \<noteq> 0 then [(Printk ''nfp: register BAR1'', 0)] else [])
      @ [(PciResourceLen 0, l2), (PciIomap 2 l2, c_bar2 cd')]
      @ (if c_bar2 cd' \<noteq> 0 then [(Printk ''nfp: register BAR2'', 0)] else [])"
    using map_bars_run [OF assms(1)] by blast
  have "c_bar0 cd' \<noteq> 0" using run(2) assms(2) by simp
  then show "acquires (RRegions # rs) h h' (bar_resources cd' @ rs)"
    unfolding acquires_def run(3) by (simp add: bar_resources_def)
  show "extends keeps_drvdata h h'"
    unfolding extends_def run(3) by simp
  show "c_dev_class cd' = c_dev_class cd" "c_dev cd' = c_dev cd"
    using arg_cong [OF run(1), of c_dev_class] arg_cong [OF run(1), of c_dev] by simp_all
qed

lemma probe_bars_ready:
  assumes "probe_bars E p ret cd h = (ret', cd', h')"
    and "last (calls h') = Printk ''nfp: device ready''"
    and "\<forall>h l. kret E h (PciIomap 0 l) \<noteq> 0"
  shows "ret' = 0" and "c_dev_class cd' = c_dev_class cd"
    and "acquires rs h h' (RBuffer (mi_page_list (c_mmap_info cd')) # bar_resources cd' @ rs)"
    and "extends keeps_drvdata h h'"
proof -
  obtain f h1 where 1: "kdo E (PciResourceFlags 0) h = (f, h1)" by fastforce
  obtain r h2 where 2: "kdo E PciRequestRegions h1 = (r, h2)" by fastforce
  obtain cd3 h3 where 3: "map_bars E cd h2 = (cd3, h3)" by fastforce
  obtain q ws h4 where 4: "kdo_out E (PciAllocConsistent BUFFER_BYTES) h3 = (q, ws, h4)"
    by (metis prod_cases3)
  have ok: "ret' = 0 \<and> s32 r = 0 \<and> q \<noteq> 0 \<and> h' = emit (Printk ''nfp: device ready'') h4 \<and>
      cd' = cd3\<lparr>c_dma := c_bar0 cd3 + of_nat (DMA_OFFSET * 8),
        c_mmap_info := (c_mmap_info cd3)\<lparr>mi_page_list := q, mi_dma_handle := ws 0\<rparr>\<rparr>"
    using assms(1) error_exit_not_ready [OF assms(2)]
    by (auto simp: probe_bars_def 1 2 3 4 Let_def split: if_splits)
  note m = map_bars_resources [OF 3 assms(3)]
  have br: "bar_resources cd' = bar_resources cd3" using ok by (simp add: bar_resources_def)
  show "ret' = 0" "c_dev_class cd' = c_dev_class cd" using ok m by simp_all
  have "acquires rs h h2 (RRegions # rs)"
    using kdo_hist [OF 1] kdo_hist [OF 2] ok by (auto simp: acquires_def)
  moreover have "acquires (bar_resources cd3 @ rs) h3 h' (RBuffer q # bar_resources cd3 @ rs)"
    using kdo_out_hist [OF 4] ok by (auto simp: acquires_def emit_def)
  ultimately show "acquires rs h h' (RBuffer (mi_page_list (c_mmap_info cd')) # bar_resources cd' @ rs)"
    using m(1) [of rs] ok unfolding br by (auto intro: acquires_trans)
  have "extends keeps_drvdata h h2" "extends keeps_drvdata h3 h'"
    using kdo_hist [OF 1] kdo_hist [OF 2] kdo_out_hist [OF 4] ok by (auto simp: extends_def emit_def)
  then show "extends keeps_drvdata h h'"
    using m(2) by (blast intro: extends_trans)
qed

lemma nfpioctl_probe_keeps: "extends keeps_drvdata h (snd (snd (nfpioctl_probe E cd h)))"
  by (auto simp: nfpioctl_probe_def kcall_defs Let_def extends_def)

lemma probe_ready:
  assumes "nfp_probe E sz h = (ret, cd, h')" and "last (calls h') = Printk ''nfp: device ready''"
    and "error_codes E" and "device_node_or_null E" and "\<forall>h l. kret E h (PciIomap 0 l) \<noteq> 0"
  shows "ret = 0 \<and> (\<exists>p. p \<noteq> 0 \<and> drvdata h' = p \<and>
    acquires [] h h' (RBuffer (mi_page_list (c_mmap_info cd)) # bar_resources cd @
      cdev_resources cd @ [REnabled, RCard p]))"
proof -
  obtain p h1 where 1: "kdo E (Kmalloc sz) h = (p, h1)" by fastforce
  obtain r h2 where 2: "kdo E PciEnableDevice (emit (SemaInit 1) h1) = (r, h2)" by fastforce
  obtain r3 h3 where 3: "pci_set_payload E 128 h2 = (r3, h3)" by fastforce
  obtain r4 h4 where 4: "pcie_set_readrq E 4096 h3 = (r4, h4)" by fastforce
  obtain r5 h5 where 5: "kdo E (PciSetDmaMask DMA_BIT_MASK_64) h4 = (r5, h5)" by fastforce
  obtain r6 h6 where 6: "kdo E (PciSetConsistentDmaMask DMA_BIT_MASK_64) h5 = (r6, h6)" by fastforce
  let ?h7 = "emit PciSetMaster (emit (PciSetDrvdata p) h6)"
  obtain ret8 cd8 h8 where 8: "nfpioctl_probe E zero_card ?h7 = (ret8, cd8, h8)"
    by (metis prod_cases3)
  have ok: "p \<noteq> 0 \<and> s32 r = 0 \<and> r3 = 0 \<and> r4 = 0 \<and> s32 r5 = 0 \<and> s32 r6 = 0 \<and> 0 \<le> ret8 \<and>
      probe_bars E p ret8 cd8 h8 = (ret, cd, h')"
    using assms(1,2) error_exit_not_ready [OF assms(2)]
    by (auto simp: nfp_probe_def 1 2 3 4 5 6 8 Let_def split: if_splits)
  have "ret8 \<le> 0"
    using assms(3) 8 s32_error_pointer
    by (auto simp: nfpioctl_probe_def kdo_def kdo_out_def Let_def error_codes_def IS_ERR_def
        intro: less_imp_le split: if_splits)
  then have ret8: "ret8 = 0" using ok by simp
  note bars = probe_bars_ready [OF _ assms(2,5), of p ret8 cd8 h8 ret cd]
  have "acquires [] h h2 [REnabled, RCard p]"
    using kdo_hist [OF 1] kdo_hist [OF 2] ok by (auto simp: acquires_def emit_def)
  moreover have "acquires [REnabled, RCard p] h2 h4 [REnabled, RCard p]"
    using pci_set_payload_neutral [of h2 E 128] pcie_set_readrq_neutral [of h3 E 4096] 3 4
    by (auto intro!: acquires_neutral elim: extends_trans)
  moreover have "acquires [REnabled, RCard p] h4 ?h7 [REnabled, RCard p]"
    using kdo_hist [OF 5] kdo_hist [OF 6] by (auto simp: acquires_def emit_def)
  moreover have "acquires [REnabled, RCard p] ?h7 h8 (cdev_resources cd8 @ [REnabled, RCard p])"
    using nfpioctl_probe_resources(1) [OF 8 assms(4), of "[REnabled, RCard p]"] ret8 by simp
  ultimately have "acquires [] h h8 (cdev_resources cd8 @ [REnabled, RCard p])"
    by (blast intro: acquires_trans)
  moreover have "cdev_resources cd8 = cdev_resources cd"
    using bars(2) ok by (simp add: cdev_resources_def)
  ultimately have "acquires [] h h' (RBuffer (mi_page_list (c_mmap_info cd)) # bar_resources cd @
      cdev_resources cd @ [REnabled, RCard p])"
    using bars(3) ok acquires_trans by metis
  moreover have "extends keeps_drvdata (emit (PciSetDrvdata p) h6) ?h7"
    by (rule extends_emit) simp_all
  then have "extends keeps_drvdata (emit (PciSetDrvdata p) h6) h'"
    using bars(4) nfpioctl_probe_keeps [of ?h7 E zero_card] ok 8
    by (metis extends_trans snd_conv)
  ultimately show ?thesis
    using bars(1) ok drvdata_keeps drvdata_set by metis
qed

text \<open>The handles of the card that the removal uses.\<close>

definition card_handles :: "nfp_card \<Rightarrow> u64 list" where
  "card_handles cd = [c_bar0 cd, c_bar1 cd, c_bar2 cd, c_dev cd, c_dev_class cd,
     mi_page_list (c_mmap_info cd), mi_dma_handle (c_mmap_info cd)]"

text \<open>A card that was probed up to ``device ready'' holds its memory, the enabled device, the four
  resources of the character device, the regions, the mapped BARs and the buffer. Removing it later
  releases every one of them exactly once, whatever calls that neither acquire nor release resources
  nor change the driver data were made in between.\<close>

definition quiet :: "kcall \<Rightarrow> bool" where
  "quiet c \<longleftrightarrow> neutral c \<and> keeps_drvdata c"

definition card_resources :: "nfp_card \<Rightarrow> u64 \<Rightarrow> resource list" where
  "card_resources cd p = RBuffer (mi_page_list (c_mmap_info cd)) #
     bar_resources cd @ cdev_resources cd @ [REnabled, RCard p]"

lemma remove_releases:
  assumes "card_handles cd1 = card_handles cd" and "kret E h1 PciGetDrvdata = p" and "p \<noteq> 0"
  shows "acquires (card_resources cd p) h1 (nfp_remove E cd1 h1) []"
  using assms
  by (auto simp: nfp_remove_def nfpioctl_remove_def unmap_bars_def kcall_defs Let_def acquires_def
      card_handles_def bar_resources_def cdev_resources_def card_resources_def)

lemma probe_quiet_remove:
  assumes "nfp_probe E sz h = (ret, cd, h')" and "last (calls h') = Printk ''nfp: device ready''"
    and "error_codes E" and "device_node_or_null E" and "\<forall>h l. kret E h (PciIomap 0 l) \<noteq> 0"
    and "extends quiet h' h1"
    and "card_handles cd1 = card_handles cd" and "kret E' h1 PciGetDrvdata = drvdata h1"
  shows "ret = 0 \<and> (\<exists>p. acquires [] h h1 (card_resources cd p)) \<and>
    acquires [] h (nfp_remove E' cd1 h1) []"
proof -
  obtain p where p: "p \<noteq> 0" "drvdata h' = p" "acquires [] h h' (card_resources cd p)" and ret: "ret = 0"
    using probe_ready [OF assms(1-5)] unfolding card_resources_def by blast
  have e: "extends neutral h' h1" "extends keeps_drvdata h' h1"
    using assms(6) by (auto simp: extends_def list_all_iff quiet_def)
  have held1: "acquires [] h h1 (card_resources cd p)"
    using p(3) acquires_neutral [OF e(1)] acquires_trans by blast
  have "kret E' h1 PciGetDrvdata = p"
    using assms(8) drvdata_keeps [OF e(2)] p(2) by simp
  then show ?thesis
    using ret held1 remove_releases [OF assms(7) _ p(1)] acquires_trans by blast
qed

section \<open>Concrete devices\<close>

text \<open>A kernel and device on which everything succeeds, except the call \<open>bad\<close>, which answers \<open>r\<close>.\<close>

fun good_answer :: "kcall \<Rightarrow> u64" where
  "good_answer (Kmalloc n) = 0x1000"
| "good_answer (PciFindCapability p c) = 0x60"
| "good_answer ClassCreate = 0x2000"
| "good_answer (DeviceCreate c d) = 0x3000"
| "good_answer (PciResourceFlags n) = 0x200"
| "good_answer (PciResourceLen n) = 0x100000"
| "good_answer (PciIomap n len) = (if n = 0 then 0x400000 else 0)"
| "good_answer (PciAllocConsistent n) = 0x800000"
| "good_answer PciGetDrvdata = 0x1000"
| "good_answer _ = 0"

definition faulty :: "kcall \<Rightarrow> u64 \<Rightarrow> kenv" where
  "faulty bad r = \<lparr>kret = (\<lambda>h c. if c = bad then r else good_answer c), kout = (\<lambda>h c i. 0)\<rparr>"

definition CARD_SIZE :: u64 where
  "CARD_SIZE = 512"

text \<open>Everything a probe does, evaluated on such a device.\<close>

lemmas probe_eval = nfp_probe_def probe_bars_def map_bars_def map_bar_def nfpioctl_probe_def
  nfpioctl_remove_def unmap_bars_def err_iface_def err_out_ioctl_def err_out_disable_device_def
  pci_set_payload_def pcie_set_readrq_def read_config_def kcall_defs faulty_def Let_def
  IS_ERR_def IORESOURCE_MEM_def PCI_EXP_DEVCTL_def PCI_EXP_DEVCAP_def PCI_EXP_DEVCAP_PAYLOAD_def
  PCI_EXP_DEVCTL_PAYLOAD_def PCI_EXP_DEVCTL_READRQ_def zero_card_def

lemma ffs_4096: "ffs 4096 = 13"
  using ffs_power [of 12] by simp


section \<open>Witnesses\<close>

lemma good_env_facts:
  "error_codes (faulty Up 0)" "device_node_or_null (faulty Up 0)"
  "\<forall>h l. kret (faulty Up 0) h (PciIomap 0 l) \<noteq> 0"
  by (simp_all add: error_codes_def device_node_or_null_def faulty_def IS_ERR_def)


lemma good_probe_ready:
  "\<exists>ret cd h. nfp_probe (faulty Up 0) CARD_SIZE [] = (ret, cd, h) \<and>
     last (calls h) = Printk ''nfp: device ready'' \<and> drvdata h = 0x1000"
  by (simp add: probe_eval ffs_4096 drvdata_def)

definition config_env :: "u16 \<Rightarrow> u16 \<Rightarrow> kenv" where
  "config_env dctl dcap = \<lparr>kret = (\<lambda>h c. case c of PciFindCapability p i \<Rightarrow> 0x60 | _ \<Rightarrow> 0),
     kout = (\<lambda>h c i. if c = PciReadConfigWord 0x68 then ucast dctl else ucast dcap)\<rparr>"

theorem payload_programmed_witness:
  "\<exists>r h. pci_set_payload (config_env 0x2810 0x8002) 512 [] = (r, h) \<and> r = 0 \<and>
     (\<exists>w. filter config_write (calls h) = [PciWriteConfigWord 0x68 w] \<and>
        w AND PCI_EXP_DEVCTL_PAYLOAD = push_bit 5 2)"
proof -
  obtain r h where eq: "pci_set_payload (config_env 0x2810 0x8002) 512 [] = (r, h)" by fastforce
  show ?thesis
    using payload_programmed [OF _ _ _ _ _ _ eq, where pos = "0x60" and dctl = "0x2810" and dcap = "0x8002"] eq
    by (auto simp: config_env_def PCI_EXP_DEVCTL_def PCI_EXP_DEVCAP_def PCI_EXP_DEVCAP_PAYLOAD_def
        PCI_EXP_DEVCTL_PAYLOAD_def)
qed

theorem readrq_programmed_witness:
  "\<exists>r h w. pcie_set_readrq (config_env 0x2810 0x8002) 4096 [] = (r, h) \<and> r = 0 \<and>
     w AND PCI_EXP_DEVCTL_READRQ = 0x5000"
proof -
  obtain r h where eq: "pcie_set_readrq (config_env 0x2810 0x8002) (128 * 2 ^ 5) [] = (r, h)"
    by fastforce
  show ?thesis
    using readrq_programmed [OF _ _ _ _ _ eq, where cap = "0x60" and ctl = "0x2810"] eq
    by (auto simp: config_env_def PCI_EXP_DEVCTL_def)
qed

end
