(* ===== verification/Device_Life.thy ===== *)
theory Device_Life
  imports Nfp_Ioctl Nfp_Driver
begin

text \<open>
  The device file in use: the table of file operations (\<open>nfp_ops\<close> of src/HOST/driver/nfpioctl.c), the
  operations of mapped areas (\<open>mmap_vm_ops\<close>), the driver's entry points for power management
  and errors (\<open>pci_driver\<close> of src/HOST/driver/nfp.c), and all sequences of calls a kernel can make
  through these tables, one after the other, between the probe and the removal of the card, as a
  step relation. Each step may meet any kernel and device. What the driver owns of mappings and
  memory is accounted for along such sequences.
\<close>

section \<open>The tables of operations\<close>

text \<open>The driver with its open files and mapped areas. \<open>d_private\<close>: the files whose private data is
  the card (and not a null pointer).\<close>

record dst =
  d_k :: kst
  d_private :: "nat set"
  d_live :: "vma list"

datatype file_op = FRead u64 | FWrite u64 | FOpen | FRelease
  | FUnlockedIoctl u32 u64 | FCompatIoctl u32 u64 | FMmap vma

definition private_data :: "nat \<Rightarrow> dst \<Rightarrow> nfp_card option" where
  "private_data f s = (if f \<in> d_private s then Some (k_card (d_k s)) else None)"

definition set_private :: "nat \<Rightarrow> nfp_card option \<Rightarrow> dst \<Rightarrow> dst" where
  "set_private f p s =
     s\<lparr>d_private := (if p = None then d_private s - {f} else insert f (d_private s))\<rparr>"

text \<open>The handler uses the card only after it has accepted the command.\<close>

definition file_ioctl :: "kenv \<Rightarrow> nat \<Rightarrow> u32 \<Rightarrow> u64 \<Rightarrow> dst \<Rightarrow> (fault + int \<times> dst) option" where
  "file_ioctl E f cmd arg s =
     (if private_data f s = None \<and> IOC_TYPE cmd = IOCTL_MAGIC_NUMBER \<and> IOC_NR cmd \<le> IOC_MAXNR
      then Some (Inl NullDeref)
      else case nfp_ioctl E cmd arg (d_k s) of
             None \<Rightarrow> None
           | Some (Inl x) \<Rightarrow> Some (Inl x)
           | Some (Inr (r, k)) \<Rightarrow> Some (Inr (r, s\<lparr>d_k := k\<rparr>)))"

definition file_mmap :: "kenv \<Rightarrow> nat \<Rightarrow> vma \<Rightarrow> dst \<Rightarrow> (fault + int \<times> dst) option" where
  "file_mmap E f v s =
     (if private_data f s = None then Some (Inl NullDeref)
      else
        let k = d_k s;
            (r, cd, h) = nfp_mmap E (k_card k) v (k_hist k)
        in Some (Inr (r, s\<lparr>d_k := k\<lparr>k_card := cd, k_hist := h\<rparr>,
             d_live := (if r < 0 then d_live s else d_live s @ [v])\<rparr>)))"

definition nfp_ops :: "kenv \<Rightarrow> nat \<Rightarrow> file_op \<Rightarrow> dst \<Rightarrow> (fault + int \<times> dst) option" where
  "nfp_ops E f fop s =
     (case fop of
        FRead len \<Rightarrow> Some (Inr (nfp_read len, s))
      | FWrite len \<Rightarrow> Some (Inr (sint (nfp_write len), s))
      | FOpen \<Rightarrow>
          (let (r, p) = nfp_open (k_card (d_k s)) (private_data f s)
           in Some (Inr (r, set_private f p s)))
      | FRelease \<Rightarrow>
          (let (r, p) = nfp_release (private_data f s) in Some (Inr (r, set_private f p s)))
      | FUnlockedIoctl cmd arg \<Rightarrow> file_ioctl E f cmd arg s
      | FCompatIoctl cmd arg \<Rightarrow> file_ioctl E f cmd arg s
      | FMmap v \<Rightarrow> file_mmap E f v s)"

definition mmap_vm_ops :: "vma \<Rightarrow> dst \<Rightarrow> dst" where
  "mmap_vm_ops v s =
     s\<lparr>d_k := (d_k s)\<lparr>k_card := mmap_close (k_card (d_k s)) v\<rparr>, d_live := remove1 v (d_live s)\<rparr>"

text \<open>The entry points of the PCI driver while a card is in use (the table \<open>pci_driver\<close> with its error
  handlers, src/HOST/driver/nfp.c).\<close>

datatype pci_op = PSuspend u64 | PResume | PErrorDetected int

definition pci_driver :: "kenv \<Rightarrow> pci_op \<Rightarrow> dst \<Rightarrow> dst" where
  "pci_driver E pop s =
     (let h = k_hist (d_k s);
          h = (case pop of
                 PSuspend mstate \<Rightarrow> snd (nfp_suspend E mstate h)
               | PResume \<Rightarrow> snd (nfp_resume h)
               | PErrorDetected state \<Rightarrow> snd (nfp_pcie_error state h))
      in s\<lparr>d_k := (d_k s)\<lparr>k_hist := h\<rparr>\<rparr>)"

text \<open>The calls the kernel can make: any file operation that returns, the close of a live area, and
  power management or a reported PCIe error.\<close>

inductive dev_step :: "dst \<Rightarrow> dst \<Rightarrow> bool" where
  operation: "nfp_ops E f fop s = Some (Inr (r, s')) \<Longrightarrow> dev_step s s'"
| area_close: "v \<in> set (d_live s) \<Longrightarrow> dev_step s (mmap_vm_ops v s)"
| pci: "dev_step s (pci_driver E pop s)"

inductive_cases dev_stepE: "dev_step s s'"

definition loaded :: "nfp_card \<Rightarrow> khist \<Rightarrow> dst" where
  "loaded cd h = \<lparr>d_k = \<lparr>k_card = cd, k_dma = init_dma_glob, k_mem = init_mem_glob, k_hist = h\<rparr>,
     d_private = {}, d_live = []\<rparr>"

section \<open>What a step does\<close>

text \<open>The calls that keep nothing: those of a request, of the semaphore and of power management.\<close>

fun passing_call :: "kcall \<Rightarrow> bool" where
  "passing_call Up = True"
| "passing_call DownInterruptible = True"
| "passing_call PciSaveState = True"
| "passing_call PciRestoreState = True"
| "passing_call (PciSetPowerState p) = True"
| "passing_call (PciChooseState m) = True"
| "passing_call c = plain_call c"

lemma passing_plain [simp]: "plain_call c \<Longrightarrow> passing_call c"
  by (cases c) simp_all

lemma plain_passing: "extends plain_call h h' \<Longrightarrow> extends passing_call h h'"
  by (rule extends_mono) simp_all

text \<open>A call of the handler takes and releases the semaphore around the command it serves.\<close>

lemma nfp_ioctl_outcome:
  assumes "nfp_ioctl E cmd arg st = Some (Inr (r, st'))"
  obtains (unserved) h where "st' = st\<lparr>k_hist := h\<rparr>" "extends passing_call (k_hist st) h"
  | (served) u h st1 where "extends passing_call (k_hist st) h"
      "ioctl_dispatch E cmd arg u (st\<lparr>k_hist := h\<rparr>) = Some (Inr st1)"
      "st' = st1\<lparr>k_hist := emit Up (k_hist st1)\<rparr>"
proof -
  let ?d = "kret E (k_hist st) DownInterruptible"
  let ?h0 = "k_hist st @ [(DownInterruptible, ?d)]"
  obtain u h1 where copy: "copy_argument E cmd arg ?h0 = (u, h1)" by fastforce
  have e0: "extends passing_call (k_hist st) ?h0"
    by (intro extends_intros) simp
  have "extends plain_call ?h0 h1"
    using copy_argument_plain [of ?h0 E cmd arg] copy by simp
  then have e1: "extends passing_call (k_hist st) h1"
    using extends_trans [OF e0 plain_passing] by blast
  consider (refused) "st' = st"
    | (interrupted) "st' = st\<lparr>k_hist := emit Up ?h0\<rparr>"
    | (failed) "st' = st\<lparr>k_hist := emit (Printk ''nfp: user variables cannot be accessed'') (emit Up h1)\<rparr>"
    | (finished) v st1 where "ioctl_dispatch E cmd arg v (st\<lparr>k_hist := h1\<rparr>) = Some (Inr st1)"
        "st' = st1\<lparr>k_hist := emit Up (k_hist st1)\<rparr>"
    using assms copy
    by (auto simp: nfp_ioctl_def kdo_def Let_def split: if_splits option.splits sum.splits)
  then show ?thesis
  proof cases
    case refused
    then show ?thesis by (intro unserved [of "k_hist st"]) simp_all
  next
    case interrupted
    then show ?thesis by (rule unserved) (intro extends_emit e0, simp)
  next
    case failed
    then show ?thesis by (rule unserved) (intro extends_emit e1, simp_all)
  next
    case finished
    then show ?thesis using e1 served by blast
  qed
qed

lemma nfp_mmap_outcome:
  assumes "nfp_mmap E cd v h = (r, cd', h')"
  shows "extends plain_call h h' \<and> (\<exists>mi. cd' = cd\<lparr>c_mmap_info := mi\<rparr> \<and>
    mi_page_list mi = mi_page_list (c_mmap_info cd) \<and> mi_dma_handle mi = mi_dma_handle (c_mmap_info cd))"
proof (cases "cd' = cd")
  case True
  moreover have "extends plain_call h h'"
    using assms
    by (auto simp: nfp_mmap_def mmap_kmem_def kdo_def Let_def extends_def split: if_splits)
  ultimately show ?thesis
    by (intro conjI exI [of _ "c_mmap_info cd"]) simp_all
next
  case False
  then show ?thesis
    using assms
    by (auto simp: nfp_mmap_def mmap_kmem_def kdo_def Let_def extends_def split: if_splits)
qed

text \<open>A step as seen by the driver's data: calls that keep nothing (with changes of the page ring), or
  one of the three commands that keep something, between operations of the semaphore.\<close>

lemma dev_step_outcome:
  assumes "dev_step s s'"
  obtains (calls) h mi where "extends passing_call (k_hist (d_k s)) h"
      "d_k s' = (d_k s)\<lparr>k_card := (k_card (d_k s))\<lparr>c_mmap_info := mi\<rparr>, k_hist := h\<rparr>"
      "mi_page_list mi = mi_page_list (c_mmap_info (k_card (d_k s)))"
      "mi_dma_handle mi = mi_dma_handle (c_mmap_info (k_card (d_k s)))"
  | (command) E cmd arg u h k where "extends passing_call (k_hist (d_k s)) h"
      "ioctl_dispatch E cmd arg u ((d_k s)\<lparr>k_hist := h\<rparr>) = Some (Inr k)"
      "d_k s' = k\<lparr>k_hist := emit Up (k_hist k)\<rparr>"
proof -
  have same: ?thesis if "d_k s' = (d_k s)\<lparr>k_hist := h\<rparr>" "extends passing_call (k_hist (d_k s)) h" for h
    using that by (intro calls [of h "c_mmap_info (k_card (d_k s))"]) simp_all
  have ioctl: ?thesis if io: "file_ioctl E f cmd arg s = Some (Inr (r, s'))" for E f cmd arg r
  proof -
    obtain k where k: "nfp_ioctl E cmd arg (d_k s) = Some (Inr (r, k))" "d_k s' = k"
      using io by (auto simp: file_ioctl_def split: if_splits option.splits sum.splits)
    from k(1) show ?thesis
    proof (cases rule: nfp_ioctl_outcome)
      case (unserved h)
      then show ?thesis using same k(2) by simp
    next
      case (served u h st1)
      then show ?thesis using command k(2) by simp
    qed
  qed
  from assms show ?thesis
  proof (cases rule: dev_step.cases)
    case (operation E f fop r)
    consider (trivial) "d_k s' = d_k s" | (ioctl) cmd arg where "file_ioctl E f cmd arg s = Some (Inr (r, s'))"
      | (mmap) v where "file_mmap E f v s = Some (Inr (r, s'))"
      using operation
      by (cases fop) (auto simp: nfp_ops_def set_private_def split: prod.splits)
    then show ?thesis
    proof cases
      case trivial
      then show ?thesis using same [of "k_hist (d_k s)"] by simp
    next
      case (mmap v)
      then obtain cd h where "nfp_mmap E (k_card (d_k s)) v (k_hist (d_k s)) = (r, cd, h)"
        "d_k s' = (d_k s)\<lparr>k_card := cd, k_hist := h\<rparr>"
        by (auto simp: file_mmap_def Let_def split: if_splits prod.splits)
      then show ?thesis
        using nfp_mmap_outcome plain_passing calls by metis
    qed (rule ioctl)
  next
    case (area_close v)
    then show ?thesis
      by (intro calls [of "k_hist (d_k s)" "c_mmap_info (mmap_close (k_card (d_k s)) v)"])
        (simp_all add: mmap_vm_ops_def mmap_close_def Let_def)
  next
    case (pci E pop)
    then show ?thesis
      by (cases pop; intro same [of "k_hist (d_k s')"])
        (auto simp: pci_driver_def nfp_suspend_def nfp_resume_def nfp_pcie_error_def kdo_def Let_def
          intro!: extends_intros)
  qed
qed

section \<open>Resources of the card\<close>

lemma quiet_calls: "service_call c \<Longrightarrow> quiet c" "passing_call c \<Longrightarrow> quiet c"
  by (cases c; simp add: quiet_def neutral_def)+

text \<open>No command touches the handles of the card, and none makes a call that acquires or releases a
  resource of the card.\<close>

lemma reg_hugemem_buffer:
  assumes "reg_hugemem E cd db mg h = Inr (r, mg', cd', h')"
  shows "\<exists>b. cd' = cd\<lparr>c_buffer := b\<rparr>" and "extends quiet h h'"
proof -
  obtain r1 mg1 cd1 h1 where 1: "getUserHugePages E db cd mg h = Inr (r1, mg1, cd1, h1)"
    using assms by (auto simp: reg_hugemem_def split: sum.splits)
  obtain b where b: "cd1 = cd\<lparr>c_buffer := b\<rparr>"
    using getUserHugePages_calls [OF 1] that [of "c_buffer cd"] by auto
  show "\<exists>b. cd' = cd\<lparr>c_buffer := b\<rparr>"
    using assms 1 b by (auto simp: reg_hugemem_def Let_def split: if_splits)
  have "extends quiet h h1"
    using extends_mono [OF quiet_calls(1) getUserHugePages_service [OF 1]] .
  then show "extends quiet h h'"
    using assms 1 by (auto simp: reg_hugemem_def Let_def quiet_calls intro!: extends_intros split: if_splits)
qed

lemma ioctl_dispatch_frame:
  assumes "ioctl_dispatch E cmd arg u st = Some (Inr st')"
  shows "extends quiet (k_hist st) (k_hist st') \<and> (\<exists>b. k_card st' = (k_card st)\<lparr>c_buffer := b\<rparr>)"
  using assms
proof (cases rule: ioctl_dispatch_outcome)
  case (plain h)
  then show ?thesis
    using extends_mono [OF quiet_calls(2) plain_passing] by (auto intro: exI [of _ "c_buffer (k_card st)"])
next
  case (descriptor dd r g h)
  then show ?thesis
    using extends_mono [OF quiet_calls(1) writeDMADescriptor_service]
    by (auto intro: exI [of _ "c_buffer (k_card st)"])
next
  case (register db r mg cd h)
  then show ?thesis using reg_hugemem_buffer by fastforce
next
  case (unregister r mg cd h)
  then have "\<exists>b. cd = (k_card st)\<lparr>c_buffer := b\<rparr>"
    by (auto simp: unreg_hugemem_def Let_def split: if_splits intro: exI [of _ "c_buffer (k_card st)"])
  moreover have "extends quiet (k_hist st) h"
    using extends_mono [OF quiet_calls(1) unreg_hugemem_service [of "k_hist st" E "k_card st" "k_mem st"]]
      unregister by simp
  ultimately show ?thesis using unregister by simp
qed

lemma dev_step_frame:
  assumes "dev_step s s'"
  shows "extends quiet (k_hist (d_k s)) (k_hist (d_k s')) \<and>
    card_handles (k_card (d_k s')) = card_handles (k_card (d_k s)) \<and>
    c_dma (k_card (d_k s')) = c_dma (k_card (d_k s))"
  using assms
proof (cases rule: dev_step_outcome)
  case (calls h mi)
  then show ?thesis
    using extends_mono [OF quiet_calls(2)] by (simp add: card_handles_def)
next
  case (command E cmd arg u h k)
  have "extends quiet (k_hist (d_k s)) h"
    by (rule extends_mono [OF quiet_calls(2) command(1)])
  then show ?thesis
    using ioctl_dispatch_frame [OF command(2)] command(3)
    by (auto simp: card_handles_def quiet_calls intro!: extends_emit elim: extends_trans)
qed

lemma dev_run_frame:
  "dev_step\<^sup>*\<^sup>* s s' \<Longrightarrow> extends quiet (k_hist (d_k s)) (k_hist (d_k s')) \<and>
    card_handles (k_card (d_k s')) = card_handles (k_card (d_k s)) \<and>
    c_dma (k_card (d_k s')) = c_dma (k_card (d_k s))"
proof (induction rule: rtranclp_induct)
  case (step t u)
  then show ?case
    using dev_step_frame [OF step(2)] extends_trans by auto
qed simp

section \<open>Mappings and memory\<close>

text \<open>The memory handed out by \<open>vmalloc\<close> and given back by \<open>vfree\<close>.\<close>

fun vmalloc_entry :: "kcall \<times> u64 \<Rightarrow> u64 list" where
  "vmalloc_entry (Vmalloc n, p) = (if p = 0 then [] else [p])"
| "vmalloc_entry _ = []"

fun vfree_entry :: "kcall \<times> u64 \<Rightarrow> u64 list" where
  "vfree_entry (Vfree p, _) = [p]"
| "vfree_entry _ = []"

definition vmallocs :: "khist \<Rightarrow> u64 multiset" where
  "vmallocs h = mset (concat (map vmalloc_entry h))"

definition vfrees :: "khist \<Rightarrow> u64 multiset" where
  "vfrees h = mset (concat (map vfree_entry h))"

lemma vmallocs_simps [simp]:
  "vmallocs [] = {#}" "vmallocs (x # h) = mset (vmalloc_entry x) + vmallocs h"
  "vmallocs (h @ h') = vmallocs h + vmallocs h'"
  by (simp_all add: vmallocs_def)

lemma vfrees_simps [simp]:
  "vfrees [] = {#}" "vfrees (x # h) = mset (vfree_entry x) + vfrees h"
  "vfrees (h @ h') = vfrees h + vfrees h'"
  by (simp_all add: vfrees_def)

text \<open>Everything released, and everything the driver still has on record, was handed out before, each
  as often as it was handed out: the mappings of the descriptor table and the page list of the
  registered buffer.\<close>

definition page_list_owned :: "nfp_card \<Rightarrow> mem_glob \<Rightarrow> u64 multiset" where
  "page_list_owned cd mg = (if m_length (c_buffer cd) = 0 then {#} else {#mg_pages_ptr mg#})"

definition accounted :: "kst \<Rightarrow> bool" where
  "accounted k \<longleftrightarrow> unmaps_of (k_hist k) + map_table (k_dma k) \<subseteq># maps_of (k_hist k) \<and>
     vfrees (k_hist k) + page_list_owned (k_card k) (k_mem k) \<subseteq># vmallocs (k_hist k)"

lemma passing_call_account:
  assumes "extends passing_call h h'"
  shows "maps_of h' = maps_of h" "unmaps_of h' = unmaps_of h" "vmallocs h' = vmallocs h" "vfrees h' = vfrees h"
proof -
  have "passing_call c \<Longrightarrow> map_entry (c, r) = [] \<and> unmap_entry (c, r) = [] \<and>
      vmalloc_entry (c, r) = [] \<and> vfree_entry (c, r) = []" for c r
    by (cases c) (simp_all)
  then have "list_all passing_call (calls es) \<Longrightarrow>
      maps_of es = {#} \<and> unmaps_of es = {#} \<and> vmallocs es = {#} \<and> vfrees es = {#}" for es
    by (induction es) auto
  then show "maps_of h' = maps_of h" "unmaps_of h' = unmaps_of h" "vmallocs h' = vmallocs h"
      "vfrees h' = vfrees h"
    using assms by (auto simp: extends_def)
qed

lemma dma_call_account:
  assumes "extends dma_call h h'"
  shows "vmallocs h' = vmallocs h" "vfrees h' = vfrees h"
proof -
  have "dma_call c \<Longrightarrow> vmalloc_entry (c, r) = [] \<and> vfree_entry (c, r) = []" for c r
    by (cases c) simp_all
  then have "list_all dma_call (calls es) \<Longrightarrow> vmallocs es = {#} \<and> vfrees es = {#}" for es
    by (induction es) auto
  then show "vmallocs h' = vmallocs h" "vfrees h' = vfrees h"
    using assms by (auto simp: extends_def)
qed

lemma map_table_mapped_subset:
  assumes "unat (dd_index dd) < MAX_NUM_DMA_DESCRIPTORS"
  shows "map_table (mapped_glob dd pa g) \<subseteq># add_mset (pa, dd_buffer_size dd) (map_table g)"
proof -
  let ?free = "g\<lparr>g_phy_addr_valid := (g_phy_addr_valid g)(unat (dd_index dd) := 0)\<rparr>"
  have "mapped_glob dd pa g = mapped_glob dd pa ?free"
    by (simp add: mapped_glob_def)
  moreover have "map_table (mapped_glob dd pa ?free) = add_mset (pa, dd_buffer_size dd) (map_table ?free)"
    using assms by (intro map_table_mapped) simp_all
  moreover have "map_table ?free \<subseteq># map_table g"
    by (auto simp: map_table_def intro!: image_mset_subseteq_mono subset_imp_msubset_mset_set)
  ultimately show ?thesis by simp
qed

lemma mapped_account:
  assumes "unat (dd_index dd) < MAX_NUM_DMA_DESCRIPTORS" and "U + map_table g \<subseteq># M"
  shows "U + map_table (mapped_glob dd pa g) \<subseteq># add_mset (pa, dd_buffer_size dd) M"
proof -
  have "U + map_table (mapped_glob dd pa g) \<subseteq># U + add_mset (pa, dd_buffer_size dd) (map_table g)"
    using map_table_mapped_subset [OF assms(1)] by simp
  also have "\<dots> \<subseteq># add_mset (pa, dd_buffer_size dd) M"
    using assms(2) by simp
  finally show ?thesis .
qed

lemma writeDMADescriptor_account:
  assumes "writeDMADescriptor E dd cd g h = Some (Inr (r, g', h'))"
    and "unmaps_of h + map_table g \<subseteq># maps_of h"
  shows "unmaps_of h' + map_table g' \<subseteq># maps_of h'"
proof (cases "dd_enable dd = 0")
  case True
  have i: "unat (dd_index dd) < MAX_NUM_DMA_DESCRIPTORS"
    using assms(1) by (auto simp: writeDMADescriptor_def split: if_splits)
  then have "(g', h') = setup_descriptor E dd cd g h"
    using assms(1) True by (simp add: write_disabled)
  then show ?thesis
    using mapped_account [OF i assms(2)]
    by (auto simp: setup_descriptor_eq Let_def setup_writes_no_mappings)
next
  case False
  then show ?thesis
    using mapped_account [OF _ assms(2)]
    by (auto elim!: write_enabled [OF assms(1)] simp: mappings_from_table mappings_from_no_maps
        setup_writes_no_mappings no_mappings map_table_cleared)
qed

text \<open>The commands on user memory: what they own of memory is what they allocated.\<close>

lemma reg_hugemem_account:
  assumes "reg_hugemem E cd db mg h = Inr (r, mg', cd', h')"
    and "vfrees h + page_list_owned cd mg \<subseteq># vmallocs h"
  shows "maps_of h' = maps_of h" "unmaps_of h' = unmaps_of h"
    and "vfrees h' + page_list_owned cd' mg' \<subseteq># vmallocs h'"
proof -
  obtain r1 mg1 cd1 h1 where 1: "getUserHugePages E db cd mg h = Inr (r1, mg1, cd1, h1)"
    using assms by (auto simp: reg_hugemem_def split: sum.splits)
  have "extends passing_call h1 h'"
    using assms(1) 1 by (auto simp: reg_hugemem_def Let_def intro!: extends_intros split: if_splits)
  note a = passing_call_account [OF this]
  have "vfrees h \<subseteq># vmallocs h"
    using assms(2) by (rule subset_mset.order_trans [OF mset_subset_eq_add_left])
  moreover have "page_list_owned cd' mg' = {#} \<or> \<not> r1 < 0 \<and> page_list_owned cd' mg' = {#mg_pages_ptr mg1#}"
    using assms(1) 1 by (auto simp: reg_hugemem_def Let_def page_list_owned_def split: if_splits)
  moreover from getUserHugePages_calls [OF 1] consider (none) n where "r1 = - EFAULT" "h1 = h @ [(Vmalloc n, 0)]"
    | (some) n where "mg_pages_ptr mg1 \<noteq> 0" "extends passing_call (h @ [(Vmalloc n, mg_pages_ptr mg1)]) h1"
    using plain_passing by blast
  then have "maps_of h1 = maps_of h \<and> unmaps_of h1 = unmaps_of h \<and> vfrees h1 = vfrees h \<and>
      (if r1 = - EFAULT \<and> vmallocs h1 = vmallocs h then True
       else vmallocs h1 = add_mset (mg_pages_ptr mg1) (vmallocs h))"
    by cases (auto simp: passing_call_account)
  ultimately show "maps_of h' = maps_of h" "unmaps_of h' = unmaps_of h"
      "vfrees h' + page_list_owned cd' mg' \<subseteq># vmallocs h'"
    using a by (auto simp: EFAULT_def split: if_splits intro: subset_mset.order_trans)
qed

lemma unreg_hugemem_account:
  assumes "unreg_hugemem E cd mg h = (r, mg', cd', h')"
    and "vfrees h + page_list_owned cd mg \<subseteq># vmallocs h"
  shows "maps_of h' = maps_of h" "unmaps_of h' = unmaps_of h"
    and "vfrees h' + page_list_owned cd' mg' \<subseteq># vmallocs h'"
  using assms passing_call_account [OF plain_passing [OF forget_loop_plain [of h E "mg_pages mg" "mg_num_pages mg" 0]]]
  by (auto simp: unreg_hugemem_def forgetUserHugePages_def Let_def emit_def page_list_owned_def
      split: if_splits)

lemma ioctl_dispatch_account:
  assumes "ioctl_dispatch E cmd arg u st = Some (Inr st')" and "accounted st"
  shows "accounted st'"
  using assms(1)
proof (cases rule: ioctl_dispatch_outcome)
  case (plain h)
  then show ?thesis
    using assms(2) by (simp add: accounted_def passing_call_account [OF plain_passing])
next
  case (descriptor dd r g h)
  then show ?thesis
    using assms(2) writeDMADescriptor_account dma_call_account [OF writeDMADescriptor_dma]
    by (fastforce simp: accounted_def)
next
  case (register db r mg cd h)
  then show ?thesis
    using assms(2) reg_hugemem_account [OF register(3)] by (simp add: accounted_def)
next
  case (unregister r mg cd h)
  then show ?thesis
    using assms(2) unreg_hugemem_account [OF unregister(3)] by (simp add: accounted_def)
qed

lemma accounted_passing_call:
  assumes "accounted k" and "extends passing_call (k_hist k) h"
  shows "accounted (k\<lparr>k_hist := h\<rparr>)"
    and "accounted (k\<lparr>k_card := (k_card k)\<lparr>c_mmap_info := mi\<rparr>, k_hist := h\<rparr>)"
  using assms(1) passing_call_account [OF assms(2)] by (simp_all add: accounted_def page_list_owned_def)

lemma dev_step_account:
  assumes "dev_step s s'" and "accounted (d_k s)"
  shows "accounted (d_k s')"
  using assms(1)
proof (cases rule: dev_step_outcome)
  case (calls h mi)
  then show ?thesis using accounted_passing_call(2) [OF assms(2)] by simp
next
  case (command E cmd arg u h k)
  have "accounted k"
    using ioctl_dispatch_account [OF command(2)] accounted_passing_call(1) [OF assms(2) command(1)] .
  then show ?thesis
    using command(3) accounted_passing_call(1) [of k "emit Up (k_hist k)"] by (simp add: extends_emit)
qed

lemma dev_run_account: "dev_step\<^sup>*\<^sup>* s s' \<Longrightarrow> accounted (d_k s) \<Longrightarrow> accounted (d_k s')"
  by (induction rule: rtranclp_induct) (auto intro: dev_step_account)

section \<open>From probe to removal\<close>

text \<open>The calls that neither hand out nor give back mappings and memory, and that probe and removal
  make no others.\<close>

definition unaccounted :: "kcall \<Rightarrow> bool" where
  "unaccounted c \<longleftrightarrow> (\<forall>r. map_entry (c, r) = [] \<and> unmap_entry (c, r) = [] \<and>
     vmalloc_entry (c, r) = [] \<and> vfree_entry (c, r) = [])"

lemma unaccounted_account:
  assumes "extends unaccounted h h'"
  shows "maps_of h' = maps_of h" "unmaps_of h' = unmaps_of h" "vmallocs h' = vmallocs h" "vfrees h' = vfrees h"
proof -
  have "list_all unaccounted (calls es) \<Longrightarrow>
      maps_of es = {#} \<and> unmaps_of es = {#} \<and> vmallocs es = {#} \<and> vfrees es = {#}" for es
    by (induction es) (auto simp: unaccounted_def)
  then show "maps_of h' = maps_of h" "unmaps_of h' = unmaps_of h" "vmallocs h' = vmallocs h"
      "vfrees h' = vfrees h"
    using assms by (auto simp: extends_def)
qed

lemma config_unaccounted:
  "extends unaccounted h (snd (pci_set_payload E payload h))"
  "extends unaccounted h (snd (pcie_set_readrq E n h))"
  by (auto simp: pci_set_payload_def pcie_set_readrq_def read_config_def kcall_defs Let_def
      unaccounted_def extends_def)

lemma nfpioctl_probe_unaccounted: "extends unaccounted h (snd (snd (nfpioctl_probe E cd h)))"
  by (auto simp: nfpioctl_probe_def kcall_defs Let_def unaccounted_def extends_def)

lemma probe_exits_unaccounted:
  "extends unaccounted h (snd (snd (err_out_disable_device ret cd h)))"
  "extends unaccounted h (snd (snd (err_out_ioctl p ret cd h)))"
  "extends unaccounted h (snd (snd (err_iface p ret cd h)))"
  by (auto simp: err_out_disable_device_def err_out_ioctl_def err_iface_def unmap_bars_def
      nfpioctl_remove_def emit_def Let_def unaccounted_def extends_def)

lemma probe_exits_card [simp]:
  "fst (snd (err_out_disable_device ret cd h)) = cd" "fst (snd (err_out_ioctl p ret cd h)) = cd"
  "fst (snd (err_iface p ret cd h)) = cd"
  by (simp_all add: err_out_disable_device_def err_out_ioctl_def err_iface_def Let_def split: prod.splits)

lemma nfp_remove_unaccounted: "extends unaccounted h (nfp_remove E cd h)"
  by (auto simp: nfp_remove_def nfpioctl_remove_def unmap_bars_def kcall_defs Let_def
      unaccounted_def extends_def)

lemma map_bars_unaccounted:
  "map_bars E cd h = (cd', h') \<Longrightarrow> extends unaccounted h h' \<and> c_buffer cd' = c_buffer cd"
  by (auto simp: map_bars_def map_bar_def kcall_defs Let_def unaccounted_def extends_def split: if_splits)

lemma probe_bars_unaccounted:
  "extends unaccounted h (snd (snd (probe_bars E p ret cd h))) \<and>
    c_buffer (fst (snd (probe_bars E p ret cd h))) = c_buffer cd"
proof -
  obtain f h1 where 1: "kdo E (PciResourceFlags 0) h = (f, h1)" by fastforce
  obtain r h2 where 2: "kdo E PciRequestRegions h1 = (r, h2)" by fastforce
  obtain cd3 h3 where 3: "map_bars E cd h2 = (cd3, h3)" by fastforce
  obtain q ws h4 where 4: "kdo_out E (PciAllocConsistent BUFFER_BYTES) h3 = (q, ws, h4)"
    by (metis prod_cases3)
  have e: "extends unaccounted h h1" "extends unaccounted h1 h2" "extends unaccounted h2 h3"
      "extends unaccounted h3 h4"
    using kdo_hist [OF 1] kdo_hist [OF 2] kdo_out_hist [OF 4] map_bars_unaccounted [OF 3]
    by (auto simp: extends_def unaccounted_def)
  then have e2: "extends unaccounted h h2" and e4: "extends unaccounted h h4"
    by (blast intro: extends_trans)+
  have p: "unaccounted (Printk m)" for m by (simp add: unaccounted_def)
  show ?thesis
    unfolding probe_bars_def 1 2 3 4 Let_def prod.case
    using map_bars_unaccounted [OF 3]
      extends_trans [OF extends_emit [OF e(1) p] probe_exits_unaccounted(2)]
      extends_trans [OF extends_emit [OF e2 p] probe_exits_unaccounted(2)]
      extends_trans [OF extends_emit [OF e4 p] probe_exits_unaccounted(3)]
      extends_emit [OF e4 p]
    by simp
qed

lemma nfpioctl_probe_buffer: "c_buffer (fst (snd (nfpioctl_probe E cd h))) = c_buffer cd"
  by (auto simp: nfpioctl_probe_def Let_def split: prod.splits)

lemma nfp_probe_unaccounted:
  assumes "nfp_probe E sz h = (ret, cd, h')"
  shows "extends unaccounted h h' \<and> m_length (c_buffer cd) = 0"
proof -
  obtain p h1 where 1: "kdo E (Kmalloc sz) h = (p, h1)" by fastforce
  obtain r h2 where 2: "kdo E PciEnableDevice (emit (SemaInit 1) h1) = (r, h2)" by fastforce
  obtain r3 h3 where 3: "pci_set_payload E 128 h2 = (r3, h3)" by fastforce
  obtain r4 h4 where 4: "pcie_set_readrq E 4096 h3 = (r4, h4)" by fastforce
  obtain r5 h5 where 5: "kdo E (PciSetDmaMask DMA_BIT_MASK_64) h4 = (r5, h5)" by fastforce
  obtain r6 h6 where 6: "kdo E (PciSetConsistentDmaMask DMA_BIT_MASK_64) h5 = (r6, h6)" by fastforce
  let ?h7 = "\<lambda>h. emit PciSetMaster (emit (PciSetDrvdata p) h)"
  obtain ret8 cd8 h8 where 8: "nfpioctl_probe E zero_card (?h7 h6) = (ret8, cd8, h8)"
    by (metis prod_cases3)
  have u: "unaccounted (Printk m)" "unaccounted PciSetMaster" "unaccounted (PciSetDrvdata q)" for m q
    by (simp_all add: unaccounted_def)
  have e1: "extends unaccounted h h1" and e2: "extends unaccounted h h2"
    using kdo_hist [OF 1] kdo_hist [OF 2] by (auto simp: extends_def emit_def unaccounted_def)
  have e3: "extends unaccounted h h3"
    using extends_trans [OF e2 config_unaccounted(1) [of h2 E 128]] 3 by simp
  have e4: "extends unaccounted h h4"
    using extends_trans [OF e3 config_unaccounted(2) [of h3 E 4096]] 4 by simp
  have e5: "extends unaccounted h h5" and e6: "extends unaccounted h h6"
    using e4 kdo_hist [OF 5] kdo_hist [OF 6] by (auto simp: extends_def unaccounted_def)
  have "extends unaccounted h (?h7 h6)"
    using e6 u by (intro extends_emit)
  then have e8: "extends unaccounted h h8"
    using extends_trans [OF _ nfpioctl_probe_unaccounted [of "?h7 h6" E zero_card]] 8 by simp
  have b8: "m_length (c_buffer cd8) = 0"
    using nfpioctl_probe_buffer [of E zero_card "?h7 h6"] 8 by (simp add: zero_card_def)
  have z: "m_length (c_buffer zero_card) = 0" by (simp add: zero_card_def)
  have d: "extends unaccounted h (snd (snd (err_out_disable_device q zero_card (emit (Printk m) h'))))"
    if "extends unaccounted h h'" for q m h'
    using extends_trans [OF extends_emit [OF that u(1)] probe_exits_unaccounted(1)] .
  have f: "extends unaccounted h (snd (snd (err_out_ioctl p q cd8 (emit (Printk m) h8))))" for q m
    using extends_trans [OF extends_emit [OF e8 u(1)] probe_exits_unaccounted(2)] .
  have b: "extends unaccounted h (snd (snd (probe_bars E p q cd8 h8)))" for q
    using extends_trans [OF e8] probe_bars_unaccounted by blast
  have "extends unaccounted h (snd (snd (nfp_probe E sz h))) \<and>
      m_length (c_buffer (fst (snd (nfp_probe E sz h)))) = 0"
    unfolding nfp_probe_def 1 2 3 4 5 Let_def prod.case
    using d [OF e3] d [OF e4] d [OF e5] d [OF e6] f b z b8 extends_emit [OF e1 u(1)]
      extends_emit [OF e2 u(1)] probe_bars_unaccounted [of h8 E p ret8 cd8]
    by (simp add: 6 8)
  then show ?thesis using assms by simp
qed

lemma loaded_accounted:
  assumes "nfp_probe E sz [] = (ret, cd, h)"
  shows "accounted (d_k (loaded cd h))"
  using nfp_probe_unaccounted [OF assms] unaccounted_account [of "[]" h]
  by (simp add: accounted_def loaded_def page_list_owned_def map_table_def init_dma_glob_def)


text \<open>
  C8. Nothing is released that was not handed out: from the probe on, whatever calls are made through
  the device file, each DMA mapping is unmapped at most as often as it was made, and each page list
  is freed at most as often as it was allocated; the mappings the driver has on record and the page
  list of a registered buffer have not been released yet. The removal of the card releases none of
  them, so a buffer that is still registered then is lost.
\<close>

theorem never_released_twice:
  assumes "nfp_probe E sz [] = (ret, cd, h')" and "dev_step\<^sup>*\<^sup>* (loaded cd h') s"
  defines "k \<equiv> d_k s"
  shows "unmaps_of (k_hist k) + map_table (k_dma k) \<subseteq># maps_of (k_hist k) \<and>
    vfrees (k_hist k) + page_list_owned (k_card k) (k_mem k) \<subseteq># vmallocs (k_hist k) \<and>
    unmaps_of (nfp_remove E' (k_card k) (k_hist k)) = unmaps_of (k_hist k) \<and>
    vfrees (nfp_remove E' (k_card k) (k_hist k)) = vfrees (k_hist k)"
  using dev_run_account [OF assms(2) loaded_accounted [OF assms(1)]]
    unaccounted_account [OF nfp_remove_unaccounted [of "k_hist k" E' "k_card k"]]
  by (simp add: accounted_def k_def)

section \<open>Witnesses\<close>

text \<open>A file is opened and its window size set, on a kernel that answers 0 to everything.\<close>

definition window_set :: "nfp_card \<Rightarrow> khist \<Rightarrow> khist" where
  "window_set cd h = emit Up (dma_set_window_size 0 cd (h @ [(DownInterruptible, 0), (CopyFromUser 0 8, 0)]))"

lemma window_ioctl:
  "nfp_ioctl idle_env NFPIOC_WINDOW_SIZE 0 k = Some (Inr (0, k\<lparr>k_hist := window_set (k_card k) (k_hist k)\<rparr>))"
  using window_command leD [OF window_command(2)]
  by (simp add: nfp_ioctl_def copy_argument_def copy_struct_def ioctl_dispatch_def kdo_def kdo_out_def
      idle_env_def Let_def window_set_def layout_simps)

lemma window_session:
  "dev_step\<^sup>*\<^sup>* (loaded cd h) ((loaded cd h)\<lparr>d_private := {3},
     d_k := (d_k (loaded cd h))\<lparr>k_hist := window_set cd h\<rparr>\<rparr>)"
proof -
  let ?s = "(loaded cd h)\<lparr>d_private := {3}\<rparr>"
  have "nfp_ops idle_env 3 FOpen (loaded cd h) = Some (Inr (0, ?s))"
    by (simp add: nfp_ops_def nfp_open_def set_private_def loaded_def)
  moreover have "nfp_ops idle_env 3 (FUnlockedIoctl NFPIOC_WINDOW_SIZE 0) ?s
      = Some (Inr (0, ?s\<lparr>d_k := (d_k ?s)\<lparr>k_hist := window_set cd h\<rparr>\<rparr>))"
    by (simp add: nfp_ops_def file_ioctl_def private_data_def window_ioctl loaded_def)
  ultimately have "dev_step\<^sup>*\<^sup>* (loaded cd h) (?s\<lparr>d_k := (d_k ?s)\<lparr>k_hist := window_set cd h\<rparr>\<rparr>)"
    by (meson converse_rtranclp_into_rtranclp operation rtranclp.rtrancl_refl)
  then show ?thesis by simp
qed


theorem never_released_twice_witness:
  "\<exists>ret cd h. nfp_probe (faulty Up 0) CARD_SIZE [] = (ret, cd, h) \<and>
     unmaps_of (window_set cd h) \<subseteq># maps_of (window_set cd h) \<and>
     vfrees (window_set cd h) \<subseteq># vmallocs (window_set cd h)"
proof -
  obtain ret cd h where eq: "nfp_probe (faulty Up 0) CARD_SIZE [] = (ret, cd, h)"
    by (metis prod_cases3)
  with never_released_twice [OF eq window_session] nfp_probe_unaccounted [OF eq] show ?thesis
    by (simp add: loaded_def page_list_owned_def map_table_def init_dma_glob_def)
qed

end
