(* ===== verification/User_Env.thy ===== *)
theory User_Env
  imports Ioctl_Commands
begin

text \<open>
  The boundary of the user-space code. The C library and the system calls are code outside the
  repository: they are a parameter \<open>E :: uenv\<close>, which answers every call from the history of the
  calls made so far (\<open>uret\<close>) and gives the words that a call leaves behind its pointer arguments
  (\<open>uout\<close>). Format strings are recorded without their arguments. A run of user code returns, ends
  the process, or runs into undefined behaviour.
\<close>

section \<open>Calls and environments\<close>

datatype ucall =
    Open string | OpenCreate string | Close int | Unlink string
  | MmapFile int u64 | Munmap u64 u64
  | Stat string
  | Fdopen int | Fopen string | FscanfLd u64 | Fclose u64
  | Vfprintf u64 string | Fflush u64
  | Printf string | PrintfWord u32 | Perror string
  | SchedSetaffinity u64
  | Ioctl int u32 "u64 list" \<comment> \<open>the argument struct as its words; none for a command without one\<close>

type_synonym uhist = "(ucall \<times> u64) list"

record uenv =
  uret :: "uhist \<Rightarrow> ucall \<Rightarrow> u64"
  uout :: "uhist \<Rightarrow> ucall \<Rightarrow> nat \<Rightarrow> u64"

datatype 'a ures = Ret 'a | Exited int uhist | Crash fault

fun ubind :: "'a ures \<Rightarrow> ('a \<Rightarrow> 'b ures) \<Rightarrow> 'b ures" where
  "ubind (Ret x) f = f x"
| "ubind (Exited c h) f = Exited c h"
| "ubind (Crash e) f = Crash e"

definition udo :: "uenv \<Rightarrow> ucall \<Rightarrow> uhist \<Rightarrow> u64 \<times> uhist" where
  "udo E c h = (uret E h c, h @ [(c, uret E h c)])"

definition udo_out :: "uenv \<Rightarrow> ucall \<Rightarrow> uhist \<Rightarrow> u64 \<times> (nat \<Rightarrow> u64) \<times> uhist" where
  "udo_out E c h = (uret E h c, uout E h c, h @ [(c, uret E h c)])"

definition uemit :: "ucall \<Rightarrow> uhist \<Rightarrow> uhist" where
  "uemit c h = h @ [(c, 0)]"

text \<open>An ioctl with a pointer to a struct: the words the struct has afterwards.\<close>

definition uioctl :: "uenv \<Rightarrow> int \<Rightarrow> u32 \<Rightarrow> u64 list \<Rightarrow> uhist \<Rightarrow> u64 list \<times> uhist" where
  "uioctl E fd cmd ws h =
     (let (_, out, h) = udo_out E (Ioctl fd cmd ws) h in (map out [0..<length ws], h))"

lemmas ucall_defs = udo_def udo_out_def uemit_def uioctl_def

definition ucalls :: "uhist \<Rightarrow> ucall list" where
  "ucalls h = map fst h"

lemma ucalls_simps [simp]:
  "ucalls [] = []" "ucalls (x # h) = fst x # ucalls h" "ucalls (h @ h') = ucalls h @ ucalls h'"
  by (simp_all add: ucalls_def)

lemma ubind_Ret: "ubind r f = Ret y \<longleftrightarrow> (\<exists>x. r = Ret x \<and> f x = Ret y)"
  by (cases r) auto

lemma ubind_split:
  "P (ubind r f) \<longleftrightarrow> (\<forall>x. r = Ret x \<longrightarrow> P (f x)) \<and> (\<forall>c h. r = Exited c h \<longrightarrow> P (Exited c h)) \<and>
     (\<forall>e. r = Crash e \<longrightarrow> P (Crash e))"
  by (cases r) auto

text \<open>The descriptors that a call closes.\<close>

fun closes :: "ucall \<Rightarrow> int list" where
  "closes (Close fd) = [fd]"
| "closes _ = []"

text \<open>A session: the device file opens and there is a log stream.\<close>

definition session_ok :: "uenv \<Rightarrow> bool" where
  "session_ok E \<longleftrightarrow> (\<forall>h. 0 < s32 (uret E h (Open ''/dev/nfp''))) \<and> (\<forall>h. uret E h (Fdopen 1) \<noteq> 0)"

text \<open>The requests to the driver.\<close>

fun is_ioctl :: "ucall \<Rightarrow> bool" where
  "is_ioctl (Ioctl fd cmd ws) = True"
| "is_ioctl _ = False"

section \<open>Decimal numbers\<close>

text \<open>What \<^verbatim>\<open>%ld\<close> prints for a non-negative number.\<close>

definition digit_char :: "nat \<Rightarrow> char" where
  "digit_char d = char_of (48 + d)"

fun decimal :: "nat \<Rightarrow> string" where
  "decimal n = (if n < 10 then [digit_char n] else decimal (n div 10) @ [digit_char (n mod 10)])"

declare decimal.simps [simp del]

definition dec_digit :: "char \<Rightarrow> nat option" where
  "dec_digit c = (let n = of_char c :: nat in if 48 \<le> n \<and> n \<le> 57 then Some (n - 48) else None)"

interpretation dec: positional_printer 10 dec_digit digit_char
  by unfold_locales (auto simp: dec_digit_def digit_char_def Let_def split: if_splits)

lemma decimal_digits: "all_digits dec_digit (decimal n)"
proof (induction n rule: decimal.induct)
  case (1 n)
  then show ?case
    by (subst decimal.simps) (auto simp: dec.digit_chr)
qed

lemma decimal_value: "digits_value 10 dec_digit (decimal n) = n"
proof (induction n rule: decimal.induct)
  case (1 n)
  have "digits_value 10 dec_digit [digit_char n] = n" if "n < 10"
    using that digits_value_simps(2) [of 10 dec_digit "[]" "digit_char n"] by (simp add: dec.digit_chr)
  then show ?case
    using 1 by (subst decimal.simps) (auto simp: dec.digit_chr)
qed

lemma decimal_nonempty: "decimal n \<noteq> []"
  by (subst decimal.simps) simp

end
