(* ===== verification/Middleware.thy ===== *)
theory Middleware
  imports User_Env
begin

unbundle bit_operations_syntax

text \<open>
  The user-space library between the tools and the driver (src/HOST/middleware): the log stream
  (debug.c), start and end of a session (init.c), allocation of huge pages (huge_page.c) and the
  requests to the driver (transfer.c).
\<close>

section \<open>State\<close>

record hugepage =
  hp_identifier :: int
  hp_data :: u64

text \<open>The static variables of the four files, and the history.\<close>

record ust =
  u_log :: u64 \<comment> \<open>\<open>rte_logs.file\<close>\<close>
  u_fd :: int \<comment> \<open>\<open>fd\<close> of init.c\<close>
  u_sz :: u64 \<comment> \<open>\<open>sz\<close> of huge_page.c\<close>
  u_hp :: hugepage \<comment> \<open>\<open>hp\<close> of transfer.c\<close>
  u_hist :: uhist

definition init_ust :: ust where
  "init_ust = \<lparr>u_log = 0, u_fd = 0, u_sz = 0, u_hp = \<lparr>hp_identifier = 0, hp_data = 0\<rparr>, u_hist = []\<rparr>"

section \<open>debug.c\<close>

definition rte_openlog_stream :: "u64 \<Rightarrow> ust \<Rightarrow> int \<times> ust" where
  "rte_openlog_stream f st = (0, st\<lparr>u_log := f\<rparr>)"

definition rte_actuallog_stream :: "ust \<Rightarrow> u64" where
  "rte_actuallog_stream st = u_log st"

definition rte_vlog :: "uenv \<Rightarrow> string \<Rightarrow> ust \<Rightarrow> (int \<times> ust) ures" where
  "rte_vlog E format st =
     (let f = u_log st
      in if f = 0 then Crash NullDeref
         else
           let (ret, h) = udo E (Vfprintf f format) (u_hist st);
               h = uemit (Fflush f) h
           in Ret (s32 ret, st\<lparr>u_hist := h\<rparr>))"

section \<open>init.c\<close>

definition CPU_AFFINITY :: nat where
  "CPU_AFFINITY = 0"

definition set_affinity :: "ust \<Rightarrow> ust" where
  "set_affinity st = st\<lparr>u_hist := uemit (SchedSetaffinity (set_bit CPU_AFFINITY 0)) (u_hist st)\<rparr>"

definition rte_free :: "uenv \<Rightarrow> string \<Rightarrow> ust \<Rightarrow> ust ures" where
  "rte_free E format st =
     ubind (rte_vlog E format st) (\<lambda>(_, st).
       if u_fd st \<noteq> 0 then
         let h = uemit (Fclose (rte_actuallog_stream st)) (u_hist st);
             h = uemit (Close (u_fd st)) h
         in Ret (st\<lparr>u_fd := 0, u_hist := h\<rparr>)
       else Ret st)"

definition rte_exit :: "uenv \<Rightarrow> int \<Rightarrow> string \<Rightarrow> ust \<Rightarrow> 'a ures" where
  "rte_exit E exit_code format st =
     ubind (rte_free E format st) (\<lambda>st. Exited exit_code (u_hist st))"

definition rte_eal_init :: "uenv \<Rightarrow> ust \<Rightarrow> (int \<times> ust) ures" where
  "rte_eal_init E st =
     (let (log, h) = udo E (Fdopen 1) (u_hist st);
          (_, st) = rte_openlog_stream log (st\<lparr>u_hist := h\<rparr>);
          st = set_affinity st;
          (fd, h) = udo E (Open ''/dev/nfp'') (u_hist st);
          st = st\<lparr>u_fd := s32 fd, u_hist := h\<rparr>
      in if u_fd st \<le> 0 then
           rte_exit E (- 1) ''Error opening /dev/nfp. Do you have privileges?'' st
         else Ret (0, st))"

definition getCharDeviceDescriptor :: "ust \<Rightarrow> int" where
  "getCharDeviceDescriptor st = u_fd st"

section \<open>huge_page.c\<close>

definition FILE_NAME :: string where
  "FILE_NAME = ''/dev/hugepages/test''"

definition MAP_FAILED :: u64 where
  "MAP_FAILED = - 1"

definition alloc_hugepage :: "uenv \<Rightarrow> hugepage \<Rightarrow> u64 \<Rightarrow> ust \<Rightarrow> int \<times> hugepage \<times> ust" where
  "alloc_hugepage E hp sz st =
     (let st = st\<lparr>u_sz := sz\<rparr>;
          (fd, h) = udo E (OpenCreate FILE_NAME) (u_hist st);
          hp = hp\<lparr>hp_identifier := s32 fd\<rparr>
      in if hp_identifier hp < 0 then
           (- 1, hp, st\<lparr>u_hist := uemit (Perror ''Open failed'') h\<rparr>)
         else
           let (a, h) = udo E (MmapFile (hp_identifier hp) (u_sz st)) h;
               hp = hp\<lparr>hp_data := a\<rparr>
           in if hp_data hp = MAP_FAILED then
                let h = uemit (Perror ''mmap'') h;
                    h = uemit (Unlink FILE_NAME) h
                in (- 1, hp, st\<lparr>u_hist := h\<rparr>)
              else (0, hp, st\<lparr>u_hist := h\<rparr>))"

definition free_hugepage :: "hugepage \<Rightarrow> ust \<Rightarrow> hugepage \<times> ust" where
  "free_hugepage hp st =
     (let h = uemit (Munmap (hp_data hp) (u_sz st)) (u_hist st);
          h = uemit (Close (hp_identifier hp)) h;
          h = uemit (Unlink FILE_NAME) h
      in (\<lparr>hp_identifier = 0, hp_data = 0\<rparr>, st\<lparr>u_hist := h\<rparr>))"

text \<open>The word \<open>stat\<close> stores is \<open>st_mode\<close>.\<close>

definition S_ISDIR :: "u64 \<Rightarrow> bool" where
  "S_ISDIR m \<longleftrightarrow> m AND 0xF000 = 0x4000"

definition hugepage_size :: "uenv \<Rightarrow> ust \<Rightarrow> u64 \<times> ust" where
  "hugepage_size E st =
     (let (err, s, h) = udo_out E (Stat ''/sys/kernel/mm/hugepages'') (u_hist st)
      in if s32 err = - 1 then (0, st\<lparr>u_hist := h\<rparr>)
         else if S_ISDIR (s 0) then
           let (err, h) = udo E (Stat ''/sys/kernel/mm/hugepages/hugepages-1048576kB'') h
           in if s32 err = - 1 then
                let (err, h) = udo E (Stat ''/sys/kernel/mm/hugepages/hugepages-2048kB'') h
                in if s32 err = - 1 then (0, st\<lparr>u_hist := h\<rparr>)
                   else (2048, st\<lparr>u_hist := h\<rparr>)
              else (1024 * 1024 * 1024, st\<lparr>u_hist := h\<rparr>)
         else (0, st\<lparr>u_hist := h\<rparr>))"

definition hugepage_file :: "u64 \<Rightarrow> string" where
  "hugepage_file size_kb =
     ''/sys/kernel/mm/hugepages/hugepages-'' @ decimal (unat size_kb) @ ''kB/free_hugepages''"

definition hugepage_number :: "uenv \<Rightarrow> ust \<Rightarrow> (u64 \<times> ust) ures" where
  "hugepage_number E st =
     (let (sz, st) = hugepage_size E st;
          (f, h) = udo E (Fopen (hugepage_file (sz div 1024))) (u_hist st)
      in if f = 0 then Ret (0, st\<lparr>u_hist := h\<rparr>)
         else
           let (n, out, h) = udo_out E (FscanfLd f) h;
               h = uemit (Fclose f) h
           in if s32 n = 1 then Ret (out 0, st\<lparr>u_hist := h\<rparr>) else Crash Uninitialised)"

section \<open>transfer.c\<close>

definition reg_request :: "u8 \<Rightarrow> u32 \<Rightarrow> u32 \<Rightarrow> reg32" where
  "reg_request bar offset data = \<lparr>r_data = data, r_bar = ucast bar, r_offset = ucast offset\<rparr>"

definition writeWord :: "uenv \<Rightarrow> u8 \<Rightarrow> u32 \<Rightarrow> u32 \<Rightarrow> ust \<Rightarrow> u32 \<times> ust" where
  "writeWord E bar offset data st =
     (let (ws, h) = uioctl E (getCharDeviceDescriptor st) NFPIOC_WRITE_32
                      (reg32_words (reg_request bar offset data)) (u_hist st)
      in (r_data (words_reg32 ws), st\<lparr>u_hist := h\<rparr>))"

definition readWord :: "uenv \<Rightarrow> u8 \<Rightarrow> u32 \<Rightarrow> ust \<Rightarrow> u32 \<times> ust" where
  "readWord E bar offset st =
     (let (ws, h) = uioctl E (getCharDeviceDescriptor st) NFPIOC_READ_32
                      (reg32_words (reg_request bar offset 0)) (u_hist st)
      in (r_data (words_reg32 ws), st\<lparr>u_hist := h\<rparr>))"

text \<open>\<open>KERNEL_PAGE_SIZE * npages\<close> is a 32-bit product.\<close>

definition page_bytes :: "u32 \<Rightarrow> u64" where
  "page_bytes npages = ucast (ucast KERNEL_PAGE_SIZE * npages)"

definition getFreePages :: "uenv \<Rightarrow> u32 \<Rightarrow> ust \<Rightarrow> u64 \<times> ust" where
  "getFreePages E npages st =
     (let (a, h) = udo E (MmapFile (getCharDeviceDescriptor st) (page_bytes npages)) (u_hist st)
      in if a = MAP_FAILED then (0, st\<lparr>u_hist := uemit (Perror ''mmap: '') h\<rparr>)
         else (a, st\<lparr>u_hist := h\<rparr>))"

definition unsetFreePages :: "u64 \<Rightarrow> u32 \<Rightarrow> ust \<Rightarrow> ust" where
  "unsetFreePages address npages st =
     st\<lparr>u_hist := uemit (Munmap address (page_bytes npages)) (u_hist st)\<rparr>"

text \<open>\<open>pad0\<close> and \<open>pad1\<close> are the padding bytes of the struct on the stack.\<close>

definition getFreeHugePages ::
  "uenv \<Rightarrow> 56 word \<Rightarrow> u32 \<Rightarrow> u32 \<Rightarrow> ust \<Rightarrow> (u64 \<times> ust) ures" where
  "getFreeHugePages E pad0 pad1 npages st =
     (let fd = getCharDeviceDescriptor st
      in ubind (if npages = 0
                then ubind (hugepage_number E st) (\<lambda>(n, st). Ret (ucast n, st))
                else Ret (npages, st)) (\<lambda>(npages, st).
           let (size1, st) = hugepage_size E st;
               tsize = ucast npages * size1;
               (ret, hp, st) = alloc_hugepage E (u_hp st) tsize st;
               st = st\<lparr>u_hp := hp\<rparr>
           in if ret \<noteq> 0 then
                rte_exit E (- 1) ''Hugepage alloc error'' (st\<lparr>u_hist := uemit (Close fd) (u_hist st)\<rparr>)
              else
                let (size2, st) = hugepage_size E st;
                    db = \<lparr>db_is_hp = 1, db_data = hp_data (u_hp st), db_length = tsize,
                          db_hp_size = size2, db_n_hp = npages\<rparr>;
                    (_, h) = uioctl E fd NFPIOC_REGISTER_BUFFER (dma_buffer_words pad0 pad1 db) (u_hist st)
                in Ret (hp_data (u_hp st), st\<lparr>u_hist := h\<rparr>)))"

definition unsetHugeFreePages :: "u64 \<Rightarrow> u32 \<Rightarrow> ust \<Rightarrow> ust" where
  "unsetHugeFreePages address npages st =
     (if hp_data (u_hp st) \<noteq> 0 then
        let st = st\<lparr>u_hist := uemit (Ioctl (getCharDeviceDescriptor st) NFPIOC_UNREGISTER_BUFFER [])
                               (u_hist st)\<rparr>;
            (hp, st) = free_hugepage (u_hp st) st
        in st\<lparr>u_hp := hp\<rparr>
      else st)"

definition writeDescriptor :: "uenv \<Rightarrow> dma_descriptor_sw \<Rightarrow> ust \<Rightarrow> u32 \<times> dma_descriptor_sw \<times> ust" where
  "writeDescriptor E l st =
     (let (ws, h) = uioctl E (getCharDeviceDescriptor st) NFPIOC_WRITE_DMA_DESCRIPTOR
                      (dma_descriptor_sw_words l) (u_hist st)
      in (0, words_dma_descriptor_sw ws, st\<lparr>u_hist := h\<rparr>))"

definition readDescriptor :: "uenv \<Rightarrow> dma_descriptor_sw \<Rightarrow> ust \<Rightarrow> u32 \<times> dma_descriptor_sw \<times> ust" where
  "readDescriptor E l st =
     (let (ws, h) = uioctl E (getCharDeviceDescriptor st) NFPIOC_READ_DMA_DESCRIPTOR
                      (dma_descriptor_sw_words l) (u_hist st)
      in (0, words_dma_descriptor_sw ws, st\<lparr>u_hist := h\<rparr>))"

definition setWindowSize :: "uenv \<Rightarrow> u64 \<Rightarrow> ust \<Rightarrow> u32 \<times> ust" where
  "setWindowSize E ws st =
     (let (_, h) = uioctl E (getCharDeviceDescriptor st) NFPIOC_WINDOW_SIZE [ws] (u_hist st)
      in (0, st\<lparr>u_hist := h\<rparr>))"

section \<open>Properties\<close>

lemma hugepage_size_frame:
  assumes "hugepage_size E st = (sz, st')"
  shows "\<exists>h. st' = st\<lparr>u_hist := h\<rparr>" and "sz \<in> {0, 2048, 0x40000000}"
  using assms by (auto simp: hugepage_size_def udo_def udo_out_def Let_def split: if_splits)

lemma hugepage_size_extends:
  assumes "hugepage_size E st = (sz, st')"
  shows "\<exists>es. st' = st\<lparr>u_hist := u_hist st @ es\<rparr>"
  using assms by (auto simp: hugepage_size_def udo_def udo_out_def Let_def split: if_splits)

lemma hugepage_number_frame:
  assumes "hugepage_number E st = Ret (n, st')"
  shows "\<exists>h. st' = st\<lparr>u_hist := h\<rparr>"
proof -
  obtain sz st1 where 1: "hugepage_size E st = (sz, st1)" by fastforce
  obtain h where "st1 = st\<lparr>u_hist := h\<rparr>" using hugepage_size_frame [OF 1] by blast
  then show ?thesis
    using assms by (auto simp: hugepage_number_def 1 ucall_defs Let_def split: if_splits)
qed

lemma alloc_hugepage_ok:
  assumes "alloc_hugepage E hp sz st = (0, hp', st')"
  shows "0 \<le> hp_identifier hp' \<and> hp_data hp' \<noteq> MAP_FAILED \<and>
    st' = st\<lparr>u_sz := sz, u_hist := u_hist st @ [(OpenCreate FILE_NAME, uret E (u_hist st) (OpenCreate FILE_NAME)),
      (MmapFile (hp_identifier hp') sz, hp_data hp')]\<rparr>"
  using assms by (auto simp: alloc_hugepage_def udo_def Let_def split: if_splits)

lemma rte_exit_not_Ret: "rte_exit E c f st \<noteq> Ret x"
  by (auto simp: rte_exit_def ubind_Ret)

lemma get_huge_pages_run:
  assumes "getFreeHugePages E pad0 pad1 npages st = Ret (a, st')"
  shows "\<exists>n size1 size2 h r. st' = st\<lparr>u_sz := ucast n * size1, u_hp := u_hp st', u_hist :=
      h @ [(Ioctl (u_fd st) NFPIOC_REGISTER_BUFFER (dma_buffer_words pad0 pad1
        \<lparr>db_is_hp = 1, db_data = a, db_length = ucast n * size1, db_hp_size = size2, db_n_hp = n\<rparr>), r)]\<rparr> \<and>
    size1 \<in> {0, 2048, 0x40000000} \<and> size2 \<in> {0, 2048, 0x40000000} \<and> (npages = 0 \<or> n = npages) \<and>
    (MmapFile (hp_identifier (u_hp st')) (ucast n * size1), a) \<in> set h \<and>
    hp_data (u_hp st') = a \<and> a \<noteq> MAP_FAILED"
proof -
  obtain n st1 where 1: "(npages = 0 \<or> n = npages)" "\<exists>h. st1 = st\<lparr>u_hist := h\<rparr>"
    "(if npages = 0 then ubind (hugepage_number E st) (\<lambda>(n, st). Ret (ucast n, st)) else Ret (npages, st))
      = Ret (n, st1)"
  proof (cases "npages = 0")
    case True
    then show ?thesis
      using assms that hugepage_number_frame [of E st]
      by (auto simp: getFreeHugePages_def ubind_Ret Let_def)
  next
    case False
    then show ?thesis
      using that [of npages st] exI [of "\<lambda>h. st = st\<lparr>u_hist := h\<rparr>" "u_hist st"] by simp
  qed
  obtain size1 st2 where 2: "hugepage_size E st1 = (size1, st2)" by fastforce
  obtain ret hp st3 where 3: "alloc_hugepage E (u_hp st2) (ucast n * size1) st2 = (ret, hp, st3)"
    by (metis prod_cases3)
  obtain size2 st4 where 4: "hugepage_size E (st3\<lparr>u_hp := hp\<rparr>) = (size2, st4)" by fastforce
  have run: "(if ret \<noteq> 0 then rte_exit E (- 1) ''Hugepage alloc error''
        (st3\<lparr>u_hp := hp, u_hist := uemit (Close (u_fd st)) (u_hist st3)\<rparr>)
      else Ret (hp_data (u_hp st4), st4\<lparr>u_hist := snd (uioctl E (u_fd st) NFPIOC_REGISTER_BUFFER
        (dma_buffer_words pad0 pad1 \<lparr>db_is_hp = 1, db_data = hp_data (u_hp st4),
          db_length = ucast n * size1, db_hp_size = size2, db_n_hp = n\<rparr>) (u_hist st4))\<rparr>)) = Ret (a, st')"
    using assms 1(3) 2 3 4
    by (simp add: getFreeHugePages_def Let_def getCharDeviceDescriptor_def case_prod_beta split: if_splits)
  then have ret: "ret = 0"
    by (cases "ret = 0") (simp_all add: rte_exit_not_Ret)
  note al = alloc_hugepage_ok [OF 3 [unfolded ret]]
  obtain h1 h2 where h: "st1 = st\<lparr>u_hist := h1\<rparr>" "st2 = st1\<lparr>u_hist := h2\<rparr>"
    using 1(2) hugepage_size_frame(1) [OF 2] by blast
  obtain es where es: "st4 = st3\<lparr>u_hp := hp, u_hist := u_hist st3 @ es\<rparr>"
    using hugepage_size_extends [OF 4] by auto
  define H where "H = u_hist st4"
  have st4: "st4 = st\<lparr>u_sz := ucast n * size1, u_hp := hp, u_hist := H\<rparr>"
    unfolding H_def es using conjunct2 [OF conjunct2 [OF al]] by (simp add: h)
  have m: "(MmapFile (hp_identifier hp) (ucast n * size1), hp_data hp) \<in> set H"
    unfolding H_def es using conjunct2 [OF conjunct2 [OF al]] by simp
  let ?c = "Ioctl (u_fd st) NFPIOC_REGISTER_BUFFER (dma_buffer_words pad0 pad1
        \<lparr>db_is_hp = 1, db_data = hp_data hp, db_length = ucast n * size1, db_hp_size = size2, db_n_hp = n\<rparr>)"
  have "a = hp_data hp \<and> st' = st\<lparr>u_sz := ucast n * size1, u_hp := hp, u_hist := H @ [(?c, uret E H ?c)]\<rparr>"
    using run ret unfolding st4 by (auto simp: ucall_defs)
  then show ?thesis
    using m al hugepage_size_frame(2) [OF 2] hugepage_size_frame(2) [OF 4] 1(1)
    by (intro exI [of _ n] exI [of _ size1] exI [of _ size2] exI [of _ H] exI [of _ "uret E H ?c"]) simp
qed

text \<open>
  C34. Huge pages that are handed out are mapped, and the driver is told about exactly this mapping:
  the last call is the registration of a struct that decodes to the address returned, the length
  that was mapped and the page size and count. Giving them back unregisters the buffer, unmaps the
  whole length, closes and removes the file; giving them back again does nothing.
\<close>

theorem hugepages_lifecycle:
  assumes "getFreeHugePages E pad0 pad1 npages st = Ret (a, st')" and "a \<noteq> 0"
  shows "\<exists>n size1 size2 ws hpid. let len = ucast n * size1; st'' = unsetHugeFreePages p k st' in
    last (ucalls (u_hist st')) = Ioctl (u_fd st) NFPIOC_REGISTER_BUFFER ws \<and>
    words_dma_buffer ws = \<lparr>db_is_hp = 1, db_data = a, db_length = len, db_hp_size = size2, db_n_hp = n\<rparr> \<and>
    (npages = 0 \<or> n = npages) \<and> size1 \<in> {0, 2048, 0x40000000} \<and> size2 \<in> {0, 2048, 0x40000000} \<and>
    (MmapFile hpid len, a) \<in> set (u_hist st') \<and> a \<noteq> MAP_FAILED \<and>
    ucalls (u_hist st'') = ucalls (u_hist st') @ [Ioctl (u_fd st) NFPIOC_UNREGISTER_BUFFER [],
      Munmap a len, Close hpid, Unlink FILE_NAME] \<and>
    unsetHugeFreePages p k st'' = st''"
proof -
  obtain n size1 size2 h r where run: "st' = st\<lparr>u_sz := ucast n * size1, u_hp := u_hp st', u_hist :=
      h @ [(Ioctl (u_fd st) NFPIOC_REGISTER_BUFFER (dma_buffer_words pad0 pad1
        \<lparr>db_is_hp = 1, db_data = a, db_length = ucast n * size1, db_hp_size = size2, db_n_hp = n\<rparr>), r)]\<rparr>"
    "size1 \<in> {0, 2048, 0x40000000}" "size2 \<in> {0, 2048, 0x40000000}" "npages = 0 \<or> n = npages"
    "(MmapFile (hp_identifier (u_hp st')) (ucast n * size1), a) \<in> set h"
    "hp_data (u_hp st') = a" "a \<noteq> MAP_FAILED"
    using get_huge_pages_run [OF assms(1)] by blast
  have f: "u_fd st' = u_fd st" "u_sz st' = ucast n * size1"
    "u_hist st' = h @ [(Ioctl (u_fd st) NFPIOC_REGISTER_BUFFER (dma_buffer_words pad0 pad1
        \<lparr>db_is_hp = 1, db_data = a, db_length = ucast n * size1, db_hp_size = size2, db_n_hp = n\<rparr>), r)]"
    by (subst run(1), simp)+
  have "unsetHugeFreePages p k st' = st'\<lparr>u_hp := \<lparr>hp_identifier = 0, hp_data = 0\<rparr>, u_hist := u_hist st'
      @ [(Ioctl (u_fd st) NFPIOC_UNREGISTER_BUFFER [], 0), (Munmap a (ucast n * size1), 0),
         (Close (hp_identifier (u_hp st')), 0), (Unlink FILE_NAME, 0)]\<rparr>"
    using run(6) assms(2) f(1,2)
    by (simp add: unsetHugeFreePages_def free_hugepage_def getCharDeviceDescriptor_def uemit_def Let_def)
  then show ?thesis
    using run(2-) f(3)
    by (intro exI [of _ n] exI [of _ size1] exI [of _ size2] exI [of _ "hp_identifier (u_hp st')"]
        exI [of _ "dma_buffer_words pad0 pad1
        \<lparr>db_is_hp = 1, db_data = a, db_length = ucast n * size1, db_hp_size = size2, db_n_hp = n\<rparr>"])
      (simp add: Let_def dma_buffer_codec.dec_enc unsetHugeFreePages_def)
qed

text \<open>A system with huge pages of one size: \<open>big\<close> for 1 GiB, otherwise 2 MiB.\<close>

definition hugepage_env :: "bool \<Rightarrow> uenv" where
  "hugepage_env big = \<lparr>uret = (\<lambda>h c. case c of
       Stat f \<Rightarrow> if f = ''/sys/kernel/mm/hugepages'' then 0
                else if f = ''/sys/kernel/mm/hugepages/hugepages-1048576kB'' then (if big then 0 else - 1)
                else if big then - 1 else 0
     | OpenCreate f \<Rightarrow> 4 | MmapFile fd len \<Rightarrow> 0x7F0000000000 | Fopen f \<Rightarrow>
         (if f = hugepage_file (if big then 1048576 else 2048) then 5 else 0)
     | FscanfLd f \<Rightarrow> 1 | _ \<Rightarrow> 0),
     uout = (\<lambda>h c i. case c of Stat f \<Rightarrow> 0x41ED | _ \<Rightarrow> 12)\<rparr>"

lemma hugepage_env_size: "fst (hugepage_size (hugepage_env big) st) = (if big then 0x40000000 else 2048)"
  by (simp add: hugepage_size_def hugepage_env_def ucall_defs Let_def S_ISDIR_def)

theorem hugepages_lifecycle_witness:
  "\<exists>a st'. getFreeHugePages (hugepage_env True) 0 0 2 init_ust = Ret (a, st') \<and>
     unsetHugeFreePages 0 0 (unsetHugeFreePages 0 0 st') = unsetHugeFreePages 0 0 st'"
proof -
  have "\<exists>st'. getFreeHugePages (hugepage_env True) 0 0 2 init_ust = Ret (0x7F0000000000, st')"
    by (simp add: getFreeHugePages_def hugepage_size_def alloc_hugepage_def hugepage_env_def
        ucall_defs Let_def S_ISDIR_def s32_def MAP_FAILED_def)
  then obtain st' where st': "getFreeHugePages (hugepage_env True) 0 0 2 init_ust
      = Ret (0x7F0000000000, st')" by blast
  then show ?thesis
    using hugepages_lifecycle [OF st', of 0 0] by (auto simp: Let_def)
qed

text \<open>
  On a system whose huge pages have 2 MiB, \<open>hugepage_size\<close> answers 2048, a number of
  kilobytes, where callers expect bytes (and get bytes for 1 GiB pages). The count of free pages
  is then looked up under a size of 2 kB, where there is no file, and is 0 although 12 pages are
  free; with 1 GiB pages it is found.
\<close>

theorem hugepage_size_unit:
  "fst (hugepage_size (hugepage_env True) init_ust) = 2 ^ 30 \<and>
   fst (hugepage_size (hugepage_env False) init_ust) = 2 ^ 11 \<and>
   (\<exists>st. hugepage_number (hugepage_env True) init_ust = Ret (12, st)) \<and>
   (\<exists>st. hugepage_number (hugepage_env False) init_ust = Ret (0, st) \<and>
      Fopen (hugepage_file 2) \<in> set (ucalls (u_hist st)))"
proof -
  have ne: "hugepage_file 2 \<noteq> hugepage_file 2048"
  proof
    assume "hugepage_file 2 = hugepage_file 2048"
    then have "decimal 2 = decimal 2048" by (simp add: hugepage_file_def)
    then show False using decimal_value [of 2] decimal_value [of 2048] by simp
  qed
  obtain s1 where 1: "hugepage_size (hugepage_env True) init_ust = (0x40000000, s1)"
    using hugepage_env_size [of True init_ust] by (metis prod.collapse)
  obtain s2 where 2: "hugepage_size (hugepage_env False) init_ust = (2048, s2)"
    using hugepage_env_size [of False init_ust] by (metis prod.collapse)
  have "\<exists>st. hugepage_number (hugepage_env True) init_ust = Ret (12, st)"
    unfolding hugepage_number_def 1
    by (simp add: Let_def ucall_defs hugepage_env_def s32_def)
  moreover have "\<exists>st. hugepage_number (hugepage_env False) init_ust = Ret (0, st) \<and>
      Fopen (hugepage_file 2) \<in> set (ucalls (u_hist st))"
    unfolding hugepage_number_def 2 using ne
    by (simp add: Let_def ucall_defs hugepage_env_def)
  ultimately show ?thesis
    by (simp add: 1 2)
qed



end
