(* ===== verification/Rw_Bar.thy ===== *)
theory Rw_Bar
  imports Middleware
begin

text \<open>
  The register access tool (src/HOST/user/rwBar/rwBar.c): the number parser \<open>etoi\<close> with its three
  notations, the arguments, and \<open>main\<close>. A C string is the list of its characters without the
  terminator; \<open>strtol\<close> and \<open>atoi\<close> are those of the C library on strings of digits, where \<open>long\<close>
  has 64 bits.
\<close>

section \<open>Numbers\<close>

definition hex_digit :: "char \<Rightarrow> nat option" where
  "hex_digit c =
     (let n = of_char c :: nat
      in if 48 \<le> n \<and> n \<le> 57 then Some (n - 48)
         else if 97 \<le> n \<and> n \<le> 102 then Some (n - 87)
         else if 65 \<le> n \<and> n \<le> 70 then Some (n - 55)
         else None)"

fun strchr :: "string \<Rightarrow> char \<Rightarrow> nat option" where
  "strchr [] c = None"
| "strchr (d # ds) c = (if c = d then Some 0 else map_option Suc (strchr ds c))"

text \<open>The library conversions of a string of digits: the value saturates at the largest \<open>long\<close> and
  is then converted to 32 bits.\<close>

definition long_value :: "nat \<Rightarrow> u32" where
  "long_value v = of_nat (min v (2 ^ 63 - 1))"

definition strtol16 :: "string \<Rightarrow> u32" where
  "strtol16 cs = long_value (digits_value 16 hex_digit cs)"

definition atoi :: "string \<Rightarrow> u32" where
  "atoi cs = long_value (digits_value 10 dec_digit cs)"

text \<open>The first loop over \<open>value\<close>: it either returns the converted number or is left, with
  \<open>None\<close>.\<close>

fun plain_loop :: "string \<Rightarrow> string \<Rightarrow> u32 option" where
  "plain_loop val [] = None"
| "plain_loop val (c # rest) =
     (if hex_digit c = None then None
      else if rest = [] then Some (strtol16 val)
      else plain_loop val rest)"

text \<open>The second loop, over \<open>value\<close> from its end: \<open>None\<close> is a \<open>break\<close> or an empty string.\<close>

fun group_loop :: "string \<Rightarrow> u32 \<Rightarrow> u32 \<Rightarrow> u32 \<Rightarrow> u32 \<Rightarrow> nat \<Rightarrow> u32 option" where
  "group_loop [] cdword tdword multp multd cnt = None"
| "group_loop (c # rest) cdword tdword multp multd cnt =
     (if cnt mod 4 = 0 \<and> cnt \<noteq> 0 then
        if c \<noteq> CHR ''_'' \<and> c \<noteq> CHR ''-'' then None
        else
          let tdword = tdword + multd * cdword;
              multd = multd * 65536;
              multp = 1;
              cdword = 0;
              cnt = 0
          in if rest = [] then Some (tdword + multd * cdword)
             else group_loop rest cdword tdword multp multd cnt
      else
        case hex_digit c of
          None \<Rightarrow> Some (- 1)
        | Some d \<Rightarrow>
            let cnt = cnt + 1;
                cdword = cdword + of_nat d * multp;
                multp = multp * 16
            in if rest = [] then Some (tdword + multd * cdword)
               else group_loop rest cdword tdword multp multd cnt)"

declare group_loop.simps [simp del]

definition etoi :: "string \<Rightarrow> u32" where
  "etoi cs =
     (case (case strchr cs (CHR ''x'') of Some p \<Rightarrow> Some p | None \<Rightarrow> strchr cs (CHR ''X'')) of
        Some p \<Rightarrow>
          let val = drop (p + 1) cs
          in if p + 1 > 2 then - 1
             else if p + 1 = 2 \<and> cs ! 0 \<noteq> CHR ''0'' then - 1
             else (case plain_loop val val of
                     Some v \<Rightarrow> v
                   | None \<Rightarrow>
                       (case group_loop (rev val) 0 0 1 1 0 of
                          Some v \<Rightarrow> v
                        | None \<Rightarrow> - 1))
      | None \<Rightarrow>
          if list_all (\<lambda>c. dec_digit c \<noteq> None) cs then atoi cs else - 1)"

section \<open>Arguments and main\<close>

datatype DIRECTION = TO_CARD | FROM_CARD

record memory_op =
  op_dir :: DIRECTION
  op_val :: u32
  op_offset :: u32
  op_bar :: u8

text \<open>\<open>argv\<close> has \<open>argc\<close> strings and ends with a null pointer.\<close>

definition etoi_arg :: "string list \<Rightarrow> nat \<Rightarrow> fault + u32" where
  "etoi_arg argv i = (if i < length argv then Inr (etoi (argv ! i)) else Inl NullDeref)"

definition first_char :: "string \<Rightarrow> char" where
  "first_char cs = (case cs of [] \<Rightarrow> CHR 0x00 | c # _ \<Rightarrow> c)"

definition read_numbers :: "string list \<Rightarrow> memory_op \<Rightarrow> fault + memory_op option" where
  "read_numbers argv op =
     (case etoi_arg argv 2 of
        Inl f \<Rightarrow> Inl f
      | Inr b \<Rightarrow>
          (case etoi_arg argv 3 of
             Inl f \<Rightarrow> Inl f
           | Inr off \<Rightarrow> Inr (Some (op\<lparr>op_bar := ucast b, op_offset := off\<rparr>))))"

text \<open>\<open>Inr None\<close> is the result -1.\<close>

definition readArguments :: "string list \<Rightarrow> fault + memory_op option" where
  "readArguments argv =
     (let argc = length argv
      in if argc \<noteq> 2 \<and> argc \<noteq> 4 \<and> argc \<noteq> 5 then Inr None
         else
           let op = first_char (argv ! 1);
               zero = \<lparr>op_dir = TO_CARD, op_val = 0, op_offset = 0, op_bar = 0\<rparr>
           in if op = CHR ''R'' \<or> op = CHR ''r'' then
                read_numbers argv (zero\<lparr>op_dir := FROM_CARD\<rparr>)
              else if op = CHR ''W'' \<or> op = CHR ''w'' then
                if argc \<noteq> 5 then Inr None
                else (case etoi_arg argv 4 of
                        Inl f \<Rightarrow> Inl f
                      | Inr v \<Rightarrow> read_numbers argv (zero\<lparr>op_dir := TO_CARD, op_val := v\<rparr>))
              else Inr None)"

definition printUsage :: "ust \<Rightarrow> ust" where
  "printUsage st =
     st\<lparr>u_hist := uemit (Printf ''You can use this program in the following ways:'') (u_hist st)\<rparr>"

definition rwBar_main :: "uenv \<Rightarrow> string list \<Rightarrow> ust \<Rightarrow> (int \<times> ust) ures" where
  "rwBar_main E argv st =
     (case readArguments argv of
        Inl f \<Rightarrow> Crash f
      | Inr None \<Rightarrow> Ret (0, printUsage st)
      | Inr (Some args) \<Rightarrow>
          ubind (rte_eal_init E st) (\<lambda>(ret, st).
            if ret \<noteq> 0 then Ret (- 1, st\<lparr>u_hist := uemit (Printf ''No target found'') (u_hist st)\<rparr>)
            else
              let st = (if op_dir args = FROM_CARD then
                          let (v, st) = readWord E (op_bar args) (op_offset args) st
                          in st\<lparr>u_hist := uemit (PrintfWord v) (u_hist st)\<rparr>
                        else snd (writeWord E (op_bar args) (op_offset args) (op_val args) st))
              in rte_exit E 0 ''Operation complete'' st))"

section \<open>The notations\<close>

definition hex_char :: "nat \<Rightarrow> char" where
  "hex_char d = (if d < 10 then char_of (48 + d) else char_of (55 + d))"

interpretation hex: positional_printer 16 hex_digit hex_char
  by unfold_locales (auto simp: hex_digit_def hex_char_def Let_def split: if_splits)

lemma hex_digit_not_x [simp]: "hex_digit (CHR ''x'') = None" "hex_digit (CHR ''X'') = None"
  "hex_digit (CHR ''_'') = None" "hex_digit (CHR ''-'') = None"
  by (simp_all add: hex_digit_def)

lemma strchr_none: "strchr cs c = None \<longleftrightarrow> c \<notin> set cs"
  by (induction cs) auto

lemma all_digits_no_char: "all_digits digit cs \<Longrightarrow> digit c = None \<Longrightarrow> c \<notin> set cs"
  by (auto simp: all_digits_def list_all_iff)

lemma plain_loop_digits:
  "all_digits hex_digit cs \<Longrightarrow> cs \<noteq> [] \<Longrightarrow> plain_loop val cs = Some (strtol16 val)"
  by (induction cs) auto

lemma plain_loop_other: "\<not> all_digits hex_digit cs \<Longrightarrow> plain_loop val cs = None"
  by (induction cs) auto

definition hex_prefixes :: "string list" where
  "hex_prefixes = [''x'', ''X'', ''0x'', ''0X'']"

lemma etoi_prefixed:
  assumes "pre \<in> set hex_prefixes" and "CHR ''x'' \<notin> set val" and "CHR ''X'' \<notin> set val"
  shows "etoi (pre @ val) = (case plain_loop val val of Some v \<Rightarrow> v
    | None \<Rightarrow> (case group_loop (rev val) 0 0 1 1 0 of Some v \<Rightarrow> v | None \<Rightarrow> - 1))"
  using assms strchr_none [of val "CHR ''x''"] strchr_none [of val "CHR ''X''"]
  by (auto simp: etoi_def hex_prefixes_def Let_def)

lemma long_value_small: "v < 2 ^ 32 \<Longrightarrow> long_value v = of_nat v"
  by (simp add: long_value_def min_def)

lemma group_loop_digit:
  assumes "\<not> (cnt mod 4 = 0 \<and> cnt \<noteq> 0)" and "hex_digit c = Some d"
  shows "group_loop (c # rest) cd td mp md cnt =
    (if rest = [] then Some (td + md * (cd + of_nat d * mp))
     else group_loop rest (cd + of_nat d * mp) td (mp * 16) md (cnt + 1))"
  using assms by (simp only: group_loop.simps if_False option.case Let_def)

lemma group_loop_digits:
  assumes "all_digits hex_digit ds" and "ds \<noteq> []" and "cnt + length ds \<le> 4"
  shows "group_loop (rev ds @ rest) cd td mp md cnt =
    (if rest = [] then Some (td + md * (cd + of_nat (digits_value 16 hex_digit ds) * mp))
     else group_loop rest (cd + of_nat (digits_value 16 hex_digit ds) * mp) td
            (mp * 16 ^ length ds) md (cnt + length ds))"
  using assms
proof (induction ds arbitrary: cd mp cnt rule: rev_induct)
  case (snoc d ds)
  obtain v where v: "hex_digit d = Some v" using snoc.prems(1) by auto
  have step: "\<not> (cnt mod 4 = 0 \<and> cnt \<noteq> 0)"
    using snoc.prems(3) by (cases "cnt = 0") (auto simp: mod_eq_0_iff_dvd dest!: dvd_imp_le)
  show ?case
  proof (cases "ds = []")
    case True
    then show ?thesis
      using digits_value_simps(2) [of 16 hex_digit "[]" d] v
      by (simp add: group_loop_digit [OF step v])
  next
    case False
    have "group_loop (rev (ds @ [d]) @ rest) cd td mp md cnt
        = group_loop (rev ds @ rest) (cd + of_nat v * mp) td (mp * 16) md (cnt + 1)"
      using False by (simp add: group_loop_digit [OF step v])
    also have "\<dots> = (if rest = []
        then Some (td + md * (cd + of_nat v * mp + of_nat (digits_value 16 hex_digit ds) * (mp * 16)))
        else group_loop rest (cd + of_nat v * mp + of_nat (digits_value 16 hex_digit ds) * (mp * 16)) td
            (mp * 16 * 16 ^ length ds) md (cnt + 1 + length ds))"
      using snoc.prems False by (intro snoc.IH) auto
    finally show ?thesis
      using v by (simp add: algebra_simps)
  qed
qed simp

lemma etoi_plain:
  assumes "pre \<in> set hex_prefixes" and "all_digits hex_digit ds" and "ds \<noteq> []" and "length ds \<le> 8"
  shows "etoi (pre @ ds) = of_nat (digits_value 16 hex_digit ds)"
proof -
  have "digits_value 16 hex_digit ds < 16 ^ length ds"
    using assms(2) by (rule hex.value_bound)
  also have "(16 :: nat) ^ length ds \<le> 16 ^ 8"
    using assms(4) by (intro power_increasing) simp_all
  finally have "strtol16 ds = of_nat (digits_value 16 hex_digit ds)"
    by (simp add: strtol16_def long_value_small)
  then show ?thesis
    using assms plain_loop_digits [OF assms(2,3)] all_digits_no_char [OF assms(2)]
    by (simp add: etoi_prefixed)
qed

lemma etoi_grouped:
  assumes "pre \<in> set hex_prefixes" and "all_digits hex_digit (hi @ lo)"
    and "hi \<noteq> []" and "length hi \<le> 4" and "length lo = 4" and "sep \<in> {CHR ''_'', CHR ''-''}"
  shows "etoi (pre @ hi @ [sep] @ lo) = of_nat (digits_value 16 hex_digit (hi @ lo))"
proof -
  have d: "all_digits hex_digit hi" "all_digits hex_digit lo" "lo \<noteq> []"
    using assms(2,5) by auto
  have nx: "CHR ''x'' \<notin> set (hi @ [sep] @ lo)" "CHR ''X'' \<notin> set (hi @ [sep] @ lo)"
    using all_digits_no_char [OF d(1)] all_digits_no_char [OF d(2)] assms(6) by auto
  have "plain_loop (hi @ [sep] @ lo) (hi @ [sep] @ lo) = None"
    using assms(6) by (intro plain_loop_other) auto
  moreover have "group_loop (rev (hi @ [sep] @ lo)) 0 0 1 1 0
      = Some (of_nat (digits_value 16 hex_digit (hi @ lo)))"
  proof -
    have "group_loop (rev (hi @ [sep] @ lo)) 0 0 1 1 0
        = group_loop (sep # rev hi) (of_nat (digits_value 16 hex_digit lo)) 0 (16 ^ 4) 1 4"
      using group_loop_digits [OF d(2,3), of 0 "sep # rev hi" 0 0 1 1] assms(5) by simp
    also have "\<dots> = group_loop (rev hi) 0 (of_nat (digits_value 16 hex_digit lo)) 1 65536 0"
      using assms(3,6) by (auto simp: group_loop.simps)
    also have "\<dots> = Some (of_nat (digits_value 16 hex_digit lo)
        + 65536 * of_nat (digits_value 16 hex_digit hi))"
      using group_loop_digits [OF d(1) assms(3), of 0 "[]" 0 _ 1 65536] assms(4) by simp
    finally show ?thesis
      by (simp add: digits_value_append assms(5) algebra_simps)
  qed
  ultimately show ?thesis
    using etoi_prefixed [OF assms(1) nx] by simp
qed

lemma etoi_decimal:
  assumes "all_digits dec_digit ds" and "digits_value 10 dec_digit ds < 2 ^ 32"
  shows "etoi ds = of_nat (digits_value 10 dec_digit ds)"
proof -
  have "strchr ds (CHR ''x'') = None" "strchr ds (CHR ''X'') = None"
    using all_digits_no_char [OF assms(1)] by (simp_all add: strchr_none dec_digit_def)
  then show ?thesis
    using assms by (simp add: etoi_def atoi_def long_value_small all_digits_def)
qed

text \<open>
  C31. Every 32-bit value can be given in each documented notation and is parsed back to itself: in
  base 16 with any of the four prefixes, as eight digits or as two groups of four with either
  separator, and in base 10.
\<close>

theorem etoi_roundtrip:
  assumes "pre \<in> set hex_prefixes" and "sep \<in> {CHR ''_'', CHR ''-''}"
  shows "etoi (pre @ fixed_digits 16 hex_char 8 (unat w)) = w \<and>
    etoi (pre @ fixed_digits 16 hex_char 4 (unat w div 65536) @ [sep] @ fixed_digits 16 hex_char 4 (unat w)) = w \<and>
    etoi (decimal (unat w)) = w"
proof (intro conjI)
  have b: "unat w < 4294967296" using unsigned_less [of w] by simp
  show "etoi (pre @ fixed_digits 16 hex_char 8 (unat w)) = w"
    using assms(1) b
    by (subst etoi_plain) (auto simp: hex.fixed_digits_ok hex.fixed_digits_value simp flip: length_0_conv)
  have "digits_value 16 hex_digit (fixed_digits 16 hex_char 4 (unat w div 65536)
      @ fixed_digits 16 hex_char 4 (unat w)) = unat w"
    using b by (simp add: digits_value_append hex.fixed_digits_value less_mult_imp_div_less)
  then show "etoi (pre @ fixed_digits 16 hex_char 4 (unat w div 65536) @ [sep]
      @ fixed_digits 16 hex_char 4 (unat w)) = w"
    using assms
    by (subst etoi_grouped) (auto simp: hex.fixed_digits_ok simp flip: length_0_conv)
  show "etoi (decimal (unat w)) = w"
    using b by (subst etoi_decimal) (simp_all add: decimal_digits decimal_value)
qed

theorem etoi_roundtrip_witness:
  "etoi (''0x'' @ fixed_digits 16 hex_char 8 (unat (0x1A2B3C4D :: u32))) = 0x1A2B3C4D \<and>
   etoi (decimal (unat (0x1A2B3C4D :: u32))) = 0x1A2B3C4D"
  using etoi_roundtrip [of "''0x''" "CHR ''-''" "0x1A2B3C4D"] by (simp add: hex_prefixes_def)

section \<open>The tool\<close>

text \<open>
  C32. What the arguments are taken for: \<open>R\<close> with four or five words is a read of the BAR and offset
  given, \<open>W\<close> with five words a write of the value given; \<open>R\<close> alone dereferences the null pointer at
  the end of \<open>argv\<close>; everything else is refused. No string is rejected as a number: a malformed one
  stands for 0xFFFFFFFF (BAR 255).
\<close>

theorem read_arguments:
  "(readArguments argv = Inl NullDeref \<longleftrightarrow>
      length argv = 2 \<and> first_char (argv ! 1) \<in> {CHR ''R'', CHR ''r''}) \<and>
   (readArguments argv = Inr (Some a) \<longleftrightarrow>
      op_bar a = ucast (etoi (argv ! 2)) \<and> op_offset a = etoi (argv ! 3) \<and>
      (length argv \<in> {4, 5} \<and> first_char (argv ! 1) \<in> {CHR ''R'', CHR ''r''} \<and>
         op_dir a = FROM_CARD \<and> op_val a = 0 \<or>
       length argv = 5 \<and> first_char (argv ! 1) \<in> {CHR ''W'', CHR ''w''} \<and>
         op_dir a = TO_CARD \<and> op_val a = etoi (argv ! 4)))"
  by (cases a) (auto simp: readArguments_def read_numbers_def etoi_arg_def Let_def)

text \<open>The words that are printed.\<close>

fun is_result :: "ucall \<Rightarrow> bool" where
  "is_result (PrintfWord w) = True"
| "is_result _ = False"

text \<open>
  C33. A run with valid arguments in a session that starts ends the process with code 0, after
  exactly one request to the driver: the read or write of the register that the arguments name,
  on the descriptor that was opened. A read prints the word of the driver's answer, and the
  descriptor is closed once.
\<close>

theorem rwBar_main_request:
  assumes "readArguments argv = Inr (Some a)" and "session_ok E" and "u_hist st = []"
  shows "\<exists>fd h out. rwBar_main E argv st = Exited 0 h \<and> 0 < fd \<and>
    filter is_ioctl (ucalls h) =
      [Ioctl fd (if op_dir a = FROM_CARD then NFPIOC_READ_32 else NFPIOC_WRITE_32)
         (reg32_words (reg_request (op_bar a) (op_offset a)
            (if op_dir a = FROM_CARD then 0 else op_val a)))] \<and>
    (\<exists>h0. out = map (uout E h0 (hd (filter is_ioctl (ucalls h)))) [0..<2]) \<and>
    filter is_result (ucalls h) =
      (if op_dir a = FROM_CARD then [PrintfWord (r_data (words_reg32 out))] else []) \<and>
    concat (map closes (ucalls h)) = [fd]"
proof -
  have l: "length (reg32_words r) = 2" for r
    by (rule reg32_codec.enc_length)
  have fd: "\<forall>h. uret E h (Fdopen 1) \<noteq> 0" "0 < s32 (uret E
      [(Fdopen 1, uret E [] (Fdopen 1)), (SchedSetaffinity 1, 0)] (Open ''/dev/nfp''))"
    using assms(2) by (auto simp: session_ok_def)
  show ?thesis
    using assms(1,3) fd
    by (auto simp: rwBar_main_def rte_eal_init_def rte_openlog_stream_def set_affinity_def
        rte_exit_def rte_free_def rte_vlog_def rte_actuallog_stream_def readWord_def writeWord_def
        getCharDeviceDescriptor_def ucall_defs Let_def l CPU_AFFINITY_def not_le)
qed

definition session_env :: uenv where
  "session_env = \<lparr>uret = (\<lambda>h c. case c of Open f \<Rightarrow> 3 | Fdopen n \<Rightarrow> 0x100 | _ \<Rightarrow> 0),
     uout = (\<lambda>h c i. 0xCAFE)\<rparr>"

theorem rwBar_main_request_witness:
  "\<exists>h. rwBar_main session_env [''rwBar'', ''R'', ''1'', ''0x9000''] init_ust = Exited 0 h"
proof -
  have "readArguments [''rwBar'', ''R'', ''1'', ''0x9000''] = Inr (Some \<lparr>op_dir = FROM_CARD,
      op_val = 0, op_offset = etoi ''0x9000'', op_bar = ucast (etoi ''1'')\<rparr>)"
    by (simp add: readArguments_def read_numbers_def etoi_arg_def first_char_def)
  moreover have "session_ok session_env"
    by (simp add: session_ok_def session_env_def s32_def)
  ultimately show ?thesis
    using rwBar_main_request [of "[''rwBar'', ''R'', ''1'', ''0x9000'']" _ session_env init_ust]
    by (auto simp: init_ust_def)
qed

end
