(* ===== verification/Benchmark.thy ===== *)
theory Benchmark
  imports Middleware
begin

text \<open>
  The measuring tool (src/HOST/user/benchmark/benchmark.c): sizes with units, the command line and
  its validation, the checks and the descriptor of one iteration, the accounting of bytes, and the
  preparation of the cache. What is printed is not modelled; the answers of \<open>rand\<close> are a parameter.
\<close>

section \<open>Sizes\<close>

definition isspace :: "char \<Rightarrow> bool" where
  "isspace c \<longleftrightarrow> c = CHR '' '' \<or> (9 \<le> (of_char c :: nat) \<and> (of_char c :: nat) \<le> 13)"

definition toupper :: "char \<Rightarrow> char" where
  "toupper c = (let n = of_char c :: nat in if 97 \<le> n \<and> n \<le> 122 then char_of (n - 32) else c)"

text \<open>The conversion \<^verbatim>\<open>%ld\<close> of \<open>sscanf\<close>: blanks, an optional sign, digits; the value saturates at the
  bounds of \<open>long\<close>. \<open>None\<close> when there is no digit.\<close>

definition scan_digits :: "string \<Rightarrow> (nat \<times> string) option" where
  "scan_digits cs =
     (let ds = takeWhile (\<lambda>c. dec_digit c \<noteq> None) cs
      in if ds = [] then None
         else Some (digits_value 10 dec_digit ds, dropWhile (\<lambda>c. dec_digit c \<noteq> None) cs))"

definition scan_ld :: "string \<Rightarrow> (u64 \<times> string) option" where
  "scan_ld cs =
     (let cs = dropWhile isspace cs
      in case cs of
           [] \<Rightarrow> None
         | c # rest \<Rightarrow>
             if c = CHR ''-'' then
               map_option (map_prod (\<lambda>v. - of_nat (min v (2 ^ 63))) id) (scan_digits rest)
             else
               map_option (map_prod (\<lambda>v. of_nat (min v (2 ^ 63 - 1))) id)
                 (scan_digits (if c = CHR ''+'' then rest else cs)))"

definition string2bytes :: "string \<Rightarrow> fault + u64" where
  "string2bytes s =
     (case scan_ld s of
        None \<Rightarrow> Inl Uninitialised
      | Some (sz, []) \<Rightarrow> Inr sz
      | Some (sz, unit # _) \<Rightarrow>
          Inr (if toupper unit = CHR ''G'' then sz * (1024 * 1024 * 1024)
               else if toupper unit = CHR ''M'' then sz * (1024 * 1024)
               else if toupper unit = CHR ''K'' then sz * 1024
               else sz))"

section \<open>The command line\<close>

definition PAGE_SIZE :: u64 where
  "PAGE_SIZE = 4096"

definition MAX_WINDOW_SIZE :: u64 where
  "MAX_WINDOW_SIZE = 24"

definition MAX_DMA_DESCRIPTORS :: u64 where
  "MAX_DMA_DESCRIPTORS = 1024"

datatype pattern = FIX | SEQ | RAN

datatype direction = D2H | H2D | BOTH

datatype cache = IGNORE | DISCARD | WARM

datatype test = LATENCY | BANDWIDTH

text \<open>The union of the pattern properties as its three words: the first is the initial offset of
  \<open>FIX\<close> and the number of pages of \<open>RAN\<close>.\<close>

record properties =
  p_first :: u64
  p_cachelines :: u64
  p_windowsize :: u64

record arguments =
  a_niters :: u64
  a_nbytes :: u64
  a_wsize :: u64
  a_test :: test
  a_pat :: pattern
  a_dir :: direction
  a_cache :: cache
  a_prop :: properties
  a_file_name :: "string option" \<comment> \<open>\<open>None\<close>: a null pointer\<close>

definition default_arguments :: arguments where
  "default_arguments = \<lparr>a_niters = 0, a_nbytes = 0, a_wsize = MAX_WINDOW_SIZE, a_test = LATENCY,
     a_pat = FIX, a_dir = D2H, a_cache = IGNORE,
     a_prop = \<lparr>p_first = 0, p_cachelines = 0, p_windowsize = 0\<rparr>, a_file_name = Some ''/dev/stdout''\<rparr>"

text \<open>An option value that is a number; a missing value is the null pointer at the end of \<open>argv\<close>.\<close>

definition sized ::
  "string list \<Rightarrow> (u64 \<Rightarrow> arguments) \<Rightarrow> fault + (arguments \<times> string list) option" where
  "sized rest f =
     (case rest of [] \<Rightarrow> Inl NullDeref
      | v # rest \<Rightarrow> (case string2bytes v of Inl e \<Rightarrow> Inl e | Inr n \<Rightarrow> Inr (Some (f n, rest))))"

text \<open>An option value that is one of some words; another word gives -1 (\<open>Inr None\<close>).\<close>

definition keyword ::
  "string list \<Rightarrow> (string \<times> arguments) list \<Rightarrow> fault + (arguments \<times> string list) option" where
  "keyword rest table =
     (case rest of [] \<Rightarrow> Inl NullDeref
      | v # rest \<Rightarrow> (case map_of table v of None \<Rightarrow> Inr None | Some a \<Rightarrow> Inr (Some (a, rest))))"

definition pattern_option :: "string list \<Rightarrow> arguments \<Rightarrow> fault + (arguments \<times> string list) option" where
  "pattern_option rest a =
     (case rest of [] \<Rightarrow> Inl NullDeref
      | v # rest \<Rightarrow>
          if v = ''SEQ'' then Inr (Some (a\<lparr>a_pat := SEQ\<rparr>, rest))
          else if v = ''FIX'' then
            sized rest (\<lambda>n. a\<lparr>a_pat := FIX, a_prop := (a_prop a)\<lparr>p_first := n\<rparr>\<rparr>)
          else if v = ''RAN'' then
            (case sized rest (\<lambda>n. a\<lparr>a_pat := RAN, a_prop := \<lparr>p_first = (n + PAGE_SIZE - 1) div PAGE_SIZE,
                    p_cachelines = n div 64, p_windowsize = n\<rparr>\<rparr>) of
               Inr (Some (a', rest)) \<Rightarrow>
                 if p_first (a_prop a') = 0 then Inr None else Inr (Some (a', rest))
             | r \<Rightarrow> r)
          else Inr None)"

text \<open>The body of the loop over the options: the arguments and the words that are left.\<close>

definition apply_option ::
  "string \<Rightarrow> string list \<Rightarrow> arguments \<Rightarrow> fault + (arguments \<times> string list) option" where
  "apply_option opt rest a =
     (if opt = ''-t'' then
        keyword rest [(''lat'', a\<lparr>a_test := LATENCY\<rparr>), (''bw'', a\<lparr>a_test := BANDWIDTH\<rparr>)]
      else if opt = ''-f'' then
        Inr (Some (case rest of [] \<Rightarrow> (a\<lparr>a_file_name := None\<rparr>, [])
                   | v # rest \<Rightarrow> (a\<lparr>a_file_name := Some v\<rparr>, rest)))
      else if opt = ''-n'' then sized rest (\<lambda>n. a\<lparr>a_nbytes := n\<rparr>)
      else if opt = ''-l'' then sized rest (\<lambda>n. a\<lparr>a_niters := n\<rparr>)
      else if opt = ''-w'' then sized rest (\<lambda>n. a\<lparr>a_wsize := n\<rparr>)
      else if opt = ''-d'' then
        keyword rest [(''RW'', a\<lparr>a_dir := BOTH\<rparr>), (''rw'', a\<lparr>a_dir := BOTH\<rparr>),
          (''R'', a\<lparr>a_dir := D2H\<rparr>), (''r'', a\<lparr>a_dir := D2H\<rparr>),
          (''W'', a\<lparr>a_dir := H2D\<rparr>), (''w'', a\<lparr>a_dir := H2D\<rparr>)]
      else if opt = ''-c'' then
        keyword rest [(''discard'', a\<lparr>a_cache := DISCARD\<rparr>), (''warm'', a\<lparr>a_cache := WARM\<rparr>),
          (''ignore'', a\<lparr>a_cache := IGNORE\<rparr>)]
      else if opt = ''-p'' then pattern_option rest a
      else Inr None)"

lemma sized_shorter: "sized rest f = Inr (Some (a, rest')) \<Longrightarrow> length rest' < length rest"
  by (auto simp: sized_def split: list.splits sum.splits)

lemma keyword_shorter: "keyword rest t = Inr (Some (a, rest')) \<Longrightarrow> length rest' < length rest"
  by (auto simp: keyword_def split: list.splits option.splits)

lemma pattern_shorter: "pattern_option rest a = Inr (Some (a', rest')) \<Longrightarrow> length rest' < length rest"
  by (auto simp: pattern_option_def dest!: sized_shorter
      split: list.splits if_splits sum.splits option.splits)

lemma apply_option_shorter:
  "apply_option opt rest a = Inr (Some (a', rest')) \<Longrightarrow> length rest' \<le> length rest"
  by (auto simp: apply_option_def
      dest!: sized_shorter keyword_shorter pattern_shorter split: if_splits list.splits)

text \<open>The loop over the options. \<open>Inr None\<close> is the result -1.\<close>

function parse :: "string list \<Rightarrow> arguments \<Rightarrow> fault + arguments option" where
  "parse [] a = Inr (Some a)"
| "parse (opt # rest) a =
     (case apply_option opt rest a of
        Inl f \<Rightarrow> Inl f
      | Inr None \<Rightarrow> Inr None
      | Inr (Some (a', rest')) \<Rightarrow> parse rest' a')"
  by pat_completeness auto
termination
  by (relation "measure (\<lambda>(ws, a). length ws)") (auto dest!: apply_option_shorter)

definition readArguments :: "string list \<Rightarrow> fault + arguments option" where
  "readArguments argv =
     (let argc = length argv
      in if argc < 2 \<or> 18 < argc then Inr None
         else case parse (tl argv) default_arguments of
                Inl f \<Rightarrow> Inl f
              | Inr None \<Rightarrow> Inr None
              | Inr (Some a) \<Rightarrow>
                  if MAX_WINDOW_SIZE < a_wsize a \<or> a_wsize a < 1 then Inr None
                  else if a_nbytes a mod 4 \<noteq> 0 then Inr None
                  else if MAX_DMA_DESCRIPTORS \<le> a_niters a \<or> a_niters a \<le> 0 then Inr None
                  else Inr (Some a))"

section \<open>One iteration\<close>

definition MAX_READ_REQUEST_SIZE :: nat where
  "MAX_READ_REQUEST_SIZE = 512"

definition MAX_PAYLOAD :: nat where
  "MAX_PAYLOAD = 256"

definition DEFAULT_NUMBER_TLPS :: u64 where
  "DEFAULT_NUMBER_TLPS = 512 * 512"

text \<open>The division is an integer division, so that \<open>ceil\<close> has nothing to round. \<open>None\<close>: there is no
  latency test in this direction.\<close>

definition number_of_tlps :: "arguments \<Rightarrow> u64 option" where
  "number_of_tlps a =
     (if a_test a = BANDWIDTH then Some DEFAULT_NUMBER_TLPS
      else if a_dir a = H2D then Some (a_nbytes a div of_nat MAX_READ_REQUEST_SIZE)
      else if a_dir a = BOTH then Some (a_nbytes a div of_nat MAX_PAYLOAD)
      else None)"

definition maximum_size_per_tlp :: "arguments \<Rightarrow> nat" where
  "maximum_size_per_tlp a = (if a_dir a = D2H \<or> a_dir a = BOTH then MAX_PAYLOAD else MAX_READ_REQUEST_SIZE)"

text \<open>The TLPs of one transfer of \<open>nbytes\<close>: complete ones, and whether there is a smaller last one.
  The counters are \<open>int\<close>.\<close>

definition n_complete_tlps :: "arguments \<Rightarrow> int" where
  "n_complete_tlps a = s32 (a_nbytes a div of_nat (maximum_size_per_tlp a))"

definition n_incomplete_tlps :: "arguments \<Rightarrow> int" where
  "n_incomplete_tlps a =
     (if a_nbytes a \<noteq> u64_of_int (int (maximum_size_per_tlp a) * n_complete_tlps a) then 1 else 0)"

definition total_bytes :: "arguments \<Rightarrow> u64 \<Rightarrow> fault + u64" where
  "total_bytes a tlps =
     (let n_total = s32 tlps;
          per = n_complete_tlps a + n_incomplete_tlps a
      in if per = 0 then Inl DivideByZero
         else Inr (u64_of_int (n_total sdiv per) * a_nbytes a
                   + u64_of_int (n_total smod per * int (maximum_size_per_tlp a))))"

text \<open>The loop that looks for a power of two; \<open>None\<close> when it does not end.\<close>

partial_function (option) limit_loop :: "u64 \<Rightarrow> u64 \<Rightarrow> u64 option" where
  "limit_loop check_limit buffer_size =
     (if check_limit < buffer_size then limit_loop (check_limit * 2) buffer_size
      else Some check_limit)"

text \<open>The descriptor of iteration \<open>i\<close>, and whether it is used: \<open>tlps\<close> is the number of TLPs chosen,
  \<open>old\<close> the previous content of the array element.\<close>

definition fill_descriptor :: "arguments \<Rightarrow> u64 \<Rightarrow> u64 \<Rightarrow> u64 \<Rightarrow> dma_descriptor_sw \<Rightarrow> dma_descriptor_sw" where
  "fill_descriptor a total_size i tlps old =
     (let d = old\<lparr>dd_length := a_nbytes a,
                  dd_is_c2s_op := (if a_dir a = D2H \<or> a_dir a = BOTH then 1 else 0),
                  dd_is_s2c_op := (if a_dir a = H2D \<or> a_dir a = BOTH then 1 else 0),
                  dd_index := i, dd_enable := 1, dd_address := 0, dd_buffer_size := total_size,
                  dd_address_offset := 0, dd_address_inc := 0, dd_number_of_tlps := tlps\<rparr>
      in case a_pat a of
           FIX \<Rightarrow> d\<lparr>dd_address_mode := 0, dd_address_offset := p_first (a_prop a)\<rparr>
         | SEQ \<Rightarrow> d\<lparr>dd_address_mode := 1, dd_address_offset := 0\<rparr>
         | RAN \<Rightarrow> d\<lparr>dd_address_mode := 3, dd_address_offset := 0,
                    dd_address_inc := p_cachelines (a_prop a),
                    dd_buffer_size := p_windowsize (a_prop a)\<rparr>)"

definition pattern_ok :: "arguments \<Rightarrow> u64 \<Rightarrow> u64 \<Rightarrow> bool" where
  "pattern_ok a total_size tlps =
     (case a_pat a of
        FIX \<Rightarrow> \<not> (p_first (a_prop a) div PAGE_SIZE \<noteq> (p_first (a_prop a) + a_nbytes a) div 4096 \<and>
                 p_first (a_prop a) \<noteq> 0)
      | SEQ \<Rightarrow> \<not> total_size \<le> a_nbytes a * tlps
      | RAN \<Rightarrow> True)"

definition iteration_ok :: "arguments \<Rightarrow> u64 \<Rightarrow> u64 \<Rightarrow> dma_descriptor_sw \<Rightarrow> bool option" where
  "iteration_ok a total_size tlps d =
     (case limit_loop 1 (dd_buffer_size d) of
        None \<Rightarrow> None
      | Some l \<Rightarrow> Some (\<not> total_size \<le> a_nbytes a \<and> pattern_ok a total_size tlps \<and> l = dd_buffer_size d))"

section \<open>The cache\<close>

text \<open>The stores to the buffer of \<open>uint64_t\<close> words, by index.\<close>

definition warm_cache :: "(nat \<Rightarrow> u64) \<Rightarrow> u64 \<Rightarrow> fault + (nat \<Rightarrow> u64)" where
  "warm_cache pmem total_size =
     (let n = unat (4 * total_size);
          words = total_size div 8
      in if n = 0 then Inr pmem
         else if words = 0 then Inl DivideByZero
         else Inr (fold (\<lambda>i mem. mem(i mod unat words := of_nat i)) [0..<n] pmem))"

definition LARGE_ARRAY_SIZE :: nat where
  "LARGE_ARRAY_SIZE = 8 * 1024 * 1024"

text \<open>\<open>rnd i\<close> is the \<open>i\<close>-th answer of \<open>rand\<close>.\<close>

definition thrash_cache :: "(nat \<Rightarrow> u64) \<Rightarrow> (nat \<Rightarrow> u64) \<Rightarrow> nat \<Rightarrow> u64" where
  "thrash_cache rnd large_array =
     fold (\<lambda>i arr. arr(unat (rnd i) mod LARGE_ARRAY_SIZE := of_nat i * rnd i))
       [0..<4 * LARGE_ARRAY_SIZE] large_array"

section \<open>The arguments that are accepted\<close>

definition ran_pages :: "arguments \<Rightarrow> bool" where
  "ran_pages a \<longleftrightarrow> a_pat a \<noteq> RAN \<or> p_first (a_prop a) \<noteq> 0"

lemma sized_result: "sized rest f = Inr (Some (a, rest')) \<Longrightarrow> \<exists>n. a = f n"
  by (auto simp: sized_def split: list.splits sum.splits)

lemma keyword_result: "keyword rest t = Inr (Some (a, rest')) \<Longrightarrow> a \<in> snd ` set t"
  by (force simp: keyword_def split: list.splits option.splits dest: map_of_SomeD)

lemma pattern_option_pages:
  "pattern_option rest a = Inr (Some (a', rest')) \<Longrightarrow> ran_pages a'"
  by (auto simp: pattern_option_def ran_pages_def dest!: sized_result
      split: list.splits if_splits sum.splits option.splits)

lemma apply_option_pages:
  "apply_option opt rest a = Inr (Some (a', rest')) \<Longrightarrow> ran_pages a \<Longrightarrow> ran_pages a'"
  by (auto simp: apply_option_def dest: pattern_option_pages dest!: sized_result keyword_result
      split: if_splits list.splits) (auto simp: ran_pages_def)

lemma parse_ran_pages: "parse ws a = Inr (Some a') \<Longrightarrow> ran_pages a \<Longrightarrow> ran_pages a'"
  by (induction ws a rule: parse.induct)
    (auto split: sum.splits option.splits dest: apply_option_pages)

text \<open>
  C37. A command line that is accepted has a window of 1 to 24 tags, a size that is a multiple of 4,
  1 to 1023 iterations (so that every iteration has its own descriptor), and for the random
  pattern at least one page.
\<close>

theorem benchmark_arguments:
  assumes "readArguments argv = Inr (Some a)"
  shows "1 \<le> unat (a_wsize a) \<and> unat (a_wsize a) \<le> 24 \<and> 4 dvd unat (a_nbytes a) \<and>
    0 < unat (a_niters a) \<and> unat (a_niters a) < 1024 \<and>
    (a_pat a = RAN \<longrightarrow> p_first (a_prop a) \<noteq> 0) \<and> length argv \<le> 18"
proof -
  have p: "parse (tl argv) default_arguments = Inr (Some a)"
    and c: "\<not> MAX_WINDOW_SIZE < a_wsize a" "\<not> a_wsize a < 1" "a_nbytes a mod 4 = 0"
      "\<not> MAX_DMA_DESCRIPTORS \<le> a_niters a" "\<not> a_niters a \<le> 0" "length argv \<le> 18"
    using assms by (auto simp: readArguments_def Let_def split: if_splits sum.splits option.splits)
  have "ran_pages a"
    using parse_ran_pages [OF p] by (simp add: ran_pages_def default_arguments_def)
  moreover have "unat (a_nbytes a) mod 4 = 0"
    using arg_cong [OF c(3), of unat] by (simp add: unat_mod)
  ultimately show ?thesis
    using c by (auto simp: ran_pages_def MAX_WINDOW_SIZE_def MAX_DMA_DESCRIPTORS_def
        word_less_nat_alt word_le_nat_alt dvd_eq_mod_eq_0)
qed

section \<open>The power of two\<close>

definition limit_spec :: "u64 \<Rightarrow> u64 \<Rightarrow> u64 \<Rightarrow> bool" where
  "limit_spec c bs r \<longleftrightarrow> bs \<le> r \<and> (\<exists>n. r = c * 2 ^ n)"

lemma limit_loop_result:
  assumes "limit_loop c bs = Some r"
  shows "limit_spec c bs r"
proof (rule limit_loop.raw_induct [where P = limit_spec, OF _ assms])
  fix ll :: "u64 \<Rightarrow> u64 \<Rightarrow> u64 option" and c bs r :: u64
  assume ih: "\<And>c bs r. ll c bs = Some r \<Longrightarrow> limit_spec c bs r"
    and run: "(if c < bs then ll (c * 2) bs else Some c) = Some r"
  show "limit_spec c bs r"
  proof (cases "c < bs")
    case True
    then have "limit_spec (c * 2) bs r" using ih run by simp
    then obtain n where "bs \<le> r" "r = c * 2 * 2 ^ n" by (auto simp: limit_spec_def)
    then show ?thesis
      unfolding limit_spec_def by (intro conjI exI [of _ "Suc n"]) simp_all
  next
    case False
    then show ?thesis using run by (auto simp: limit_spec_def intro!: exI [of _ 0])
  qed
qed

lemma unat_power_of_2: "n < 64 \<Longrightarrow> unat (2 ^ n :: u64) = 2 ^ n"
  using u64_of_nat_inverse [of "2 ^ n"] power_strict_increasing [of n 64 "2 :: nat"] by simp

lemma limit_loop_ends:
  "n \<le> 63 \<Longrightarrow> unat bs \<le> 2 ^ n \<Longrightarrow> n - k = d \<Longrightarrow> k \<le> n \<Longrightarrow> \<exists>r. limit_loop (2 ^ k) bs = Some r"
proof (induction d arbitrary: k)
  case 0
  then have "\<not> (2 ^ k :: u64) < bs"
    using unat_power_of_2 [of k] by (simp add: word_less_nat_alt)
  then show ?case by (subst limit_loop.simps) simp
next
  case (Suc d)
  show ?case
  proof (cases "(2 ^ k :: u64) < bs")
    case True
    have "\<exists>r. limit_loop (2 ^ Suc k) bs = Some r"
      using Suc.prems by (intro Suc.IH) auto
    then show ?thesis
      using True by (subst limit_loop.simps) (simp add: mult.commute)
  next
    case False
    then show ?thesis by (subst limit_loop.simps) simp
  qed
qed

lemma limit_loop_power:
  "n < 64 \<Longrightarrow> n - k = d \<Longrightarrow> k \<le> n \<Longrightarrow> limit_loop (2 ^ k) (2 ^ n) = Some (2 ^ n)"
proof (induction d arbitrary: k)
  case 0
  then show ?case by (subst limit_loop.simps) simp
next
  case (Suc d)
  then have "(2 ^ k :: u64) < 2 ^ n"
    using unat_power_of_2 [of k] unat_power_of_2 [of n] by (simp add: word_less_nat_alt)
  moreover have "limit_loop (2 ^ Suc k) (2 ^ n) = Some (2 ^ n)"
    using Suc.prems by (intro Suc.IH) auto
  ultimately show ?case by (subst limit_loop.simps) (simp add: mult.commute)
qed

lemma limit_loop_value:
  assumes "limit_loop 1 bs = Some r"
  shows "bs \<le> r \<and> (r = 0 \<or> (\<exists>n<64. r = 2 ^ n))"
proof -
  obtain n where "bs \<le> r" "r = 2 ^ n"
    using limit_loop_result [OF assms] by (auto simp: limit_spec_def)
  then show ?thesis
    by (cases "n < 64") auto
qed

text \<open>
  C38. The search for a power of two ends exactly for buffer sizes up to \<open>2^63\<close>; for larger ones the
  doubled limit wraps around to 0 and the loop never ends. The size is accepted exactly when it is
  a power of two.
\<close>

theorem power_of_two_check:
  "((\<exists>r. limit_loop 1 bs = Some r) \<longleftrightarrow> unat bs \<le> 2 ^ 63) \<and>
   (limit_loop 1 bs = Some bs \<longleftrightarrow> (\<exists>n<64. bs = 2 ^ n))"
proof (intro conjI iffI)
  assume "\<exists>r. limit_loop 1 bs = Some r"
  then obtain r where r: "bs \<le> r" "r = 0 \<or> (\<exists>n<64. r = 2 ^ n)"
    using limit_loop_value by blast
  have "unat r \<le> 2 ^ 63"
  proof (cases "r = 0")
    case False
    then obtain n where n: "n < 64" "r = 2 ^ n" using r(2) by blast
    have "(2 :: nat) ^ n \<le> 2 ^ 63" using n(1) by (intro power_increasing) simp_all
    then show ?thesis using n unat_power_of_2 by simp
  qed simp
  then show "unat bs \<le> 2 ^ 63" using r(1) by (simp add: word_le_nat_alt)
next
  assume "unat bs \<le> 2 ^ 63"
  then show "\<exists>r. limit_loop 1 bs = Some r"
    using limit_loop_ends [of 63 bs 0 63] by simp
next
  assume eq: "limit_loop 1 bs = Some bs"
  have "bs \<noteq> 0"
  proof
    assume "bs = 0"
    then have "limit_loop 1 bs = Some 1" by (subst limit_loop.simps) simp
    with eq \<open>bs = 0\<close> show False by simp
  qed
  then show "\<exists>n<64. bs = 2 ^ n" using limit_loop_value [OF eq] by blast
next
  assume "\<exists>n<64. bs = 2 ^ n"
  then show "limit_loop 1 bs = Some bs"
    using limit_loop_power [of _ 0] by auto
qed

section \<open>The accounting of bytes\<close>

text \<open>The reference: a transfer of \<open>nbytes\<close> is cut into TLPs of at most \<open>mx\<close> bytes, and the device
  sends the TLPs of one transfer after another.\<close>

definition tlp_sizes :: "nat \<Rightarrow> nat \<Rightarrow> nat list" where
  "tlp_sizes nbytes mx =
     replicate (nbytes div mx) mx @ (if nbytes mod mx = 0 then [] else [nbytes mod mx])"

definition bytes_sent :: "nat \<Rightarrow> nat \<Rightarrow> nat \<Rightarrow> nat" where
  "bytes_sent nbytes mx tlps =
     (\<Sum>t<tlps. tlp_sizes nbytes mx ! (t mod length (tlp_sizes nbytes mx)))"

lemma tlp_sizes_sum: "sum_list (tlp_sizes nbytes mx) = nbytes"
  using div_mult_mod_eq [of nbytes mx] by (auto simp: tlp_sizes_def sum_list_replicate)

lemma periodic_sum:
  fixes xs :: "nat list"
  assumes "xs \<noteq> []"
  shows "(\<Sum>t<q * length xs + r. xs ! (t mod length xs))
    = q * sum_list xs + (\<Sum>t<r. xs ! (t mod length xs))"
proof (induction q)
  case (Suc q)
  let ?f = "\<lambda>t. xs ! (t mod length xs)"
  have "(\<Sum>t<length xs + m. ?f t) = (\<Sum>t<length xs. ?f t) + (\<Sum>t<m. ?f (length xs + t))" for m
    by (induction m) simp_all
  then have "(\<Sum>t<length xs + (q * length xs + r). ?f t)
      = (\<Sum>t<length xs. ?f t) + (\<Sum>t<q * length xs + r. ?f (length xs + t))" .
  also have "(\<Sum>t<length xs. ?f t) = sum_list xs"
    by (simp add: sum_list_sum_nth lessThan_atLeast0)
  finally show ?case
    using Suc by (simp add: algebra_simps)
qed simp

lemma bytes_sent_formula:
  assumes "0 < nbytes" and "0 < mx"
  defines "per \<equiv> length (tlp_sizes nbytes mx)"
  shows "bytes_sent nbytes mx tlps = tlps div per * nbytes + tlps mod per * mx"
proof -
  have ne: "tlp_sizes nbytes mx \<noteq> []"
    using tlp_sizes_sum [of nbytes mx] assms(1) by auto
  then have per: "0 < per" by (simp add: per_def)
  have "tlp_sizes nbytes mx ! (t mod per) = mx" if "t < tlps mod per" for t
  proof -
    have "tlps mod per < per" using per by simp
    moreover have "per \<le> Suc (nbytes div mx)" by (simp add: per_def tlp_sizes_def)
    ultimately have "t < nbytes div mx" and "t < per"
      using that by linarith+
    then show ?thesis using mod_less [of t per] by (simp add: tlp_sizes_def nth_append)
  qed
  then have "(\<Sum>t<tlps mod per. tlp_sizes nbytes mx ! (t mod per)) = tlps mod per * mx"
    by simp
  then show ?thesis
    using periodic_sum [OF ne, of "tlps div per" "tlps mod per"]
    by (simp add: bytes_sent_def tlp_sizes_sum flip: per_def)
qed

lemma signed_nonneg:
  assumes "0 \<le> a" and "0 < b"
  shows "(a :: int) sdiv b = a div b" and "a smod b = a mod b"
  using assms by (cases "a = 0"; simp add: signed_divide_int_def signed_modulo_int_def)+

text \<open>The counters of one transfer agree with the reference as long as they fit into an \<open>int\<close>.\<close>

lemma tlp_counters:
  assumes "unat (a_nbytes a) < 2 ^ 31"
  defines "sizes \<equiv> tlp_sizes (unat (a_nbytes a)) (maximum_size_per_tlp a)"
  shows "n_complete_tlps a + n_incomplete_tlps a = int (length sizes)"
proof -
  let ?n = "unat (a_nbytes a)" and ?m = "maximum_size_per_tlp a"
  have m: "0 < ?m" "?m \<le> 512"
    by (simp_all add: maximum_size_per_tlp_def MAX_PAYLOAD_def MAX_READ_REQUEST_SIZE_def)
  then have um: "unat (of_nat ?m :: u64) = ?m"
    by (intro u64_of_nat_inverse) simp
  have q: "unat (a_nbytes a div of_nat ?m) = ?n div ?m"
    by (simp add: unat_div um)
  have "?n div ?m < 2 ^ 31"
    using assms(1) div_le_dividend [of ?n ?m] by linarith
  then have c: "n_complete_tlps a = int (?n div ?m)"
    unfolding n_complete_tlps_def using s32_small [of "a_nbytes a div of_nat ?m"] q by simp
  have le: "?m * (?n div ?m) \<le> ?n" by simp
  have "?m * (?n div ?m) < 2 ^ 64"
    by (rule order_le_less_trans [OF le]) (use assms(1) in simp)
  then have p: "unat (u64_of_int (int ?m * int (?n div ?m))) = ?m * (?n div ?m)"
    using u64_of_nat_inverse [of "?m * (?n div ?m)"]
    by (simp only: u64_of_int_def of_int_of_nat_eq flip: of_nat_mult)
  have "a_nbytes a = u64_of_int (int ?m * n_complete_tlps a) \<longleftrightarrow> ?n mod ?m = 0"
    unfolding c word_unat_eq_iff p using minus_mult_div_eq_mod [of ?n ?m] le by linarith
  then show ?thesis
    by (simp add: c n_incomplete_tlps_def sizes_def tlp_sizes_def)
qed

text \<open>
  C39. The bandwidth is computed from the right number of bytes: for sizes and numbers of TLPs below
  \<open>2^31\<close>, \<open>total_bytes\<close> is the sum of the sizes of the TLPs that are sent, each transfer being cut
  into TLPs of the maximum size and a smaller last one. A size of 0, which the argument check lets
  pass, divides by zero.
\<close>

theorem total_bytes_counts:
  assumes "unat (a_nbytes a) < 2 ^ 31" and "unat tlps < 2 ^ 31"
  shows "total_bytes a tlps = (if a_nbytes a = 0 then Inl DivideByZero
    else Inr (of_nat (bytes_sent (unat (a_nbytes a)) (maximum_size_per_tlp a) (unat tlps))))"
proof (cases "a_nbytes a = 0")
  case True
  then have "n_complete_tlps a + n_incomplete_tlps a = 0"
    using tlp_counters [OF assms(1)] by (simp add: tlp_sizes_def)
  with True show ?thesis by (simp add: total_bytes_def)
next
  case False
  let ?n = "unat (a_nbytes a)" and ?m = "maximum_size_per_tlp a"
  let ?per = "length (tlp_sizes ?n ?m)"
  have n: "0 < ?n" using False by (simp add: unat_gt_0)
  have m: "0 < ?m"
    by (simp add: maximum_size_per_tlp_def MAX_PAYLOAD_def MAX_READ_REQUEST_SIZE_def)
  have per: "0 < ?per" using tlp_sizes_sum [of ?n ?m] n by auto
  have "total_bytes a tlps = Inr (u64_of_int (int (unat tlps) div int ?per) * a_nbytes a
      + u64_of_int (int (unat tlps) mod int ?per * int ?m))"
    using per tlp_counters [OF assms(1)] s32_small [OF assms(2)]
    by (simp add: total_bytes_def signed_nonneg Let_def)
  also have "\<dots> = Inr (of_nat (unat tlps div ?per * ?n + unat tlps mod ?per * ?m))"
    by (simp only: u64_of_int_def of_int_of_nat_eq of_nat_add of_nat_mult
        of_int_mult flip: zdiv_int zmod_int) simp
  finally show ?thesis
    using False bytes_sent_formula [OF n m, of "unat tlps"] by simp
qed

section \<open>The cache\<close>

text \<open>The loop of \<open>warm_cache\<close>, for its first \<open>n\<close> steps over \<open>m\<close> words.\<close>

abbreviation warm_steps :: "nat \<Rightarrow> (nat \<Rightarrow> u64) \<Rightarrow> nat \<Rightarrow> nat \<Rightarrow> u64" where
  "warm_steps m pmem n \<equiv> fold (\<lambda>i mem. mem(i mod m := of_nat i)) [0..<n] pmem"

lemma warm_step: "warm_steps m pmem (Suc n) k = (if k = n mod m then of_nat n else warm_steps m pmem n k)"
  by simp

lemma warm_outside: "0 < m \<Longrightarrow> m \<le> k \<Longrightarrow> warm_steps m pmem n k = pmem k"
proof (induction n)
  case (Suc n)
  then have "k \<noteq> n mod m" using mod_less_divisor [of m n] by linarith
  with Suc show ?case by (simp only: warm_step if_False simp_thms)
qed simp

lemma warm_inside:
  "k < m \<Longrightarrow> k < n \<Longrightarrow> \<exists>i<n. i mod m = k \<and> warm_steps m pmem n k = of_nat i"
proof (induction n)
  case (Suc n)
  show ?case
  proof (cases "n mod m = k")
    case True
    then have "warm_steps m pmem (Suc n) k = of_nat n" by (simp only: warm_step if_True simp_thms)
    with True show ?thesis by blast
  next
    case False
    then have "k < n" using Suc.prems by (cases "k = n") auto
    then obtain i where i: "i < n" "i mod m = k" "warm_steps m pmem n k = of_nat i"
      using Suc.IH Suc.prems(1) by blast
    have "warm_steps m pmem (Suc n) k = of_nat i"
      using False i(3) by (simp only: warm_step) metis
    with i show ?thesis using less_SucI by blast
  qed
qed simp


section \<open>Witnesses\<close>

definition bench_argv :: "string list" where
  "bench_argv = [''benchmark'', ''-t'', ''bw'', ''-d'', ''W'', ''-p'', ''RAN'', ''64K'', ''-n'', ''256'', ''-l'', ''8'']"

lemma scan_sizes: "string2bytes ''64K'' = Inr 65536" "string2bytes ''256'' = Inr 256" "string2bytes ''8'' = Inr 8"
  by (simp_all add: string2bytes_def scan_ld_def scan_digits_def isspace_def dec_digit_def digits_value_def
      toupper_def Let_def)

lemma bench_run: "\<exists>a. readArguments bench_argv = Inr (Some a) \<and> a_nbytes a = 256 \<and> a_dir a = H2D \<and>
    a_test a = BANDWIDTH \<and> p_windowsize (a_prop a) = 65536"
  by (simp add: bench_argv_def readArguments_def apply_option_def keyword_def sized_def pattern_option_def
      scan_sizes default_arguments_def MAX_WINDOW_SIZE_def MAX_DMA_DESCRIPTORS_def PAGE_SIZE_def)

theorem benchmark_arguments_witness:
  "\<exists>a. readArguments bench_argv = Inr (Some a) \<and> unat (a_wsize a) \<le> 24"
proof -
  obtain a where a: "readArguments bench_argv = Inr (Some a)" using bench_run by blast
  with benchmark_arguments [OF a] show ?thesis by auto
qed

theorem total_bytes_counts_witness:
  "total_bytes (default_arguments\<lparr>a_nbytes := 300\<rparr>) 3 = Inr 556"
proof -
  have "bytes_sent 300 256 3 = 556"
    using bytes_sent_formula [of 300 256 3] by (simp add: tlp_sizes_def flip: numeral_2_eq_2)
  then show ?thesis
    using total_bytes_counts [of "default_arguments\<lparr>a_nbytes := 300\<rparr>" 3]
    by (simp add: maximum_size_per_tlp_def default_arguments_def MAX_PAYLOAD_def)
qed


end
