(* ===== verification/Benchmark_Main.thy ===== *)
theory Benchmark_Main
  imports Benchmark
begin

text \<open>
  The main function of the measuring tool (src/HOST/user/benchmark/benchmark.c): the session with
  the driver, the huge pages, the loop over the descriptors and the measures it reports. What is
  printed besides the measures is not modelled. The answers of \<open>rand\<close> are a parameter.
\<close>

section \<open>State\<close>

text \<open>A measure is a quotient of bytes and nanoseconds (printed as eight times the floating-point
  quotient), or a time in nanoseconds.\<close>

datatype measure = BandwidthOf u64 u64 | LatencyOf u64

text \<open>The state of the process: the middleware's, the array of descriptors, the words of the huge
  pages, the large array, the number of calls of \<open>rand\<close>, and the measures reported.\<close>

record bst =
  b_ust :: ust
  b_dlist :: "nat \<Rightarrow> dma_descriptor_sw"
  b_pmem :: "nat \<Rightarrow> u64"
  b_large :: "nat \<Rightarrow> u64"
  b_rand :: nat
  b_out :: "measure list"

definition NUMBER_PAGES :: u32 where
  "NUMBER_PAGES = 1"

section \<open>One iteration\<close>

text \<open>The words of the buffer that \<open>warm_cache\<close> stores to.\<close>

definition warm_words :: "u64 \<Rightarrow> nat" where
  "warm_words sz = min (unat (4 * sz)) (unat sz div 8)"

text \<open>The preparation of the cache. The huge pages have \<open>total_size\<close> bytes; a store beyond them is a
  fault. (The offset added to \<open>pmem\<close> is the address of the descriptor, which is 0.)\<close>

definition prepare_cache :: "(nat \<Rightarrow> u64) \<Rightarrow> arguments \<Rightarrow> u64 \<Rightarrow> bst \<Rightarrow> fault + bst" where
  "prepare_cache rnd a total_size b =
     (case a_cache a of
        WARM \<Rightarrow>
          (let sz = (if a_pat a \<noteq> RAN then a_nbytes a else p_windowsize (a_prop a))
           in case warm_cache (b_pmem b) sz of
                Inl f \<Rightarrow> Inl f
              | Inr m \<Rightarrow>
                  if unat total_size div 8 < warm_words sz then Inl OutOfBounds
                  else Inr (b\<lparr>b_pmem := m\<rparr>))
      | DISCARD \<Rightarrow>
          Inr (b\<lparr>b_large := thrash_cache (\<lambda>i. rnd (b_rand b + i)) (b_large b),
                 b_rand := b_rand b + 4 * LARGE_ARRAY_SIZE\<rparr>)
      | IGNORE \<Rightarrow> Inr b)"

text \<open>How the body of the main loop ends: with the next iteration, with \<open>break\<close>, or with \<open>return\<close>.\<close>

datatype step = Next | Break | Return int

text \<open>The measurement of one descriptor.\<close>

definition measure_descriptor ::
  "uenv \<Rightarrow> arguments \<Rightarrow> u64 \<Rightarrow> nat \<Rightarrow> dma_descriptor_sw \<Rightarrow> bst \<Rightarrow> (step \<times> bst) ures" where
  "measure_descriptor E a tlps i d b =
     (let (_, d, u) = writeDescriptor E d (b_ust b);
          d = d\<lparr>dd_index := (dd_index d + 1) mod MAX_DMA_DESCRIPTORS\<rparr>;
          (_, d, u) = readDescriptor E d u
      in case total_bytes a tlps of
           Inl f \<Rightarrow> Crash f
         | Inr n \<Rightarrow>
             Ret (Next, b\<lparr>b_ust := u, b_dlist := (b_dlist b)(i := d),
               b_out := b_out b @ [if a_test a = BANDWIDTH then BandwidthOf n (dd_latency d * 4)
                                   else LatencyOf (dd_time_at_comp d * 4)]\<rparr>))"

text \<open>The body of the main loop. \<open>None\<close> when it does not end. Every path but the one without a latency
  test prints to the log file \<open>fname\<close> first.\<close>

definition iteration ::
  "uenv \<Rightarrow> (nat \<Rightarrow> u64) \<Rightarrow> arguments \<Rightarrow> u64 \<Rightarrow> u64 \<Rightarrow> nat \<Rightarrow> bst \<Rightarrow> (step \<times> bst) ures option" where
  "iteration E rnd a total_size fname i b =
     (case number_of_tlps a of
        None \<Rightarrow> Some (Ret (Return (- 1), b))
      | Some tlps \<Rightarrow>
          if fname = 0 then Some (Crash NullDeref)
          else
            let d = fill_descriptor a total_size (of_nat i) tlps (b_dlist b i)
            in case iteration_ok a total_size tlps d of
                 None \<Rightarrow> None
               | Some False \<Rightarrow> Some (Ret (Break, b\<lparr>b_dlist := (b_dlist b)(i := d)\<rparr>))
               | Some True \<Rightarrow>
                   Some (case prepare_cache rnd a total_size b of
                           Inl f \<Rightarrow> Crash f
                         | Inr b \<Rightarrow> measure_descriptor E a tlps i d b))"

text \<open>The main loop from iteration \<open>i\<close> on, with \<open>n\<close> iterations left.\<close>

fun iterations ::
  "uenv \<Rightarrow> (nat \<Rightarrow> u64) \<Rightarrow> arguments \<Rightarrow> u64 \<Rightarrow> u64 \<Rightarrow> nat \<Rightarrow> nat \<Rightarrow> bst \<Rightarrow> (int option \<times> bst) ures option" where
  "iterations E rnd a total_size fname i 0 b = Some (Ret (None, b))"
| "iterations E rnd a total_size fname i (Suc n) b =
     (case iteration E rnd a total_size fname i b of
        None \<Rightarrow> None
      | Some (Ret (Next, b)) \<Rightarrow> iterations E rnd a total_size fname (Suc i) n b
      | Some (Ret (Break, b)) \<Rightarrow> Some (Ret (None, b))
      | Some (Ret (Return c, b)) \<Rightarrow> Some (Ret (Some c, b))
      | Some (Exited c h) \<Rightarrow> Some (Exited c h)
      | Some (Crash f) \<Rightarrow> Some (Crash f))"

section \<open>The main function\<close>

text \<open>The session and the memory: the address and the size of the huge pages.\<close>

definition open_session ::
  "uenv \<Rightarrow> 56 word \<Rightarrow> u32 \<Rightarrow> ust \<Rightarrow> (u64 \<times> u64 \<times> ust) ures" where
  "open_session E pad0 pad1 u =
     ubind (rte_eal_init E u) (\<lambda>(ret, u).
       ubind (if ret < 0 then rte_exit E (- 1) ''There was an error'' u else Ret u) (\<lambda>u.
         ubind (getFreeHugePages E pad0 pad1 NUMBER_PAGES u) (\<lambda>(pmem, u).
           let (size, u) = hugepage_size E u
           in if pmem = 0 then rte_exit E (- 1) ''Error mapping kernel memory'' u
              else Ret (pmem, ucast NUMBER_PAGES * size, u))))"

definition close_session :: "uenv \<Rightarrow> u64 \<Rightarrow> u64 \<Rightarrow> ust \<Rightarrow> 'a ures" where
  "close_session E fname pmem u =
     (if fname = 0 then Crash NullDeref
      else
        let u = u\<lparr>u_hist := uemit (Fclose fname) (u_hist u)\<rparr>;
            u = unsetHugeFreePages pmem NUMBER_PAGES u
        in rte_exit E 0 '''' u)"

definition benchmark_main ::
  "uenv \<Rightarrow> (nat \<Rightarrow> u64) \<Rightarrow> 56 word \<Rightarrow> u32 \<Rightarrow> string list \<Rightarrow> bst \<Rightarrow> (int \<times> bst) ures option" where
  "benchmark_main E rnd pad0 pad1 argv b =
     (case readArguments argv of
        Inl f \<Rightarrow> Some (Crash f)
      | Inr None \<Rightarrow> Some (Ret (0, b))
      | Inr (Some a) \<Rightarrow>
          (case open_session E pad0 pad1 (b_ust b) of
             Exited c h \<Rightarrow> Some (Exited c h)
           | Crash f \<Rightarrow> Some (Crash f)
           | Ret (pmem, total_size, u) \<Rightarrow>
               (case a_file_name a of
                  None \<Rightarrow> Some (Crash NullDeref)
                | Some file_name \<Rightarrow>
                    let (fname, h) = udo E (Fopen file_name) (u_hist u);
                        (_, u) = setWindowSize E (a_wsize a) (u\<lparr>u_hist := h\<rparr>);
                        b = b\<lparr>b_ust := u, b_dlist := (b_dlist b)(0 := (b_dlist b 0)\<lparr>dd_address := 0\<rparr>)\<rparr>
                    in case iterations E rnd a total_size fname 0 (unat (a_niters a)) b of
                         None \<Rightarrow> None
                       | Some (Ret (Some c, b)) \<Rightarrow> Some (Ret (c, b))
                       | Some (Ret (None, b)) \<Rightarrow> Some (close_session E fname pmem (b_ust b))
                       | Some (Exited c h) \<Rightarrow> Some (Exited c h)
                       | Some (Crash f) \<Rightarrow> Some (Crash f))))"

section \<open>The requests of a session\<close>

text \<open>The requests to the driver and the descriptors closed, in order.\<close>

definition requests :: "uhist \<Rightarrow> ucall list" where
  "requests h = filter is_ioctl (ucalls h)"

definition closed :: "uhist \<Rightarrow> int list" where
  "closed h = concat (map closes (ucalls h))"

lemma requests_simps [simp]:
  "requests [] = []" "requests (h @ h') = requests h @ requests h'"
  "requests ((c, r) # h) = (if is_ioctl c then [c] else []) @ requests h"
  by (simp_all add: requests_def)

lemma closed_simps [simp]:
  "closed [] = []" "closed (h @ h') = closed h @ closed h'" "closed ((c, r) # h) = closes c @ closed h"
  by (simp_all add: closed_def)

lemma hugepage_size_quiet:
  assumes "hugepage_size E u = (sz, u')"
  shows "\<exists>h. u' = u\<lparr>u_hist := h\<rparr> \<and> requests h = requests (u_hist u) \<and> closed h = closed (u_hist u) \<and>
    sz \<in> {0, 2048, 0x40000000}"
  using assms by (auto simp: hugepage_size_def udo_def udo_out_def Let_def split: if_splits)

lemma alloc_hugepage_quiet:
  assumes "alloc_hugepage E hp sz u = (ret, hp', u')"
  shows "\<exists>h. u' = u\<lparr>u_sz := sz, u_hist := h\<rparr> \<and> requests h = requests (u_hist u) \<and>
    closed h = closed (u_hist u) \<and> ret \<in> {0, - 1}"
  using assms by (auto simp: alloc_hugepage_def udo_def uemit_def Let_def split: if_splits)

lemma exit_requests:
  assumes "u_log u \<noteq> 0"
  shows "\<exists>h. rte_exit E c f u = Exited c h \<and> requests h = requests (u_hist u) \<and>
    closed h = closed (u_hist u) @ (if u_fd u \<noteq> 0 then [u_fd u] else [])"
  using assms
  by (simp add: rte_exit_def rte_free_def rte_vlog_def rte_actuallog_stream_def ucall_defs Let_def)

lemma init_requests:
  assumes "session_ok E"
  shows "\<exists>u'. rte_eal_init E u = Ret (0, u') \<and> 0 < u_fd u' \<and> u_log u' \<noteq> 0 \<and> u_hp u' = u_hp u \<and>
    requests (u_hist u') = requests (u_hist u) \<and> closed (u_hist u') = closed (u_hist u)"
proof -
  have "\<not> s32 (uret E h (Open ''/dev/nfp'')) \<le> 0" "0 < s32 (uret E h (Open ''/dev/nfp''))"
    "uret E h (Fdopen 1) \<noteq> 0" for h
    using assms by (auto simp: session_ok_def not_le)
  then show ?thesis
    by (simp add: rte_eal_init_def rte_openlog_stream_def set_affinity_def ucall_defs Let_def)
qed

text \<open>The outcome of the allocation of a positive number of huge pages: one registration, or the end of
  the process.\<close>

lemma get_huge_pages_outcome:
  assumes "npages \<noteq> 0" and "u_log u \<noteq> 0"
  shows "(\<exists>a u' ws. getFreeHugePages E pad0 pad1 npages u = Ret (a, u') \<and> u_fd u' = u_fd u \<and>
       u_log u' = u_log u \<and> hp_data (u_hp u') = a \<and>
       requests (u_hist u') = requests (u_hist u) @ [Ioctl (u_fd u) NFPIOC_REGISTER_BUFFER ws] \<and>
       closed (u_hist u') = closed (u_hist u)) \<or>
    (\<exists>h. getFreeHugePages E pad0 pad1 npages u = Exited (- 1) h \<and> requests h = requests (u_hist u))"
proof -
  obtain s1 u1 where 1: "hugepage_size E u = (s1, u1)" by fastforce
  obtain h1 where h1: "u1 = u\<lparr>u_hist := h1\<rparr>" "requests h1 = requests (u_hist u)" "closed h1 = closed (u_hist u)"
    using hugepage_size_quiet [OF 1] by blast
  obtain ret hp u2 where 2: "alloc_hugepage E (u_hp u1) (ucast npages * s1) u1 = (ret, hp, u2)"
    by (metis prod_cases3)
  obtain h2 where h2: "u2 = u1\<lparr>u_sz := ucast npages * s1, u_hist := h2\<rparr>" "requests h2 = requests (u_hist u)"
    "closed h2 = closed (u_hist u)"
    using alloc_hugepage_quiet [OF 2] h1 by auto
  obtain s3 u3 where 3: "hugepage_size E (u2\<lparr>u_hp := hp\<rparr>) = (s3, u3)" by fastforce
  obtain h3 where h3: "u3 = u2\<lparr>u_hp := hp, u_hist := h3\<rparr>" "requests h3 = requests (u_hist u)"
    "closed h3 = closed (u_hist u)"
    using hugepage_size_quiet [OF 3] h2 by auto
  show ?thesis
  proof (cases "ret = 0")
    case True
    then show ?thesis
      using assms 1 2 3 h1 h2 h3
      by (simp add: getFreeHugePages_def getCharDeviceDescriptor_def ucall_defs Let_def)
  next
    case False
    let ?u = "u2\<lparr>u_hp := hp, u_hist := uemit (Close (u_fd u)) (u_hist u2)\<rparr>"
    have "u_log ?u \<noteq> 0" "requests (u_hist ?u) = requests (u_hist u)"
      using assms(2) h1 h2 by (simp_all add: uemit_def)
    then obtain h where "rte_exit E (- 1) ''Hugepage alloc error'' ?u = (Exited (- 1) h :: (u64 \<times> ust) ures)"
      "requests h = requests (u_hist u)"
      using exit_requests [of ?u E "- 1" "''Hugepage alloc error''"] by metis
    then show ?thesis
      using assms 1 2 False h1(1)
      by (simp add: getFreeHugePages_def getCharDeviceDescriptor_def Let_def)
  qed
qed

lemma open_session_outcome:
  assumes "session_ok E"
  shows "(\<exists>a sz u' fd ws. open_session E pad0 pad1 u = Ret (a, sz, u') \<and> a \<noteq> 0 \<and> sz \<in> {0, 2048, 0x40000000} \<and>
       u_fd u' = fd \<and> 0 < fd \<and> u_log u' \<noteq> 0 \<and> hp_data (u_hp u') = a \<and>
       requests (u_hist u') = requests (u_hist u) @ [Ioctl fd NFPIOC_REGISTER_BUFFER ws] \<and>
       closed (u_hist u') = closed (u_hist u)) \<or>
    (\<exists>h. open_session E pad0 pad1 u = Exited (- 1) h)"
proof -
  obtain u1 where 1: "rte_eal_init E u = Ret (0, u1)" "0 < u_fd u1" "u_log u1 \<noteq> 0"
    "requests (u_hist u1) = requests (u_hist u)" "closed (u_hist u1) = closed (u_hist u)"
    using init_requests [OF assms, of u] by blast
  have np: "NUMBER_PAGES \<noteq> 0" by (simp add: NUMBER_PAGES_def)
  consider (ret) a u2 ws where "getFreeHugePages E pad0 pad1 NUMBER_PAGES u1 = Ret (a, u2)" "u_fd u2 = u_fd u1"
      "u_log u2 = u_log u1" "hp_data (u_hp u2) = a"
      "requests (u_hist u2) = requests (u_hist u1) @ [Ioctl (u_fd u1) NFPIOC_REGISTER_BUFFER ws]"
      "closed (u_hist u2) = closed (u_hist u1)"
    | (exit) h where "getFreeHugePages E pad0 pad1 NUMBER_PAGES u1 = Exited (- 1) h"
    using get_huge_pages_outcome [OF np 1(3), of E pad0 pad1] by blast
  then show ?thesis
  proof cases
    case ret
    obtain sz u3 where 3: "hugepage_size E u2 = (sz, u3)" by fastforce
    obtain h3 where h3: "u3 = u2\<lparr>u_hist := h3\<rparr>" "requests h3 = requests (u_hist u2)"
      "closed h3 = closed (u_hist u2)" "sz \<in> {0, 2048, 0x40000000}"
      using hugepage_size_quiet [OF 3] by blast
    show ?thesis
    proof (cases "a = 0")
      case True
      obtain h where "rte_exit E (- 1) ''Error mapping kernel memory'' u3 = (Exited (- 1) h :: (u64 \<times> u64 \<times> ust) ures)"
        using exit_requests [of u3 E "- 1" "''Error mapping kernel memory''"] 1(3) ret(3) h3(1) by auto
      then show ?thesis using 1(1) ret(1) 3 True by (simp add: open_session_def)
    next
      case False
      then have "open_session E pad0 pad1 u = Ret (a, sz, u3)"
        using 1(1) ret(1) 3 by (simp add: open_session_def NUMBER_PAGES_def)
      then show ?thesis
        using 1(2-) ret(2-) h3 False by auto
    qed
  next
    case exit
    then show ?thesis using 1(1) by (simp add: open_session_def)
  qed
qed

lemma close_session_outcome:
  assumes "fname \<noteq> 0" and "u_log u \<noteq> 0" and "u_fd u \<noteq> 0" and "hp_data (u_hp u) \<noteq> 0"
  shows "\<exists>h. close_session E fname pmem u = Exited 0 h \<and>
    requests h = requests (u_hist u) @ [Ioctl (u_fd u) NFPIOC_UNREGISTER_BUFFER []] \<and>
    closed h = closed (u_hist u) @ [hp_identifier (u_hp u), u_fd u]"
proof -
  let ?u = "unsetHugeFreePages pmem NUMBER_PAGES (u\<lparr>u_hist := uemit (Fclose fname) (u_hist u)\<rparr>)"
  have f: "u_log ?u = u_log u" "u_fd ?u = u_fd u"
    "requests (u_hist ?u) = requests (u_hist u) @ [Ioctl (u_fd u) NFPIOC_UNREGISTER_BUFFER []]"
    "closed (u_hist ?u) = closed (u_hist u) @ [hp_identifier (u_hp u)]"
    using assms(4)
    by (simp_all add: unsetHugeFreePages_def free_hugepage_def getCharDeviceDescriptor_def uemit_def Let_def)
  then show ?thesis
    using exit_requests [of ?u E 0 "''''"] assms by (simp add: close_session_def Let_def)
qed

section \<open>The requests of the loop\<close>

text \<open>The two requests of an iteration: the descriptor of the arguments is written, and the next one
  is read.\<close>

definition iteration_requests ::
  "int \<Rightarrow> arguments \<Rightarrow> u64 \<Rightarrow> u64 \<Rightarrow> (nat \<Rightarrow> dma_descriptor_sw) \<Rightarrow> (nat \<Rightarrow> dma_descriptor_sw) \<Rightarrow> nat \<Rightarrow> ucall list"
where
  "iteration_requests fd a total_size tlps old rd j =
     [Ioctl fd NFPIOC_WRITE_DMA_DESCRIPTOR
        (dma_descriptor_sw_words (fill_descriptor a total_size (of_nat j) tlps (old j))),
      Ioctl fd NFPIOC_READ_DMA_DESCRIPTOR (dma_descriptor_sw_words (rd j))]"

text \<open>What a run of the loop does to the state: \<open>k\<close> measures from iteration \<open>i\<close> on.\<close>

definition measured :: "arguments \<Rightarrow> u64 \<Rightarrow> nat \<Rightarrow> nat \<Rightarrow> bst \<Rightarrow> bst \<Rightarrow> bool" where
  "measured a total_size i k b b' \<longleftrightarrow>
     (\<exists>h rd. b_ust b' = (b_ust b)\<lparr>u_hist := h\<rparr> \<and> closed h = closed (u_hist (b_ust b)) \<and>
        requests h = requests (u_hist (b_ust b)) @ concat (map
          (iteration_requests (u_fd (b_ust b)) a total_size (the (number_of_tlps a)) (b_dlist b) rd) [i..<i + k])) \<and>
     length (b_out b') = length (b_out b) + k"

lemma prepare_cache_frame:
  "prepare_cache rnd a total_size b = Inr b' \<Longrightarrow>
   b_ust b' = b_ust b \<and> b_dlist b' = b_dlist b \<and> b_out b' = b_out b"
  by (auto simp: prepare_cache_def Let_def split: cache.splits sum.splits if_splits)

lemma descriptor_request:
  "writeDescriptor E d u = (r, d', u') \<Longrightarrow>
   \<exists>x. u' = u\<lparr>u_hist := u_hist u @ [(Ioctl (u_fd u) NFPIOC_WRITE_DMA_DESCRIPTOR (dma_descriptor_sw_words d), x)]\<rparr>"
  "readDescriptor E d u = (r, d', u') \<Longrightarrow>
   \<exists>x. u' = u\<lparr>u_hist := u_hist u @ [(Ioctl (u_fd u) NFPIOC_READ_DMA_DESCRIPTOR (dma_descriptor_sw_words d), x)]\<rparr>"
  by (auto simp: writeDescriptor_def readDescriptor_def getCharDeviceDescriptor_def ucall_defs Let_def)

lemma measure_descriptor_next:
  assumes "measure_descriptor E a tlps i d b = Ret (s, b')"
  shows "s = Next \<and> (\<exists>h rd d'. b_ust b' = (b_ust b)\<lparr>u_hist := h\<rparr> \<and> closed h = closed (u_hist (b_ust b)) \<and>
    requests h = requests (u_hist (b_ust b)) @ [
      Ioctl (u_fd (b_ust b)) NFPIOC_WRITE_DMA_DESCRIPTOR (dma_descriptor_sw_words d),
      Ioctl (u_fd (b_ust b)) NFPIOC_READ_DMA_DESCRIPTOR (dma_descriptor_sw_words rd)] \<and>
    b_dlist b' = (b_dlist b)(i := d') \<and> length (b_out b') = Suc (length (b_out b)))"
proof -
  obtain r1 d1 u1 where 1: "writeDescriptor E d (b_ust b) = (r1, d1, u1)" by (metis prod_cases3)
  let ?d = "d1\<lparr>dd_index := (dd_index d1 + 1) mod MAX_DMA_DESCRIPTORS\<rparr>"
  obtain r2 d2 u2 where 2: "readDescriptor E ?d u1 = (r2, d2, u2)" by (metis prod_cases3)
  obtain x where x: "u1 = (b_ust b)\<lparr>u_hist := u_hist (b_ust b) @
      [(Ioctl (u_fd (b_ust b)) NFPIOC_WRITE_DMA_DESCRIPTOR (dma_descriptor_sw_words d), x)]\<rparr>"
    using descriptor_request(1) [OF 1] by blast
  obtain y where y: "u2 = u1\<lparr>u_hist := u_hist u1 @
      [(Ioctl (u_fd u1) NFPIOC_READ_DMA_DESCRIPTOR (dma_descriptor_sw_words ?d), y)]\<rparr>"
    using descriptor_request(2) [OF 2] by blast
  have run: "s = Next \<and> b_ust b' = u2 \<and> b_dlist b' = (b_dlist b)(i := d2) \<and> length (b_out b') = Suc (length (b_out b))"
    using assms 1 2 by (auto simp: measure_descriptor_def Let_def split: sum.splits)
  have "b_ust b' = (b_ust b)\<lparr>u_hist := u_hist u2\<rparr>" "closed (u_hist u2) = closed (u_hist (b_ust b))"
    "requests (u_hist u2) = requests (u_hist (b_ust b)) @ [
      Ioctl (u_fd (b_ust b)) NFPIOC_WRITE_DMA_DESCRIPTOR (dma_descriptor_sw_words d),
      Ioctl (u_fd (b_ust b)) NFPIOC_READ_DMA_DESCRIPTOR (dma_descriptor_sw_words ?d)]"
    using run unfolding y x by simp_all
  then show ?thesis using run by blast
qed

text \<open>The three ways an iteration returns.\<close>

lemma iteration_returned:
  assumes "iteration E rnd a total_size fname i b = Some (Ret (s, b'))"
  shows "case s of
     Next \<Rightarrow> (\<exists>h rd d'. b_ust b' = (b_ust b)\<lparr>u_hist := h\<rparr> \<and> closed h = closed (u_hist (b_ust b)) \<and>
         requests h = requests (u_hist (b_ust b)) @ iteration_requests (u_fd (b_ust b)) a total_size
           (the (number_of_tlps a)) (b_dlist b) (\<lambda>_. rd) i \<and>
         b_dlist b' = (b_dlist b)(i := d') \<and> length (b_out b') = Suc (length (b_out b)))
   | Break \<Rightarrow> b_ust b' = b_ust b \<and> b_out b' = b_out b \<and> number_of_tlps a \<noteq> None
   | Return c \<Rightarrow> b' = b \<and> c = - 1 \<and> number_of_tlps a = None"
proof (cases "number_of_tlps a")
  case None
  then show ?thesis using assms by (auto simp: iteration_def)
next
  case (Some tlps)
  let ?d = "fill_descriptor a total_size (of_nat i) tlps (b_dlist b i)"
  have f: "fname \<noteq> 0" using assms Some by (auto simp: iteration_def split: if_splits)
  obtain ok where ok: "iteration_ok a total_size tlps ?d = Some ok"
    using assms Some f by (cases "iteration_ok a total_size tlps ?d") (auto simp: iteration_def Let_def)
  show ?thesis
  proof (cases ok)
    case True
    then obtain b1 where b1: "prepare_cache rnd a total_size b = Inr b1"
      and m: "measure_descriptor E a tlps i ?d b1 = Ret (s, b')"
      using assms Some f ok
      by (cases "prepare_cache rnd a total_size b") (auto simp: iteration_def Let_def)
    show ?thesis
      using measure_descriptor_next [OF m] prepare_cache_frame [OF b1] Some
      by (auto simp: iteration_requests_def)
  next
    case False
    then show ?thesis using assms Some f ok by (auto simp: iteration_def Let_def)
  qed
qed

lemma measured_next:
  assumes "b_ust b1 = (b_ust b)\<lparr>u_hist := h\<rparr>" and "closed h = closed (u_hist (b_ust b))"
    and "requests h = requests (u_hist (b_ust b)) @ iteration_requests (u_fd (b_ust b)) a total_size
      (the (number_of_tlps a)) (b_dlist b) (\<lambda>_. r) i"
    and "b_dlist b1 = (b_dlist b)(i := d')" and "length (b_out b1) = Suc (length (b_out b))"
    and "measured a total_size (Suc i) k b1 b'"
  shows "measured a total_size i (Suc k) b b'"
proof -
  obtain h2 rd where h2: "b_ust b' = (b_ust b1)\<lparr>u_hist := h2\<rparr>" "closed h2 = closed (u_hist (b_ust b1))"
    "requests h2 = requests (u_hist (b_ust b1)) @ concat (map (iteration_requests (u_fd (b_ust b1)) a total_size
       (the (number_of_tlps a)) (b_dlist b1) rd) [Suc i..<Suc i + k])"
    "length (b_out b') = length (b_out b1) + k"
    using assms(6) by (auto simp: measured_def)
  let ?it = "\<lambda>fd old rd. iteration_requests fd a total_size (the (number_of_tlps a)) old rd"
  have eq: "map (?it (u_fd (b_ust b1)) (b_dlist b1) rd) [Suc i..<Suc i + k]
      = map (?it (u_fd (b_ust b)) (b_dlist b) (rd(i := r))) [Suc i..<Suc i + k]"
    using assms(1,4) by (auto simp: iteration_requests_def)
  have hd: "?it fd old (\<lambda>_. r) i = ?it fd old (rd(i := r)) i" for fd old
    by (simp add: iteration_requests_def)
  have "[i..<i + Suc k] = i # [Suc i..<Suc i + k]" by (simp add: upt_conv_Cons)
  then have "requests h2 = requests (u_hist (b_ust b)) @
      concat (map (?it (u_fd (b_ust b)) (b_dlist b) (rd(i := r))) [i..<i + Suc k])"
    using h2(3) assms(1,3) unfolding eq hd by simp
  moreover have "b_ust b' = (b_ust b)\<lparr>u_hist := h2\<rparr>" "closed h2 = closed (u_hist (b_ust b))"
    using h2(1,2) assms(1,2) by simp_all
  ultimately show ?thesis
    using h2(4) assms(5) unfolding measured_def by (intro conjI exI) simp_all
qed

lemma measured_none:
  "b_ust b' = b_ust b \<Longrightarrow> b_out b' = b_out b \<Longrightarrow> measured a total_size i 0 b b'"
  unfolding measured_def by (intro conjI exI [of _ "u_hist (b_ust b)"]) simp_all

lemma iterations_returned:
  assumes "iterations E rnd a total_size fname i n b = Some (Ret (c, b'))"
  shows "\<exists>k\<le>n. measured a total_size i k b b' \<and>
    (if c = None then n = 0 \<or> number_of_tlps a \<noteq> None
     else c = Some (- 1) \<and> k = 0 \<and> number_of_tlps a = None)"
  using assms
proof (induction n arbitrary: i b)
  case 0
  then show ?case by (auto simp: measured_none)
next
  case (Suc n)
  then obtain s b1 where 1: "iteration E rnd a total_size fname i b = Some (Ret (s, b1))"
    by (auto split: option.splits ures.splits)
  note r = iteration_returned [OF 1]
  show ?case
  proof (cases s)
    case Next
    then have "iterations E rnd a total_size fname (Suc i) n b1 = Some (Ret (c, b'))"
      using Suc.prems 1 by simp
    from Suc.IH [OF this] obtain k where k: "k \<le> n" "measured a total_size (Suc i) k b1 b'"
      "if c = None then n = 0 \<or> number_of_tlps a \<noteq> None
       else c = Some (- 1) \<and> k = 0 \<and> number_of_tlps a = None" by blast
    have t: "number_of_tlps a \<noteq> None" using 1 Next by (cases "number_of_tlps a") (simp_all add: iteration_def)
    have "measured a total_size i (Suc k) b b'"
      using r Next measured_next [OF _ _ _ _ _ k(2)] by auto
    then show ?thesis using k t by (intro exI [of _ "Suc k"]) (auto split: if_splits)
  next
    case Break
    then show ?thesis
      using Suc.prems 1 r by (intro exI [of _ 0]) (auto simp: measured_none)
  next
    case (Return x)
    then show ?thesis
      using Suc.prems 1 r by (intro exI [of _ 0]) (auto simp: measured_none)
  qed
qed

section \<open>The outcomes of the loop\<close>

text \<open>The causes of a crash inside the loop, of which there are three.\<close>

definition crash_cause :: "arguments \<Rightarrow> u64 \<Rightarrow> u64 \<Rightarrow> fault \<Rightarrow> bool" where
  "crash_cause a total_size fname f \<longleftrightarrow>
     f = NullDeref \<and> fname = 0 \<or>
     f = DivideByZero \<and> (unat (a_nbytes a) < 8 \<or> a_cache a = WARM \<and> a_pat a = RAN \<and>
       unat (p_windowsize (a_prop a)) < 8) \<or>
     f = OutOfBounds \<and> a_cache a = WARM \<and> a_pat a = RAN \<and> total_size < p_windowsize (a_prop a)"

lemma total_bytes_fault:
  assumes "total_bytes a tlps = Inl f" and "unat (a_nbytes a) < 2 ^ 31"
  shows "f = DivideByZero \<and> unat (a_nbytes a) = 0"
proof -
  have "n_complete_tlps a + n_incomplete_tlps a = 0" "f = DivideByZero"
    using assms(1) by (auto simp: total_bytes_def Let_def split: if_splits)
  then have "tlp_sizes (unat (a_nbytes a)) (maximum_size_per_tlp a) = []"
    using tlp_counters [OF assms(2)] by simp
  then show ?thesis
    using tlp_sizes_sum [of "unat (a_nbytes a)" "maximum_size_per_tlp a"] \<open>f = DivideByZero\<close> by simp
qed

lemma prepare_cache_fault:
  assumes "prepare_cache rnd a total_size b = Inl f" and "a_nbytes a < total_size"
  shows "crash_cause a total_size fname f"
proof -
  let ?sz = "if a_pat a \<noteq> RAN then a_nbytes a else p_windowsize (a_prop a)"
  have w: "a_cache a = WARM"
    and c: "warm_cache (b_pmem b) ?sz = Inl f \<or> f = OutOfBounds \<and> unat total_size div 8 < warm_words ?sz"
    using assms(1) by (auto simp: prepare_cache_def Let_def split: cache.splits sum.splits if_splits)
  have div0: "unat sz < 8" if "sz div 8 = 0" for sz :: u64
    using that by (simp add: word_unat_eq_iff unat_div div_eq_0_iff)
  from c show ?thesis
  proof
    assume "warm_cache (b_pmem b) ?sz = Inl f"
    then have "f = DivideByZero" "?sz div 8 = 0"
      by (simp_all add: warm_cache_def Let_def split: if_splits)
    then show ?thesis using w div0 [of ?sz] by (auto simp: crash_cause_def split: if_splits)
  next
    assume *: "f = OutOfBounds \<and> unat total_size div 8 < warm_words ?sz"
    then have "unat total_size div 8 < unat ?sz div 8" by (simp only: warm_words_def min_less_iff_conj)
    then have "\<not> unat ?sz \<le> unat total_size" using div_le_mono [of "unat ?sz" "unat total_size" 8] by linarith
    then have "total_size < ?sz" by (simp only: word_less_nat_alt)
    then show ?thesis using * w assms(2) by (auto simp: crash_cause_def split: if_splits)
  qed
qed

lemma iteration_ok_size: "iteration_ok a total_size tlps d = Some True \<Longrightarrow> a_nbytes a < total_size"
  by (auto simp: iteration_ok_def split: option.splits)

lemma iteration_ends:
  assumes "unat total_size \<le> 2 ^ 30" and "a_pat a = RAN \<longrightarrow> unat (p_windowsize (a_prop a)) \<le> 2 ^ 63"
  shows "(\<exists>s b'. iteration E rnd a total_size fname i b = Some (Ret (s, b'))) \<or>
    (\<exists>f. iteration E rnd a total_size fname i b = Some (Crash f) \<and> crash_cause a total_size fname f)"
proof (cases "number_of_tlps a")
  case (Some tlps)
  let ?d = "fill_descriptor a total_size (of_nat i) tlps (b_dlist b i)"
  have "unat (dd_buffer_size ?d) \<le> 2 ^ 63"
    using assms by (cases "a_pat a") (simp_all add: fill_descriptor_def Let_def)
  then obtain r where "limit_loop 1 (dd_buffer_size ?d) = Some r"
    using limit_loop_ends [of 63 "dd_buffer_size ?d" 0 63] by auto
  then obtain ok where ok: "iteration_ok a total_size tlps ?d = Some ok"
    by (simp add: iteration_ok_def)
  consider "fname = 0" | "fname \<noteq> 0" "\<not> ok" | "fname \<noteq> 0" ok by blast
  then show ?thesis
  proof cases
    case 3
    then have n: "a_nbytes a < total_size" using ok iteration_ok_size by simp
    then have n31: "unat (a_nbytes a) < 2 ^ 31" using assms(1) by (simp add: word_less_nat_alt)
    show ?thesis
    proof (cases "prepare_cache rnd a total_size b")
      case (Inl f)
      then show ?thesis using prepare_cache_fault [OF Inl n] Some 3 ok by (simp add: iteration_def)
    next
      case (Inr b1)
      then have eq: "iteration E rnd a total_size fname i b = Some (measure_descriptor E a tlps i ?d b1)"
        using Some 3 ok by (simp add: iteration_def)
      show ?thesis
      proof (cases "total_bytes a tlps")
        case (Inl f)
        then show ?thesis
          using total_bytes_fault [OF Inl n31] eq
          by (auto simp: measure_descriptor_def crash_cause_def split: prod.splits)
      next
        case (Inr n)
        then show ?thesis using eq by (auto simp: measure_descriptor_def Let_def split: prod.splits)
      qed
    qed
  qed (use Some ok in \<open>simp_all add: iteration_def crash_cause_def Let_def\<close>)
qed (simp add: iteration_def)

lemma iterations_end:
  assumes "unat total_size \<le> 2 ^ 30" and "a_pat a = RAN \<longrightarrow> unat (p_windowsize (a_prop a)) \<le> 2 ^ 63"
  shows "(\<exists>c b'. iterations E rnd a total_size fname i n b = Some (Ret (c, b'))) \<or>
    (\<exists>f. iterations E rnd a total_size fname i n b = Some (Crash f) \<and> crash_cause a total_size fname f)"
proof (induction n arbitrary: i b)
  case (Suc n)
  from iteration_ends [OF assms, of E rnd fname i b] show ?case
  proof (elim disjE exE conjE)
    fix s b1 assume "iteration E rnd a total_size fname i b = Some (Ret (s, b1))"
    then show ?thesis using Suc.IH [of "Suc i" b1] by (cases s) simp_all
  qed simp
qed simp

section \<open>A whole run\<close>

lemma accepted_iterations:
  "readArguments argv = Inr (Some a) \<Longrightarrow> \<exists>n. unat (a_niters a) = Suc n"
  by (auto simp: readArguments_def Let_def gr0_conv_Suc [symmetric] unat_gt_0
      split: if_splits sum.splits option.splits)

lemma iterations_no_log:
  "number_of_tlps a \<noteq> None \<Longrightarrow> iterations E rnd a total_size 0 i (Suc n) b = Some (Crash NullDeref)"
  by (auto simp: iteration_def)

lemma no_latency_test: "number_of_tlps a = None \<longleftrightarrow> a_test a = LATENCY \<and> a_dir a = D2H"
  by (cases "a_test a"; cases "a_dir a") (simp_all add: number_of_tlps_def)

lemma close_after_loop:
  assumes "measured a total_size 0 k b0 b'" and "fname \<noteq> 0"
    and "u_log (b_ust b0) \<noteq> 0" and "u_fd (b_ust b0) = fd" and "fd \<noteq> 0" and "hp_data (u_hp (b_ust b0)) \<noteq> 0"
  shows "\<exists>h rd. close_session E fname pmem (b_ust b') = (Exited 0 h :: 'a ures) \<and>
    closed h = closed (u_hist (b_ust b0)) @ [hp_identifier (u_hp (b_ust b0)), fd] \<and>
    requests h = requests (u_hist (b_ust b0)) @ concat (map (iteration_requests fd a total_size
      (the (number_of_tlps a)) (b_dlist b0) rd) [0..<k]) @ [Ioctl fd NFPIOC_UNREGISTER_BUFFER []]"
proof -
  obtain h rd where h: "b_ust b' = (b_ust b0)\<lparr>u_hist := h\<rparr>" "closed h = closed (u_hist (b_ust b0))"
    "requests h = requests (u_hist (b_ust b0)) @ concat (map
      (iteration_requests fd a total_size (the (number_of_tlps a)) (b_dlist b0) rd) [0..<k])"
    using assms(1,4) by (auto simp: measured_def)
  obtain h' where h': "close_session E fname pmem (b_ust b') = (Exited 0 h' :: 'a ures)"
    "requests h' = requests h @ [Ioctl fd NFPIOC_UNREGISTER_BUFFER []]"
    "closed h' = closed h @ [hp_identifier (u_hp (b_ust b0)), fd]"
    using close_session_outcome [of fname "b_ust b'" E pmem] h(1) assms(2-) by auto
  show ?thesis
    using h h' by (intro exI [of _ h'] exI [of _ rd]) simp
qed

text \<open>The run after the huge pages are there and the log file was asked for.\<close>

definition after_open :: "uenv \<Rightarrow> arguments \<Rightarrow> string \<Rightarrow> ust \<Rightarrow> bst \<Rightarrow> bst" where
  "after_open E a name u b =
     (let h = u_hist u @ [(Fopen name, uret E (u_hist u) (Fopen name))];
          w = Ioctl (u_fd u) NFPIOC_WINDOW_SIZE [a_wsize a]
      in b\<lparr>b_ust := u\<lparr>u_hist := h @ [(w, uret E h w)]\<rparr>,
           b_dlist := (b_dlist b)(0 := (b_dlist b 0)\<lparr>dd_address := 0\<rparr>)\<rparr>)"

lemma benchmark_main_loop:
  assumes "readArguments argv = Inr (Some a)" and "open_session E pad0 pad1 (b_ust b) = Ret (pmem, sz, u)"
    and "a_file_name a = Some name"
  defines "fname \<equiv> uret E (u_hist u) (Fopen name)"
  shows "benchmark_main E rnd pad0 pad1 argv b =
    (case iterations E rnd a sz fname 0 (unat (a_niters a)) (after_open E a name u b) of
       None \<Rightarrow> None
     | Some (Ret (Some c, b)) \<Rightarrow> Some (Ret (c, b))
     | Some (Ret (None, b)) \<Rightarrow> Some (close_session E fname pmem (b_ust b))
     | Some (Exited c h) \<Rightarrow> Some (Exited c h)
     | Some (Crash f) \<Rightarrow> Some (Crash f))"
  using assms(1-3) unfolding fname_def
  by (simp add: benchmark_main_def after_open_def setWindowSize_def getCharDeviceDescriptor_def ucall_defs Let_def)


text \<open>A system with a device, 1 GiB pages and a log file.\<close>

definition bench_env :: uenv where
  "bench_env = \<lparr>uret = (\<lambda>h c. case c of Open f \<Rightarrow> 3 | Fdopen n \<Rightarrow> 0x100 | Fopen f \<Rightarrow> 0x200
       | _ \<Rightarrow> uret (hugepage_env True) h c),
     uout = uout (hugepage_env True)\<rparr>"

definition init_bst :: bst where
  "init_bst = \<lparr>b_ust = init_ust, b_dlist = (\<lambda>_. words_dma_descriptor_sw (replicate 13 0)),
     b_pmem = (\<lambda>_. 0), b_large = (\<lambda>_. 0), b_rand = 0, b_out = []\<rparr>"


end
