(* ===== verification/Spec2Isabelle.thy ===== *)
theory Spec2Isabelle
  imports Device_Life Rw_Bar Benchmark_Main
begin

text \<open>
  \<^bold>\<open>The host software of a PCIe benchmark for NetFPGA.\<close>

  An FPGA card has DMA engines that read and write host memory as directed by descriptors in its
  registers. A Linux driver programs these registers and serves a character device \<open>/dev/nfp\<close>; a
  small library (the middleware) wraps the ioctls of this device, and two tools use the library:
  \<open>rwBar\<close> reads and writes single registers, \<open>benchmark\<close> measures latency and bandwidth of
  transfers. This development models the C code of the driver, the library and the tools
  (src/HOST), and proves what makes each part correct, and where it is not.

  \<^bold>\<open>Theories and sources.\<close>
  \<^item> \<open>Prelude\<close>: C integers as words, faults, the struct codec, number systems and invariants of step
    functions as locales (\<open>codec\<close>, \<open>positional\<close>, \<open>positional_printer\<close>, \<open>invariant_steps\<close>).
  \<^item> \<open>Kernel\<close>: the boundary of the driver. Kernel services, DMA API, clock and device are a parameter
    \<open>kenv\<close> that answers each call from the history of calls; the history is part of the state.
  \<^item> \<open>Ioctl_Commands\<close> (include/ioctl_commands.h): the structs as records with their images as words,
    and the command numbers. \<open>Nfp_Types\<close> (driver/nfp_types.h): register layout and card record.
  \<^item> \<open>Reg\<close> (driver/reg.c): \<open>WriteReg32\<close>, \<open>ReadReg32\<close>.
  \<^item> \<open>Nfp_Dma\<close> (driver/nfpdma.c): globals, \<open>writeDMADescriptor\<close> (mapping, programming, start,
    polling, release), \<open>readDMADescriptor\<close>, window size.
  \<^item> \<open>Nfp_Mem\<close> (driver/nfpmem.c): \<open>reg_hugemem\<close>, \<open>unreg_hugemem\<close>, pinning and the page table.
  \<^item> \<open>Mmap_Ring\<close> (\<open>mmap_kmem\<close>, \<open>mmap_close\<close> of driver/nfpioctl.c): the ring of kernel pages, as
    an instance of the locale \<open>fifo_allocator\<close>.
  \<^item> \<open>Nfp_Ioctl\<close> (the rest of the file operations of driver/nfpioctl.c): \<open>nfp_ioctl\<close> with its
    semaphore, translation of descriptor addresses; concurrent callers as the step relation
    \<open>sem_step\<close>.
  \<^item> \<open>Nfp_Driver\<close> (driver/nfp.c; \<open>nfpioctl_probe\<close>, \<open>nfpioctl_remove\<close>): probe with all its error
    exits, remove, payload and read request sizes, power management, module entry points.
  \<^item> \<open>Device_Life\<close> (the tables \<open>nfp_ops\<close> and \<open>mmap_vm_ops\<close> of driver/nfpioctl.c and \<open>pci_driver\<close> of
    driver/nfp.c): the device in use, with all sequences of calls between probe and removal as the
    step relation \<open>dev_step\<close>.
  \<^item> \<open>User_Env\<close>: the boundary of user code, with the C library and the system calls as a parameter
    \<open>uenv\<close>; a run returns, exits or crashes (\<open>ures\<close>).
  \<^item> \<open>Middleware\<close> (middleware/debug.c, init.c, huge_page.c, transfer.c).
  \<^item> \<open>Rw_Bar\<close> (user/rwBar/rwBar.c): \<open>etoi\<close>, \<open>readArguments\<close>, main.
  \<^item> \<open>Benchmark\<close>, \<open>Benchmark_Main\<close> (user/benchmark/benchmark.c): the command line, the checks and
    the descriptor of an iteration, accounting, cache preparation; the main loop and the session.
  \<^item> this theory: properties that span user code and driver.

  \<^bold>\<open>State and operations.\<close> Each C function is a function of the same name. File-level variables are
  fields of a record that is passed and returned (\<open>kst\<close> for the ioctl handler, which contains the
  card, the DMA and the memory globals; \<open>ust\<close> for the middleware; \<open>bst\<close> for the benchmark).
  Undefined behaviour of C is a \<open>fault\<close> in a sum type; error returns are the C codes. 64-bit and
  32-bit quantities are words and wrap around; C \<open>int\<close> values are integers with the conversions
  written out.

  \<^bold>\<open>Loops.\<close> Bounded loops are structural recursion. The polling loop of \<open>writeDMADescriptor\<close> and the
  search for a power of two in \<open>benchmark\<close> may run forever: they are partial functions into \<open>option\<close>,
  where \<open>None\<close> is a loop that does not end. There is no fuel. That they end is a theorem
  (\<open>write_descriptor_returns\<close>, \<open>power_of_two_check\<close>, \<open>benchmark_run\<close>).

  \<^bold>\<open>What is shown.\<close>
  \<^item> DMA: a descriptor write programs exactly the registers of its descriptor and releases every
    mapping, and returns even if the device does not answer; status reads touch nothing else.
  \<^item> Memory: a registered buffer is translated page by page; a translated request stays inside one
    huge page; every pinned page is put once. The ring of kernel pages refines a queue.
  \<^item> Ioctl: one acquisition and one release of the semaphore per command, mutual exclusion for all
    interleavings of orderly calls, no effect of foreign commands; structs survive the boundary.
  \<^item> Life cycle: probe acquires and remove releases each resource once, whatever sequence of calls
    is made through the device file and for power management in between; along every such sequence no DMA mapping and no page
    list is released more often than it was handed out; character device registration is all or
    nothing.
  \<^item> User code: a measurement end to end, from the command line to the device registers and from the
    status registers to the number reported; register access end to end from the library to the
    bus, number notations parsed back, huge pages registered and released once, all
    outcomes of a benchmark run, byte accounting equal to a packet-by-packet reference.
  \<^item> Deviations from what the code means to do are theorems as well: semaphore released without
    acquisition (\<open>ioctl_interrupt_breaks_exclusion\<close>) and twice
    (\<open>ioctl_failed_registration_releases_twice\<close>), table overrun (\<open>register_buffer_overflow\<close>),
    mapping past the page ring (\<open>mmap_overrun\<close>), lost DMA mappings (\<open>rewrite_loses_mapping\<close>),
    error exits that report success (\<open>probe_failures\<close>), descriptors closed twice
    (\<open>hugepage_failure_closes_twice\<close>), 2 MiB pages all translated to the first
    (\<open>small_hugepages_alias\<close>), a buffer still registered at removal lost
    (\<open>never_released_twice\<close>).

  \<^bold>\<open>Not modelled.\<close> The FPGA design (src/FPGA, Verilog) is the device behind the parameter \<open>kenv\<close>. Text
  output is not modelled, except the calls the library makes on its log stream, the word \<open>rwBar\<close>
  prints and the measures of \<open>benchmark\<close>. Header files other than ioctl_commands.h and
  nfp_types.h contain prototypes and comments. The processor affinity of the module (\<open>set_affinity\<close>
  of driver/nfp.c) is compiled only with \<open>USE_KERNEL_AFFINITY\<close>, which no file defines. Makefiles, scripts and plots contain no program logic.
\<close>

unbundle bit_operations_syntax

section \<open>Requests of the middleware, served by the driver\<close>

text \<open>The kernel as a user request sees it: the semaphore is free, the copies of the argument
  succeed, and the words copied from user space are those of the request.\<close>

definition request_env :: "kenv \<Rightarrow> u64 list \<Rightarrow> kenv" where
  "request_env K ws =
     K\<lparr>kret := (\<lambda>h c. case c of DownInterruptible \<Rightarrow> 0 | CopyFromUser a n \<Rightarrow> 0 | CopyToUser a vs \<Rightarrow> 0
                 | _ \<Rightarrow> kret K h c),
       kout := (\<lambda>h c i. case c of CopyFromUser a n \<Rightarrow> ws ! i | _ \<Rightarrow> kout K h c i)\<rparr>"

text \<open>The words of the argument afterwards: those copied back last, or the original ones.\<close>

fun copied_back :: "u64 list \<Rightarrow> kcall list \<Rightarrow> u64 list" where
  "copied_back ws [] = ws"
| "copied_back ws (CopyToUser a vs # cs) = copied_back vs cs"
| "copied_back ws (_ # cs) = copied_back ws cs"

text \<open>One ioctl of the middleware: the words the argument has when it returns.\<close>

definition serve :: "kenv \<Rightarrow> u32 \<Rightarrow> u64 list \<Rightarrow> kst \<Rightarrow> (u64 list \<times> kst) option" where
  "serve K cmd ws st =
     (case nfp_ioctl (request_env K ws) cmd 0 st of
        Some (Inr (r, st')) \<Rightarrow>
          Some (copied_back ws (drop (length (k_hist st)) (calls (k_hist st'))), st')
      | _ \<Rightarrow> None)"

text \<open>A user environment whose ioctl at this point is the driver's.\<close>

definition served_by :: "uenv \<Rightarrow> ust \<Rightarrow> kenv \<Rightarrow> kst \<Rightarrow> u32 \<Rightarrow> u64 list \<Rightarrow> bool" where
  "served_by U u K st cmd ws \<longleftrightarrow>
     (\<forall>ws' st'. serve K cmd ws st = Some (ws', st') \<longrightarrow>
        (\<forall>i<length ws. uout U (u_hist u) (Ioctl (u_fd u) cmd ws) i = ws' ! i))"

lemma request_copy:
  assumes "length ws = n"
  shows "copy_struct (request_env K ws) 0 n h = (Some ws, h @ [(CopyFromUser 0 (8 * n), 0)])"
proof -
  have "words_of n (\<lambda>i. ws ! i) = ws" using assms by (rule words_of_nth)
  then show ?thesis
    by (simp add: copy_struct_def kdo_out_def request_env_def)
qed

lemma serve_write:
  assumes "bar_base (k_card st) (r_bar r) \<noteq> 0"
  shows "\<exists>st'. serve K NFPIOC_WRITE_32 (reg32_words r) st = Some (reg32_words r, st') \<and>
    k_hist st' = k_hist st @ [(DownInterruptible, 0), (CopyFromUser 0 16, 0),
      (IoWrite32 (bar_base (k_card st) (r_bar r) + r_offset r) (r_data r), 0), (Up, 0)]"
proof -
  have "unat (r_bar r) < 3" using assms by (auto simp: bar_base_def split: if_splits)
  moreover have "kret (request_env K (reg32_words r)) h DownInterruptible = 0" for h
    by (simp add: request_env_def)
  ultimately show ?thesis
    using assms request_copy [of "reg32_words r" 2 K] reg32_codec.enc_length
    by (simp add: serve_def nfp_ioctl_def copy_argument_def ioctl_dispatch_def WriteReg32_def
        select_bar_base kdo_def emit_def Let_def layout_simps IOC_TYPE_def IOC_NR_def
        IOCTL_MAGIC_NUMBER_def IOC_MAXNR_def reg32_codec.dec_enc)
qed

lemma serve_read:
  fixes K :: kenv and st :: kst and r :: reg32
  assumes "bar_base (k_card st) (r_bar r) \<noteq> 0"
  defines "a \<equiv> IoRead32 (bar_base (k_card st) (r_bar r) + r_offset r)"
  defines "v \<equiv> kret K (k_hist st @ [(DownInterruptible, 0), (CopyFromUser 0 16, 0)]) a"
  shows "\<exists>st'. serve K NFPIOC_READ_32 (reg32_words r) st = Some (reg32_words (r\<lparr>r_data := ucast v\<rparr>), st') \<and>
    k_hist st' = k_hist st @ [(DownInterruptible, 0), (CopyFromUser 0 16, 0), (a, v),
      (CopyToUser 0 (reg32_words (r\<lparr>r_data := ucast v\<rparr>)), 0), (Up, 0)]"
proof -
  have "unat (r_bar r) < 3" using assms(1) by (auto simp: bar_base_def split: if_splits)
  moreover have "kret (request_env K ws) h DownInterruptible = 0"
    "kret (request_env K ws) h (CopyToUser b vs) = 0"
    "kret (request_env K ws) h (IoRead32 b) = kret K h (IoRead32 b)" for h b vs ws
    by (simp_all add: request_env_def)
  ultimately show ?thesis
    using assms(1) request_copy [of "reg32_words r" 2 K] reg32_codec.enc_length
    by (simp add: serve_def nfp_ioctl_def copy_argument_def ioctl_dispatch_def ReadReg32_def
        copy_back_def a_def v_def
        select_bar_base kdo_def emit_def Let_def layout_simps IOC_TYPE_def IOC_NR_def
        IOCTL_MAGIC_NUMBER_def IOC_MAXNR_def reg32_codec.dec_enc)
qed

text \<open>
  C27. Register access from the tool to the device: on a mapped BAR, \<open>readWord\<close> and \<open>writeWord\<close>,
  served by the driver's ioctl handler, make exactly one device access, at the base of the BAR plus
  the offset given, inside one critical section of the handler. A read returns the low 32 bits of
  the device's answer, a write stores and returns the word given.
\<close>

theorem register_access_end_to_end:
  fixes K :: kenv
  assumes "bar_base (k_card st) (ucast bar) \<noteq> 0"
    and "served_by U u K st NFPIOC_READ_32 (reg32_words (reg_request bar off 0))"
    and "served_by U u K st NFPIOC_WRITE_32 (reg32_words (reg_request bar off data))"
  shows "\<exists>st1 st2 v pre. let a = bar_base (k_card st) (ucast bar) + ucast off in
    serve K NFPIOC_READ_32 (reg32_words (reg_request bar off 0)) st
      = Some (reg32_words (reg_request bar off (ucast v)), st1) \<and>
    v = kret K pre (IoRead32 a) \<and> fst (readWord U bar off u) = ucast v \<and>
    filter is_bar_access (calls (k_hist st1)) = filter is_bar_access (calls (k_hist st)) @ [IoRead32 a] \<and>
    serve K NFPIOC_WRITE_32 (reg32_words (reg_request bar off data)) st
      = Some (reg32_words (reg_request bar off data), st2) \<and> fst (writeWord U bar off data u) = data \<and>
    filter is_bar_access (calls (k_hist st2)) = filter is_bar_access (calls (k_hist st)) @ [IoWrite32 a data]"
proof -
  let ?r = "reg_request bar off 0" and ?w = "reg_request bar off data"
  let ?a = "bar_base (k_card st) (ucast bar) + ucast off"
  let ?pre = "k_hist st @ [(DownInterruptible, 0), (CopyFromUser 0 16, 0)]"
  let ?v = "kret K ?pre (IoRead32 ?a)"
  have upd: "?r\<lparr>r_data := ucast ?v\<rparr> = reg_request bar off (ucast ?v)"
    by (simp add: reg_request_def)
  obtain st1 where 1: "serve K NFPIOC_READ_32 (reg32_words ?r) st
      = Some (reg32_words (reg_request bar off (ucast ?v)), st1)"
    "filter is_bar_access (calls (k_hist st1)) = filter is_bar_access (calls (k_hist st)) @ [IoRead32 ?a]"
    using serve_read [of st ?r K] assms(1) unfolding upd by (auto simp: reg_request_def)
  obtain st2 where 2: "serve K NFPIOC_WRITE_32 (reg32_words ?w) st = Some (reg32_words ?w, st2)"
    "filter is_bar_access (calls (k_hist st2)) = filter is_bar_access (calls (k_hist st)) @ [IoWrite32 ?a data]"
    using serve_write [of st ?w K] assms(1) by (auto simp: reg_request_def)
  have l: "length (reg32_words x) = 2" for x
    by (rule reg32_codec.enc_length)
  have "map (uout U (u_hist u) (Ioctl (u_fd u) NFPIOC_READ_32 (reg32_words ?r))) [0..<2]
      = reg32_words (reg_request bar off (ucast ?v))"
    using assms(2) 1(1) by (intro nth_equalityI) (auto simp: served_by_def l)
  then have 3: "fst (readWord U bar off u) = ucast ?v"
    by (simp add: readWord_def uioctl_def udo_out_def getCharDeviceDescriptor_def l
        reg32_codec.dec_enc Let_def reg_request_def)
  have "map (uout U (u_hist u) (Ioctl (u_fd u) NFPIOC_WRITE_32 (reg32_words ?w))) [0..<2] = reg32_words ?w"
    using assms(3) 2(1) by (intro nth_equalityI) (auto simp: served_by_def l)
  then have 4: "fst (writeWord U bar off data u) = data"
    by (simp add: writeWord_def uioctl_def udo_out_def getCharDeviceDescriptor_def l
        reg32_codec.dec_enc Let_def reg_request_def)
  show ?thesis
    using 1 2 3 4
    by (intro exI [of _ st1] exI [of _ st2] exI [of _ ?v] exI [of _ ?pre]) (simp add: Let_def)
qed

section \<open>A measurement, from the command line to the registers\<close>

lemma request_env_ret:
  "c \<noteq> DownInterruptible \<Longrightarrow> (\<forall>a n. c \<noteq> CopyFromUser a n) \<Longrightarrow> (\<forall>a vs. c \<noteq> CopyToUser a vs) \<Longrightarrow>
   kret (request_env K ws) h c = kret K h c"
  by (cases c) (simp_all add: request_env_def)

lemma request_env_clock: "clock_expires (request_env K ws) s n = clock_expires K s n"
  by (simp add: clock_expires_def request_env_ret)

lemma request_env_setup: "setup_descriptor (request_env K ws) dd cd g h = setup_descriptor K dd cd g h"
  by (simp add: setup_descriptor_eq request_env_ret)

text \<open>The history when the handler reaches the descriptor logic.\<close>

definition entered :: "nat \<Rightarrow> khist \<Rightarrow> khist" where
  "entered bytes h = h @ [(DownInterruptible, 0), (CopyFromUser 0 bytes, 0)]"

lemma copied_back_none: "(\<forall>a vs. CopyToUser a vs \<notin> set cs) \<Longrightarrow> copied_back ws cs = ws"
proof (induction cs)
  case (Cons c cs)
  then show ?case by (cases c) auto
qed simp

lemma serve_write_descriptor:
  assumes "translate_address (k_card st) d = Inr (Some a)"
    and "writeDMADescriptor (request_env K (dma_descriptor_sw_words d)) (d\<lparr>dd_address := a\<rparr>) (k_card st) (k_dma st)
      (entered 104 (k_hist st)) = Some (Inr (0, g, h))"
    and "\<forall>b vs. CopyToUser b vs \<notin> set (drop (length (k_hist st)) (calls h))"
    and "length (k_hist st) \<le> length h"
  shows "serve K NFPIOC_WRITE_DMA_DESCRIPTOR (dma_descriptor_sw_words d) st
    = Some (dma_descriptor_sw_words d, st\<lparr>k_dma := g, k_hist := h @ [(Up, 0)]\<rparr>)"
proof -
  let ?E = "request_env K (dma_descriptor_sw_words d)"
  have down: "kret ?E h DownInterruptible = 0" for h
    by (simp add: request_env_def)
  have "nfp_ioctl ?E NFPIOC_WRITE_DMA_DESCRIPTOR 0 st = Some (Inr (0, st\<lparr>k_dma := g, k_hist := h @ [(Up, 0)]\<rparr>))"
    using assms(1,2) request_copy [OF dd_codec.enc_length, of K d]
    by (simp add: nfp_ioctl_def copy_argument_def ioctl_dispatch_def down kdo_def emit_def Let_def
        layout_simps IOC_TYPE_def IOC_NR_def IOCTL_MAGIC_NUMBER_def IOC_MAXNR_def dd_codec.dec_enc entered_def)
  moreover have "copied_back (dma_descriptor_sw_words d) (drop (length (k_hist st)) (calls h) @ [Up])
      = dma_descriptor_sw_words d"
    using assms(3) by (intro copied_back_none) auto
  ultimately show ?thesis
    using assms(4) by (simp add: serve_def)
qed

lemma write_device_calls:
  assumes "writeDMADescriptor E dd cd g h = Some (Inr (r, g', h'))" and "dd_enable dd \<noteq> 0"
  defines "pa \<equiv> kret E h (PciMapSingle (dd_address dd) (dd_buffer_size dd))"
  shows "\<exists>es. h' = h @ (PciMapSingle (dd_address dd) (dd_buffer_size dd), pa) # es \<and>
    filter is_dev_write (calls es) = setup_writes (c_dma cd) dd pa (g_ldescriptor g)
      @ [MemcpyToIo (c_dma cd) 4 (ucast (control_word dd OR 1))] \<and>
    (\<forall>a vs. CopyToUser a vs \<notin> set (calls es)) \<and> map_table g' = {#}"
  by (rule write_enabled [OF assms(1,2)])
    (auto simp: pa_def emits_def filter_dev_write_setup filter_dev_write_none filter_dev_write_mappings
      map_table_cleared calls_def comp_def setup_writes_def mappings_from_def)

text \<open>The control word of a direction and a pattern.\<close>

definition measure_control :: "arguments \<Rightarrow> u32" where
  "measure_control a = (case a_dir a of D2H \<Rightarrow> 4 | H2D \<Rightarrow> 8 | BOTH \<Rightarrow> 12)
     + (case a_pat a of FIX \<Rightarrow> 0 | SEQ \<Rightarrow> 16 | RAN \<Rightarrow> 48)"

lemma fill_descriptor_control: "control_word (fill_descriptor a total_size i tlps old) = measure_control a"
  by (cases "a_dir a"; cases "a_pat a")
    (simp_all add: control_word_def measure_control_def fill_descriptor_def Let_def)

lemma fill_descriptor_fields:
  fixes a :: arguments and total_size i tlps :: u64 and old :: dma_descriptor_sw
  defines "d \<equiv> fill_descriptor a total_size i tlps old"
  shows "dd_address d = 0" "dd_enable d = 1" "dd_index d = i" "dd_length d = a_nbytes a"
    "dd_number_of_tlps d = tlps" "dd_buffer_size d = (if a_pat a = RAN then p_windowsize (a_prop a) else total_size)"
    "dd_address_offset d = (if a_pat a = FIX then p_first (a_prop a) else 0)"
    "dd_address_inc d = (if a_pat a = RAN then p_cachelines (a_prop a) else 0)"
  unfolding d_def by (simp_all add: fill_descriptor_def Let_def split: pattern.split)

lemma control_word_frame [simp]: "control_word (dd\<lparr>dd_address := x\<rparr>) = control_word dd"
  by (simp add: control_word_def)

lemma measurement_served:
  fixes K :: kenv and st :: kst and a :: arguments and old :: dma_descriptor_sw and total_size i tlps :: u64
  defines "d \<equiv> fill_descriptor a total_size i tlps old" and "cd \<equiv> k_card st"
  defines "d' \<equiv> d\<lparr>dd_address := m_page_address (c_buffer cd) 0\<rparr>"
  assumes "iteration_ok a total_size tlps d = Some True" and "unat i < 1024"
    and "m_virtual (c_buffer cd) \<noteq> 0" and "m_page_size (c_buffer cd) = total_size"
    and "clock_expires K (kret K (snd (setup_descriptor K d' cd (k_dma st) (entered 104 (k_hist st)))) KtimeGetUs) n"
  shows "\<exists>g es pa. serve K NFPIOC_WRITE_DMA_DESCRIPTOR (dma_descriptor_sw_words d) st
      = Some (dma_descriptor_sw_words d, st\<lparr>k_dma := g, k_hist := entered 104 (k_hist st)
          @ (PciMapSingle (dd_address d') (dd_buffer_size d'), pa) # es @ [(Up, 0)]\<rparr>) \<and>
    filter is_dev_write (calls es) = setup_writes (c_dma cd) d' pa (g_ldescriptor (k_dma st))
      @ [MemcpyToIo (c_dma cd) 4 (ucast (control_word d' OR 1))] \<and> map_table g = {#}"
proof -
  let ?E = "request_env K (dma_descriptor_sw_words d)" and ?h = "entered 104 (k_hist st)"
  have nb: "a_nbytes a < total_size" using iteration_ok_size [OF assms(4)] .
  then have nz: "total_size \<noteq> 0" "a_nbytes a div total_size = 0"
    by (auto simp: word_unat_eq_iff unat_div word_less_nat_alt)
  note f = fill_descriptor_fields [of a total_size i tlps old, folded d_def]
  have tr: "translate_address cd d = Inr (Some (m_page_address (c_buffer cd) 0))"
    using assms(6,7) nz by (simp add: translate_address_def udiv_def f PAGE_ADDRESS_SLOTS_def Let_def)
  have idx: "unat (dd_index d') < MAX_NUM_DMA_DESCRIPTORS" "dd_enable d' \<noteq> 0"
    using assms(5) by (simp_all add: d'_def f MAX_NUM_DMA_DESCRIPTORS_def)
  have "clock_expires ?E (kret ?E (snd (setup_descriptor ?E d' cd (k_dma st) ?h)) KtimeGetUs) n"
    using assms(8) by (simp add: request_env_clock request_env_setup request_env_ret)
  then obtain g h where w: "writeDMADescriptor ?E d' cd (k_dma st) ?h = Some (Inr (0, g, h))"
    using write_returns [OF idx(1)] by blast
  define pa where "pa = kret ?E ?h (PciMapSingle (dd_address d') (dd_buffer_size d'))"
  obtain es where es: "h = ?h @ (PciMapSingle (dd_address d') (dd_buffer_size d'), pa) # es"
    "filter is_dev_write (calls es) = setup_writes (c_dma cd) d' pa (g_ldescriptor (k_dma st))
      @ [MemcpyToIo (c_dma cd) 4 (ucast (control_word d' OR 1))]"
    "\<forall>a vs. CopyToUser a vs \<notin> set (calls es)" "map_table g = {#}"
    using write_device_calls [OF w idx(2)] unfolding pa_def by blast
  have "serve K NFPIOC_WRITE_DMA_DESCRIPTOR (dma_descriptor_sw_words d) st
      = Some (dma_descriptor_sw_words d, st\<lparr>k_dma := g, k_hist := h @ [(Up, 0)]\<rparr>)"
    using tr w es(1,3) unfolding cd_def d'_def
    by (intro serve_write_descriptor) (auto simp: entered_def)
  then show ?thesis using es by auto
qed


lemma serve_read_descriptor:
  assumes "translate_address (k_card st) d = Inr (Some a)"
    and "readDMADescriptor (request_env K (dma_descriptor_sw_words d)) (d\<lparr>dd_address := a\<rparr>) (k_card st)
      (entered 104 (k_hist st)) = (r, d', h)"
  shows "serve K NFPIOC_READ_DMA_DESCRIPTOR (dma_descriptor_sw_words d) st = Some (dma_descriptor_sw_words d',
    st\<lparr>k_hist := h @ [(CopyToUser 0 (dma_descriptor_sw_words d'), 0), (Up, 0)]\<rparr>)"
proof -
  let ?E = "request_env K (dma_descriptor_sw_words d)"
  have ret: "kret ?E h DownInterruptible = 0" "kret ?E h (CopyToUser b vs) = 0" for h b vs
    by (simp_all add: request_env_def)
  have "nfp_ioctl ?E NFPIOC_READ_DMA_DESCRIPTOR 0 st = Some (Inr (0,
      st\<lparr>k_hist := h @ [(CopyToUser 0 (dma_descriptor_sw_words d'), 0), (Up, 0)]\<rparr>))"
    using assms request_copy [OF dd_codec.enc_length, of K d]
    by (simp add: nfp_ioctl_def copy_argument_def ioctl_dispatch_def copy_back_def ret kdo_def emit_def Let_def
        layout_simps IOC_TYPE_def IOC_NR_def IOCTL_MAGIC_NUMBER_def IOC_MAXNR_def dd_codec.dec_enc entered_def)
  moreover obtain es where es: "h = k_hist st @ es" "\<forall>a vs. CopyToUser a vs \<notin> set (calls es)"
    using assms(2) by (auto simp: readDMADescriptor_def kdo_def Let_def entered_def)
  moreover have "copied_back ws (calls es @ [CopyToUser 0 vs, Up]) = vs" for ws vs
    using es(2)
  proof (induction es arbitrary: ws)
    case (Cons e es)
    then show ?case by (cases "fst e") auto
  qed simp
  ultimately show ?thesis
    by (simp add: serve_def)
qed

lemma served_words:
  assumes "served_by U u K st cmd (dma_descriptor_sw_words d)"
    and "serve K cmd (dma_descriptor_sw_words d) st = Some (dma_descriptor_sw_words d', st')"
  shows "map (uout U (u_hist u) (Ioctl (u_fd u) cmd (dma_descriptor_sw_words d))) [0..<13]
    = dma_descriptor_sw_words d'"
  using assms by (intro nth_equalityI) (auto simp: served_by_def dd_codec.enc_length)

lemma served_descriptor:
  assumes "served_by U u K st cmd (dma_descriptor_sw_words d)"
    and "serve K cmd (dma_descriptor_sw_words d) st = Some (dma_descriptor_sw_words d', st')"
  shows "cmd = NFPIOC_WRITE_DMA_DESCRIPTOR \<Longrightarrow> fst (snd (writeDescriptor U d u)) = d'"
    and "cmd = NFPIOC_READ_DMA_DESCRIPTOR \<Longrightarrow> fst (snd (readDescriptor U d u)) = d'"
  using served_words [OF assms]
  by (simp_all add: writeDescriptor_def readDescriptor_def uioctl_def udo_out_def
      getCharDeviceDescriptor_def dd_codec.enc_length dd_codec.dec_enc Let_def)

text \<open>
  C5. What a measurement reports is what the device says: when the driver serves the two requests of
  an iteration, the time or the latency that is reported is four times the content of the device's
  completion time or latency register, of the descriptor after the one that was programmed. The
  descriptor that is left in the tool carries the kernel's address of the huge page.
\<close>

theorem reported_measure:
  fixes K :: kenv and st st1 :: kst and a :: arguments and old :: dma_descriptor_sw and total_size tlps :: u64 and i :: nat
  defines "d \<equiv> fill_descriptor a total_size (of_nat i) tlps old" and "cd \<equiv> k_card st1"
  defines "d1 \<equiv> d\<lparr>dd_index := (dd_index d + 1) mod MAX_DMA_DESCRIPTORS\<rparr>"
  defines "reg \<equiv> \<lambda>k. MemcpyFromIo (c_dma cd + of_nat (k + 64 * (Suc i mod 1024))) 8"
  assumes "a_nbytes a < total_size" and "i < 1024" and "total_bytes a tlps = Inr m"
    and "m_virtual (c_buffer cd) \<noteq> 0" and "m_page_size (c_buffer cd) = total_size"
    and "served_by U (b_ust b) K st NFPIOC_WRITE_DMA_DESCRIPTOR (dma_descriptor_sw_words d)"
    and "serve K NFPIOC_WRITE_DMA_DESCRIPTOR (dma_descriptor_sw_words d) st = Some (dma_descriptor_sw_words d, st1)"
    and "served_by U (snd (snd (writeDescriptor U d (b_ust b)))) K st1 NFPIOC_READ_DMA_DESCRIPTOR
      (dma_descriptor_sw_words d1)"
  shows "\<exists>st2 ws b' lat t. serve K NFPIOC_READ_DMA_DESCRIPTOR (dma_descriptor_sw_words d1) st1 = Some (ws, st2) \<and>
    (reg 88, lat) \<in> set (k_hist st2) \<and> (reg 104, t) \<in> set (k_hist st2) \<and>
    filter is_dev_write (calls (k_hist st2)) = filter is_dev_write (calls (k_hist st1)) \<and>
    measure_descriptor U a tlps i d b = Ret (Next, b') \<and>
    b_out b' = b_out b @ [if a_test a = BANDWIDTH then BandwidthOf m (lat * 4) else LatencyOf (t * 4)] \<and>
    dd_address (b_dlist b' i) = m_page_address (c_buffer cd) 0"
proof -
  note f = fill_descriptor_fields [of a total_size "of_nat i" tlps old, folded d_def]
  have ix: "unat (dd_index d1) = Suc i mod 1024"
  proof -
    have "unat (1024 :: u64) = 1024" by simp
    moreover have "unat (of_nat i + 1 :: u64) = Suc i"
      using assms(6) u64_of_nat_inverse [of "Suc i"] by (simp add: add.commute)
    moreover have "dd_index d1 = (of_nat i + 1) mod 1024"
      by (simp add: d1_def f MAX_DMA_DESCRIPTORS_def)
    ultimately show ?thesis by (simp only: unat_mod)
  qed
  have nz: "total_size \<noteq> 0" "a_nbytes a div total_size = 0"
    using assms(5) by (auto simp: word_unat_eq_iff unat_div word_less_nat_alt)
  have tr: "translate_address cd d1 = Inr (Some (m_page_address (c_buffer cd) 0))"
    using assms(8,9) nz by (simp add: translate_address_def udiv_def d1_def f PAGE_ADDRESS_SLOTS_def Let_def)
  obtain r d2 h where rd: "readDMADescriptor (request_env K (dma_descriptor_sw_words d1))
      (d1\<lparr>dd_address := m_page_address (c_buffer cd) 0\<rparr>) cd (entered 104 (k_hist st1)) = (r, d2, h)"
    by (metis prod_cases3)
  have d2: "dd_address d2 = m_page_address (c_buffer cd) 0" "(reg 88, dd_latency d2) \<in> set h"
    "(reg 104, dd_time_at_comp d2) \<in> set h" "filter is_dev_write (calls h) = filter is_dev_write (calls (k_hist st1))"
    using rd by (auto simp: readDMADescriptor_def kdo_def descriptor0_regs Let_def reg_def ix entered_def)
  note sr = serve_read_descriptor [OF tr [unfolded cd_def] rd [unfolded cd_def]]
  obtain r1 u1 where w: "writeDescriptor U d (b_ust b) = (r1, d, u1)"
    using served_descriptor(1) [OF assms(10,11)] by (metis prod.collapse)
  obtain r2 u2 where rr: "readDescriptor U d1 u1 = (r2, d2, u2)"
    using served_descriptor(2) [OF _ sr] assms(12) w by (metis prod.collapse snd_conv)
  show ?thesis
    using sr d2 w rr assms(7)
    by (auto simp: measure_descriptor_def d1_def [symmetric])
qed

section \<open>Huge pages that are not\<close>

text \<open>
  C36. On a system with 2 MiB pages the middleware announces a page size of 2048 bytes
  (\<open>hugepage_size\<close>), and the driver then records the address of the first page for every one of
  the supposed huge pages: an access at any multiple of 2048 of the buffer is translated to an
  address inside the first 2048 bytes.
\<close>

theorem small_hugepages_alias:
  assumes "db_hp_size db = fst (hugepage_size (hugepage_env False) u)"
    and "db_length db = of_nat n * db_hp_size db" and "0 < n" and "n \<le> PAGE_ADDRESS_SLOTS"
    and "page_address_is K f" and "user_npages db \<noteq> 0" and "db_data db \<noteq> 0"
    and "\<forall>h. kret K h (Vmalloc (user_npages db * 8)) \<noteq> 0"
    and "\<forall>h. 0 \<le> s32 (kret K h (GetUserPages (db_data db) (user_npages db)))"
    and "j < n" and "dd_address dd = of_nat (2048 * j)" and "unat (dd_length dd) < 2048"
  shows "\<exists>mg' cd' h'. reg_hugemem K cd db mg h = Inr (0, mg', cd', h') \<and>
    translate_address cd' dd = Inr (Some (f (mg_pages mg' 0)))"
proof -
  have hp: "db_hp_size db = 2048"
    using assms(1) by (simp add: hugepage_env_size)
  have n16: "n \<le> 16" using assms(4) by (simp add: PAGE_ADDRESS_SLOTS_def)
  have len: "unat (db_length db) = n * 2048"
  proof -
    have "db_length db = of_nat (n * 2048)" using assms(2) by (simp add: hp)
    then show ?thesis using n16 u64_of_nat_inverse [of "n * 2048"] by simp
  qed
  obtain c where c: "huge_page_count db = Inr c"
    "unat c = (unat (db_length db) + unat (db_hp_size db) - 1) div unat (db_hp_size db)"
    using huge_page_count_ceil [of db] by (auto simp: hp)
  have cn: "unat c = n"
    using c(2) n16 div_exact [of 2047 2048 n] by (simp add: len hp mult.commute)
  have idx: "db_hp_size db div Nfp_Mem.PAGE_SIZE = 0"
    by (simp add: hp Nfp_Mem.PAGE_SIZE_def word_unat_eq_iff unat_div)
  have a: "unat (dd_address dd) = 2048 * j"
    using assms(4,10,11) n16 u64_of_nat_inverse [of "2048 * j"] by simp
  have al: "unat (dd_address dd + dd_length dd) = 2048 * j + unat (dd_length dd)"
    using a assms(12) n16 assms(10) by (subst unat_add_no_wrap) auto
  have q: "(dd_address dd + dd_length dd) div 2048 = dd_address dd div 2048"
    "unat (dd_address dd div 2048) = j" "dd_address dd mod 2048 = 0"
    using a al assms(12) by (simp_all add: word_unat_eq_iff unat_div unat_mod)
  obtain mg' cd' h' where "reg_hugemem K cd db mg h = Inr (0, mg', cd', h')"
    and "c_buffer cd' = \<lparr>m_virtual = db_data db, m_length = db_length db, m_page_size = db_hp_size db,
      m_npages = c, m_page_address = (\<lambda>j. if j < unat c
        then f (mg_pages mg' (unat (db_hp_size db div Nfp_Mem.PAGE_SIZE * of_nat j)))
        else m_page_address (c_buffer cd) j)\<rparr>"
    using reg_hugemem_fills [OF assms(5) c(1), of cd mg h] assms(4,6,8,9)
    by (auto simp: cn idx word_neq_0_conv)
  then show ?thesis
    using assms(7,10) q n16
    by (auto simp: translate_address_def udiv_def Let_def PAGE_ADDRESS_SLOTS_def hp cn idx [unfolded hp])
qed

section \<open>Witnesses\<close>

text \<open>The user environment of a process whose requests the driver serves.\<close>

definition driver_uenv :: "kenv \<Rightarrow> kst \<Rightarrow> uenv" where
  "driver_uenv K st = \<lparr>uret = (\<lambda>h c. 0),
     uout = (\<lambda>h c i. case c of
         Ioctl fd cmd ws \<Rightarrow> (case serve K cmd ws st of Some (ws', _) \<Rightarrow> ws' ! i | None \<Rightarrow> 0)
       | _ \<Rightarrow> 0)\<rparr>"

lemma driver_uenv_served: "served_by (driver_uenv K st) u K st cmd ws"
  by (simp add: served_by_def driver_uenv_def)

definition bar0_kst :: kst where
  "bar0_kst = idle_kst\<lparr>k_card := zero_card\<lparr>c_bar0 := 0x400000\<rparr>\<rparr>"

theorem register_access_end_to_end_witness:
  "fst (writeWord (driver_uenv idle_env bar0_kst) 0 0x10 0xBEEF init_ust) = 0xBEEF"
proof -
  have "bar_base (k_card bar0_kst) (ucast (0 :: u8)) \<noteq> 0"
    by (simp add: bar0_kst_def bar_base_def)
  from register_access_end_to_end [OF this driver_uenv_served driver_uenv_served,
      where u = init_ust and off = "0x10" and data = "0xBEEF" and K = idle_env]
  show ?thesis by (auto simp: Let_def)
qed

theorem small_hugepages_alias_witness:
  "\<exists>mg cd h. reg_hugemem (hp_env 4) zero_card (sample_db 4096\<lparr>db_hp_size := 2048\<rparr>) init_mem_glob []
       = Inr (0, mg, cd, h) \<and>
     translate_address cd (sample_dd\<lparr>dd_address := 2048\<rparr>) = Inr (Some (mg_pages mg 0 * 4096))"
proof (rule small_hugepages_alias [where n = 2 and j = 1 and u = init_ust])
  show "user_npages (sample_db 4096\<lparr>db_hp_size := 2048\<rparr>) \<noteq> 0"
    by (simp add: user_npages_def sample_db_def PAGE_SHIFT_def PAGE_MASK_def Nfp_Mem.PAGE_SIZE_def Let_def)
qed (simp_all add: hugepage_env_size sample_db_def sample_dd_def hp_env_facts PAGE_ADDRESS_SLOTS_def s32_def)

text \<open>A card with one registered huge page of 1 GiB.\<close>

definition page_kst :: kst where
  "page_kst = idle_kst\<lparr>k_card := zero_card\<lparr>c_buffer := \<lparr>m_virtual = 0x7F0000000000, m_length = 0x40000000,
     m_page_size = 0x40000000, m_npages = 1, m_page_address = (\<lambda>_. 0xC0000000)\<rparr>\<rparr>\<rparr>"

definition write_args :: arguments where
  "write_args = default_arguments\<lparr>a_nbytes := 256, a_niters := 8, a_test := BANDWIDTH\<rparr>"

lemma write_args_ok:
  "iteration_ok write_args 0x40000000 8 (fill_descriptor write_args 0x40000000 5 8 sample_dd) = Some True"
  using limit_loop_power [of 30 0]
  by (simp add: iteration_ok_def pattern_ok_def fill_descriptor_def write_args_def default_arguments_def Let_def)

lemma page_clock:
  "clock_expires stuck_env (kret stuck_env (snd (setup_descriptor stuck_env d (k_card page_kst)
      (k_dma page_kst) (entered 104 (k_hist page_kst)))) KtimeGetUs) 1"
proof -
  have "kcount is_clock (snd (setup_descriptor stuck_env d (k_card page_kst) (k_dma page_kst)
      (entered 104 (k_hist page_kst)))) = 0"
    by (simp add: setup_descriptor_eq Let_def emits_def setup_writes_def is_clock_def entered_def
        page_kst_def idle_kst_def)
  then show ?thesis
    by (simp add: clock_expires_def stuck_env_def POLL_TIMEOUT_def)
qed


text \<open>A process whose writes of descriptors are served in one state of the driver and whose reads in
  another.\<close>

definition two_step_uenv :: "kenv \<Rightarrow> kst \<Rightarrow> kst \<Rightarrow> uenv" where
  "two_step_uenv K st st1 = \<lparr>uret = (\<lambda>h c. 0),
     uout = (\<lambda>h c i. case c of
         Ioctl fd cmd ws \<Rightarrow>
           (case serve K cmd ws (if cmd = NFPIOC_READ_DMA_DESCRIPTOR then st1 else st) of
              Some (ws', _) \<Rightarrow> ws' ! i | None \<Rightarrow> 0)
       | _ \<Rightarrow> 0)\<rparr>"

lemma two_step_served:
  "served_by (two_step_uenv K st st1) u K st NFPIOC_WRITE_DMA_DESCRIPTOR ws"
  "served_by (two_step_uenv K st st1) u K st1 NFPIOC_READ_DMA_DESCRIPTOR ws"
  by (simp_all add: served_by_def two_step_uenv_def layout_simps)

theorem reported_measure_witness:
  "\<exists>U b'. measure_descriptor U write_args 8 5
       (fill_descriptor write_args 0x40000000 (of_nat 5) 8 sample_dd) init_bst = Ret (Next, b') \<and>
     dd_address (b_dlist b' 5) = 0xC0000000"
proof -
  let ?d = "fill_descriptor write_args 0x40000000 (of_nat 5) 8 sample_dd"
  obtain st1 where st1: "serve stuck_env NFPIOC_WRITE_DMA_DESCRIPTOR (dma_descriptor_sw_words ?d) page_kst
      = Some (dma_descriptor_sw_words ?d, st1)" "k_card st1 = k_card page_kst"
    using measurement_served [OF write_args_ok _ _ _ page_clock]
    by (auto simp: page_kst_def)
  have "\<exists>m. total_bytes write_args 8 = Inr m"
    using total_bytes_fault [of write_args 8]
    by (cases "total_bytes write_args 8") (auto simp: write_args_def)
  then obtain m where "total_bytes write_args 8 = Inr m" by blast
  from reported_measure [OF _ _ this _ _ two_step_served(1) st1(1) two_step_served(2), of init_bst]
  obtain b' where "measure_descriptor (two_step_uenv stuck_env page_kst st1) write_args 8 5 ?d init_bst
      = Ret (Next, b')" "dd_address (b_dlist b' 5) = m_page_address (c_buffer (k_card st1)) 0"
    using st1(2) by (auto simp: page_kst_def write_args_def)
  then show ?thesis
    using st1(2) by (auto simp: page_kst_def)
qed

end
